(* ===== verification/Prelude.thy ===== *)
theory Prelude
  imports Main "HOL-Library.Word"
begin

text \<open>
  What every component shares: the fixed-width integers of the Rust code, saturating and
  checked arithmetic, the decimal and hexadecimal text formats of the standard library
  (\<open>{}\<close>, \<open>{:02x}\<close>, \<open>str::parse\<close>), UTF-8 validity, and the ordered map that stands for
  \<open>std::collections::BTreeMap\<close>.

  Conventions of the whole development.
  \<^item> A Rust string is its list of UTF-8 bytes, a \<open>string\<close>; \<open>s.len()\<close> is \<open>length s\<close>.
  \<^item> \<open>Result<T, E>\<close> is \<open>'e + 't\<close>, with \<open>Inl\<close> for the error.
  \<^item> A panic is the value \<open>None\<close> of an \<open>option\<close> around the result of the operation.
  \<^item> \<open>i32\<close>, \<open>i64\<close> and \<open>i128\<close> are words read with \<open>sint\<close>.
\<close>

unbundle bit_operations_syntax

section \<open>Types\<close>

type_synonym u8 = "8 word"
type_synonym u32 = "32 word"
type_synonym u64 = "64 word"
type_synonym u128 = "128 word"
type_synonym i32 = "32 word"
type_synonym i64 = "64 word"
type_synonym i128 = "128 word"
type_synonym bytes = "8 word list"

named_theorems handlers \<comment> \<open>the definitions of the handlers of the JSON-RPC methods\<close>
lemmas res_splits = sum.splits option.splits prod.splits if_splits

section \<open>Results\<close>

definition map_err :: "('e \<Rightarrow> 'f) \<Rightarrow> 'e + 'a \<Rightarrow> 'f + 'a" where
  "map_err f r = (case r of Inl e \<Rightarrow> Inl (f e) | Inr a \<Rightarrow> Inr a)"

lemma map_err_simps [simp]:
  "map_err f (Inl e) = Inl (f e)"
  "map_err f (Inr a) = Inr a"
  by (simp_all add: map_err_def)

lemma map_err_Inr_iff [simp]: "map_err f r = Inr a \<longleftrightarrow> r = Inr a"
  by (cases r) simp_all

definition res_bind :: "'e + 'a \<Rightarrow> ('a \<Rightarrow> 'e + 'b) \<Rightarrow> 'e + 'b" where
  \<comment> \<open>the \<open>?\<close> operator\<close>
  "res_bind r f = (case r of Inl e \<Rightarrow> Inl e | Inr a \<Rightarrow> f a)"

lemma res_bind_simps [simp]:
  "res_bind (Inl e) f = Inl e"
  "res_bind (Inr a) f = f a"
  by (simp_all add: res_bind_def)

lemma res_bind_Inr_iff: "res_bind r f = Inr b \<longleftrightarrow> (\<exists>a. r = Inr a \<and> f a = Inr b)"
  by (cases r) simp_all

definition ok_or :: "'e \<Rightarrow> 'a option \<Rightarrow> 'e + 'a" where
  "ok_or e x = (case x of None \<Rightarrow> Inl e | Some a \<Rightarrow> Inr a)"

lemma ok_or_simps [simp]:
  "ok_or e None = Inl e"
  "ok_or e (Some a) = Inr a"
  by (simp_all add: ok_or_def)

definition unwrap_or :: "'a \<Rightarrow> 'a option \<Rightarrow> 'a" where
  "unwrap_or d x = (case x of None \<Rightarrow> d | Some a \<Rightarrow> a)"

lemma unwrap_or_simps [simp]:
  "unwrap_or d None = d"
  "unwrap_or d (Some a) = a"
  by (simp_all add: unwrap_or_def)

definition is_ok :: "'e + 'a \<Rightarrow> bool" where
  "is_ok r = (case r of Inl _ \<Rightarrow> False | Inr _ \<Rightarrow> True)"

lemma is_ok_simps [simp]: "is_ok (Inl e) = False" "is_ok (Inr a) = True"
  by (simp_all add: is_ok_def)

text \<open>\<open>iter().map(f).collect::<Result<Vec<_>>>()\<close>: the first error stops the walk.\<close>

fun collect_res :: "('a \<Rightarrow> 'e + 'b) \<Rightarrow> 'a list \<Rightarrow> 'e + 'b list" where
  "collect_res f [] = Inr []"
| "collect_res f (x # xs) =
     (case f x of Inl e \<Rightarrow> Inl e
      | Inr y \<Rightarrow> (case collect_res f xs of Inl e \<Rightarrow> Inl e | Inr ys \<Rightarrow> Inr (y # ys)))"

section \<open>Integers\<close>

text \<open>\<open>saturating_add\<close> on an unsigned type: the sum, or the maximum when it does not fit.\<close>

definition sat_add :: "'a::len word \<Rightarrow> 'a word \<Rightarrow> 'a word" where
  "sat_add a b = (if unat a + unat b < 2 ^ LENGTH('a) then a + b else - 1)"

lemma unat_minus_1: "unat (- 1 :: 'a::len word) = 2 ^ LENGTH('a) - 1"
  by (simp add: unsigned_minus_1_eq_mask mask_eq_exp_minus_1)

lemma unat_sat_add:
  "unat (sat_add a b :: 'a::len word) = min (unat a + unat b) (2 ^ LENGTH('a) - 1)"
  by (auto simp: sat_add_def unat_word_ariths unat_minus_1)

lemma sat_add_ge: "a \<le> sat_add a b"
proof -
  have "unat a < 2 ^ LENGTH('a)"
    by (rule unsigned_less)
  then have "unat a \<le> 2 ^ LENGTH('a) - 1"
    by linarith
  then have "unat a \<le> unat (sat_add a b)"
    by (simp add: unat_sat_add)
  then show ?thesis
    by (simp add: word_le_nat_alt)
qed

lemma sat_add_0 [simp]: "sat_add a 0 = a"
  by (simp add: sat_add_def)

text \<open>\<open>saturating_add\<close> on \<open>i64\<close>.\<close>

definition sat_add_i64 :: "i64 \<Rightarrow> i64 \<Rightarrow> i64" where
  "sat_add_i64 a b = word_of_int (max (- (2 ^ 63)) (min (2 ^ 63 - 1) (sint a + sint b)))"

lemma sint_of_int_i64: "- (2 ^ 63) \<le> i \<Longrightarrow> i < 2 ^ 63 \<Longrightarrow> sint (word_of_int i :: i64) = i"
  by (simp add: sint_sbintrunc' signed_take_bit_int_eq_self)

lemma sint_sat_add_i64:
  "sint (sat_add_i64 a b) = max (- (2 ^ 63)) (min (2 ^ 63 - 1) (sint a + sint b))"
  unfolding sat_add_i64_def by (rule sint_of_int_i64) (simp_all add: max_def min_def)

section \<open>Decimal and hexadecimal text\<close>

definition digit_char :: "nat \<Rightarrow> char" where
  "digit_char d = char_of (48 + d)"

definition char_digit :: "char \<Rightarrow> nat option" where
  \<comment> \<open>\<open>char::to_digit(10)\<close>\<close>
  "char_digit c = (let k = (of_char c :: nat) in if 48 \<le> k \<and> k \<le> 57 then Some (k - 48) else None)"

lemma char_digit_digit_char [simp]: "d < 10 \<Longrightarrow> char_digit (digit_char d) = Some d"
  by (simp add: char_digit_def digit_char_def Let_def)

fun show_nat :: "nat \<Rightarrow> string" where
  "show_nat n = (if n < 10 then [digit_char n] else show_nat (n div 10) @ [digit_char (n mod 10)])"

declare show_nat.simps [simp del]

definition show_int :: "int \<Rightarrow> string" where
  "show_int i = (if i < 0 then CHR ''-'' # show_nat (nat (- i)) else show_nat (nat i))"

definition show_u :: "'a::len word \<Rightarrow> string" where
  "show_u w = show_nat (unat w)"

definition show_s :: "'a::len word \<Rightarrow> string" where
  "show_s w = show_int (sint w)"

datatype parse_int_error = EmptyInput | InvalidDigit | PosOverflow | NegOverflow

fun show_parse_int_error :: "parse_int_error \<Rightarrow> string" where
  "show_parse_int_error EmptyInput = ''cannot parse integer from empty string''"
| "show_parse_int_error InvalidDigit = ''invalid digit found in string''"
| "show_parse_int_error PosOverflow = ''number too large to fit in target type''"
| "show_parse_int_error NegOverflow = ''number too small to fit in target type''"

text \<open>
  \<open>str::parse\<close> for an integer type: a sign (a minus only on signed types), then digits
  from the left; the first bad digit or the first value past the limit is the error.
\<close>

fun parse_digits :: "parse_int_error \<Rightarrow> nat \<Rightarrow> nat \<Rightarrow> string \<Rightarrow> parse_int_error + nat" where
  "parse_digits ovf mx acc [] = Inr acc"
| "parse_digits ovf mx acc (c # cs) =
     (case char_digit c of None \<Rightarrow> Inl InvalidDigit
      | Some d \<Rightarrow> if acc * 10 + d > mx then Inl ovf else parse_digits ovf mx (acc * 10 + d) cs)"

definition parse_unsigned :: "nat \<Rightarrow> string \<Rightarrow> parse_int_error + nat" where
  "parse_unsigned bits s =
     (case s of [] \<Rightarrow> Inl EmptyInput
      | c # cs \<Rightarrow>
          if c = CHR ''+'' then
            (if cs = [] then Inl InvalidDigit else parse_digits PosOverflow (2 ^ bits - 1) 0 cs)
          else parse_digits PosOverflow (2 ^ bits - 1) 0 s)"

definition parse_signed :: "nat \<Rightarrow> string \<Rightarrow> parse_int_error + int" where
  "parse_signed bits s =
     (case s of [] \<Rightarrow> Inl EmptyInput
      | c # cs \<Rightarrow>
          if c = CHR ''+'' \<or> c = CHR ''-'' then
            (if cs = [] then Inl InvalidDigit
             else if c = CHR ''+'' then
               (case parse_digits PosOverflow (2 ^ (bits - 1) - 1) 0 cs of
                  Inl e \<Rightarrow> Inl e | Inr n \<Rightarrow> Inr (int n))
             else
               (case parse_digits NegOverflow (2 ^ (bits - 1)) 0 cs of
                  Inl e \<Rightarrow> Inl e | Inr n \<Rightarrow> Inr (- int n)))
          else
            (case parse_digits PosOverflow (2 ^ (bits - 1) - 1) 0 s of
               Inl e \<Rightarrow> Inl e | Inr n \<Rightarrow> Inr (int n)))"

lemma parse_digits_bound: "parse_digits ovf mx acc s = Inr n \<Longrightarrow> acc \<le> mx \<Longrightarrow> n \<le> mx"
  by (induction ovf mx acc s rule: parse_digits.induct) (auto split: option.splits if_splits)

lemma int_less_pow: "n \<le> 2 ^ k - 1 \<Longrightarrow> int n < 2 ^ k"
proof -
  assume "n \<le> 2 ^ k - 1"
  moreover have "(0::nat) < 2 ^ k" by simp
  ultimately have "n < 2 ^ k" by linarith
  then show ?thesis by (metis of_nat_less_iff of_nat_numeral of_nat_power)
qed

lemma int_le_pow: "n \<le> 2 ^ k \<Longrightarrow> int n \<le> 2 ^ k"
  by (metis of_nat_le_iff of_nat_numeral of_nat_power)

lemma parse_signed_range:
  assumes "parse_signed bits s = Inr i"
  shows "- (2 ^ (bits - 1)) \<le> i \<and> i < 2 ^ (bits - 1)"
proof -
  have one: "(0::int) < 2 ^ (bits - 1)" by simp
  from assms consider
      n where "i = int n" "n \<le> 2 ^ (bits - 1) - 1"
    | n where "i = - int n" "n \<le> 2 ^ (bits - 1)"
    by (auto simp: parse_signed_def split: list.splits if_splits sum.splits
        simp del: parse_digits.simps dest!: parse_digits_bound)
  then show ?thesis
  proof cases
    case (1 n)
    with int_less_pow [OF 1(2)] one show ?thesis by linarith
  next
    case (2 n)
    with int_le_pow [OF 2(2)] one show ?thesis by linarith
  qed
qed

lemma parse_digits_append:
  "parse_digits ovf mx acc (s @ t) =
     (case parse_digits ovf mx acc s of Inl e \<Rightarrow> Inl e | Inr n \<Rightarrow> parse_digits ovf mx n t)"
  by (induction ovf mx acc s rule: parse_digits.induct) (auto split: option.splits)

lemma show_nat_nonempty [simp]: "show_nat n \<noteq> []"
  by (subst show_nat.simps) simp

lemma parse_digits_show_nat: "n \<le> mx \<Longrightarrow> parse_digits ovf mx 0 (show_nat n) = Inr n"
proof (induction n rule: show_nat.induct)
  case (1 n)
  show ?case
  proof (cases "n < 10")
    case True
    with "1.prems" show ?thesis by (simp add: show_nat.simps [of n])
  next
    case False
    from "1.prems" have le: "n div 10 \<le> mx"
      by (meson div_le_dividend le_trans)
    have "n mod 10 < 10" by simp
    with False "1.IH" [OF False le] "1.prems" show ?thesis
      by (simp add: show_nat.simps [of n] parse_digits_append)
  qed
qed

lemma show_nat_digits: "c \<in> set (show_nat n) \<Longrightarrow> \<exists>d<10. c = digit_char d"
proof (induction n rule: show_nat.induct)
  case (1 n)
  show ?case
  proof (cases "n < 10")
    case True
    with "1.prems" show ?thesis by (auto simp: show_nat.simps [of n])
  next
    case False
    with "1.prems" have "c \<in> set (show_nat (n div 10)) \<or> c = digit_char (n mod 10)"
      by (auto simp: show_nat.simps [of n])
    moreover have "n mod 10 < 10" by simp
    ultimately show ?thesis using "1.IH" [OF False] by blast
  qed
qed

lemma show_nat_no_sign:
  "CHR ''-'' \<notin> set (show_nat n)" "CHR ''+'' \<notin> set (show_nat n)"
proof -
  have "digit_char d \<noteq> CHR ''-'' \<and> digit_char d \<noteq> CHR ''+''" if "d < 10" for d
  proof -
    have "(of_char (digit_char d) :: nat) = 48 + d"
      using that by (simp add: digit_char_def)
    then have "(of_char (digit_char d) :: nat) \<noteq> of_char (CHR ''-'')"
      and "(of_char (digit_char d) :: nat) \<noteq> of_char (CHR ''+'')"
      by simp_all
    then show ?thesis by metis
  qed
  then show "CHR ''-'' \<notin> set (show_nat n)" "CHR ''+'' \<notin> set (show_nat n)"
    using show_nat_digits by metis+
qed

lemma parse_signed_show_int:
  assumes "- (2 ^ (bits - 1)) \<le> i" "i < 2 ^ (bits - 1)"
  shows "parse_signed bits (show_int i) = Inr i"
proof (cases "i < 0")
  case True
  then have "nat (- i) \<le> 2 ^ (bits - 1)"
    using assms(1) by (simp add: nat_le_iff)
  with True show ?thesis
    by (simp add: parse_signed_def show_int_def parse_digits_show_nat)
next
  case False
  obtain c cs where ccs: "show_nat (nat i) = c # cs"
    using show_nat_nonempty [of "nat i"] by (cases "show_nat (nat i)") auto
  have sgn: "c \<noteq> CHR ''-''" "c \<noteq> CHR ''+''"
    using show_nat_no_sign [of "nat i"] ccs by auto
  have "nat i < 2 ^ (bits - 1)"
    using assms(2) False by (simp add: nat_less_iff)
  then have "nat i \<le> 2 ^ (bits - 1) - 1" by linarith
  then have "parse_digits PosOverflow (2 ^ (bits - 1) - 1) 0 (c # cs) = Inr (nat i)"
    using parse_digits_show_nat ccs by metis
  with False ccs sgn show ?thesis
    by (simp add: parse_signed_def show_int_def)
qed

text \<open>Two lower-case hexadecimal digits, \<open>format!("{b:02x}")\<close>.\<close>

definition nibble_char :: "u8 \<Rightarrow> char" where
  "nibble_char n = (if n < 10 then char_of (48 + unat n) else char_of (87 + unat n))"

definition byte_02x :: "u8 \<Rightarrow> string" where
  "byte_02x b = [nibble_char (drop_bit 4 b), nibble_char (b AND 15)]"

section \<open>UTF-8\<close>

definition str_of_bytes :: "bytes \<Rightarrow> string" where
  "str_of_bytes bs = map (\<lambda>b. char_of (unat b)) bs"

definition bytes_of_str :: "string \<Rightarrow> bytes" where
  "bytes_of_str s = map of_char s"

lemma length_str_of_bytes [simp]: "length (str_of_bytes bs) = length bs"
  by (simp add: str_of_bytes_def)

lemma length_bytes_of_str [simp]: "length (bytes_of_str s) = length s"
  by (simp add: bytes_of_str_def)

lemma unat_of_char: "unat (of_char c :: u8) = of_char c"
proof -
  have "unat (of_nat (of_char c) :: u8) = of_char c mod 256"
    by (simp add: unat_of_nat)
  also have "\<dots> = (of_char c :: nat)"
    by simp
  finally show ?thesis by (simp only: of_nat_of_char)
qed

definition cont_byte :: "u8 \<Rightarrow> bool" where
  "cont_byte b \<longleftrightarrow> 0x80 \<le> b \<and> b \<le> 0xBF"

text \<open>\<open>std::str::from_utf8\<close>: the well-formed byte sequences of the Unicode standard.\<close>

fun utf8_valid :: "bytes \<Rightarrow> bool" where
  "utf8_valid [] \<longleftrightarrow> True"
| "utf8_valid (a # rest) \<longleftrightarrow>
     (if a < 0x80 then utf8_valid rest
      else case rest of [] \<Rightarrow> False
      | b # rest2 \<Rightarrow>
        if 0xC2 \<le> a \<and> a \<le> 0xDF then cont_byte b \<and> utf8_valid rest2
        else case rest2 of [] \<Rightarrow> False
        | c # rest3 \<Rightarrow>
          if 0xE0 \<le> a \<and> a \<le> 0xEF then
            cont_byte b \<and> cont_byte c \<and> (a = 0xE0 \<longrightarrow> 0xA0 \<le> b) \<and> (a = 0xED \<longrightarrow> b \<le> 0x9F)
            \<and> utf8_valid rest3
          else case rest3 of [] \<Rightarrow> False
          | d # rest4 \<Rightarrow>
            0xF0 \<le> a \<and> a \<le> 0xF4 \<and> cont_byte b \<and> cont_byte c \<and> cont_byte d
            \<and> (a = 0xF0 \<longrightarrow> 0x90 \<le> b) \<and> (a = 0xF4 \<longrightarrow> b \<le> 0x8F) \<and> utf8_valid rest4)"

definition from_utf8 :: "bytes \<Rightarrow> string option" where
  "from_utf8 bs = (if utf8_valid bs then Some (str_of_bytes bs) else None)"

text \<open>\<open>str::is_char_boundary\<close>, and \<open>&s[..i]\<close> and \<open>&s[i..]\<close>, which panic off a boundary.\<close>

definition char_boundary :: "string \<Rightarrow> nat \<Rightarrow> bool" where
  "char_boundary s i \<longleftrightarrow>
     i = 0 \<or> i = length s \<or> (i < length s \<and> \<not> cont_byte (of_char (s ! i)))"

definition slice_to :: "string \<Rightarrow> nat \<Rightarrow> string option" where
  "slice_to s i = (if char_boundary s i then Some (take i s) else None)"

definition slice_from :: "string \<Rightarrow> nat \<Rightarrow> string option" where
  "slice_from s i = (if char_boundary s i then Some (drop i s) else None)"

definition ascii :: "string \<Rightarrow> bool" where
  "ascii s \<longleftrightarrow> (\<forall>c \<in> set s. (of_char c :: nat) < 128)"

lemma ascii_boundary: "ascii s \<Longrightarrow> i \<le> length s \<Longrightarrow> char_boundary s i"
proof -
  assume a: "ascii s" and i: "i \<le> length s"
  show "char_boundary s i"
  proof (cases "i < length s")
    case True
    then have "(of_char (s ! i) :: nat) < 128"
      using a by (simp add: ascii_def)
    then have "unat (of_char (s ! i) :: u8) < 128"
      by (simp add: unat_of_char)
    then have "\<not> (0x80 :: u8) \<le> of_char (s ! i)"
      by (simp add: word_le_nat_alt)
    with True show ?thesis by (simp add: char_boundary_def cont_byte_def)
  next
    case False
    with i show ?thesis by (simp add: char_boundary_def)
  qed
qed

text \<open>The characters of a string: a byte and the continuation bytes after it.\<close>

fun cont_char :: "char \<Rightarrow> bool" where
  "cont_char c = cont_byte (of_char c)"

function chars_of :: "string \<Rightarrow> string list" where
  "chars_of [] = []"
| "chars_of (c # cs) = (c # takeWhile cont_char cs) # chars_of (dropWhile cont_char cs)"
  by pat_completeness auto
termination
  by (relation "measure length") (auto simp: length_dropWhile_le le_imp_less_Suc)

lemma concat_chars_of [simp]: "concat (chars_of s) = s"
  by (induction s rule: chars_of.induct) (simp_all del: cont_char.simps)

text \<open>\<open>str::trim\<close>: the characters with the Unicode property \<open>White_Space\<close>.\<close>

definition white_space :: "string list" where
  "white_space =
     map (\<lambda>n. [char_of (n::nat)]) [9, 10, 11, 12, 13, 32]
     @ map (map char_of)
         ([[194, 133], [194, 160], [225, 154, 128], [226, 128, 168], [226, 128, 169],
           [226, 128, 175], [226, 129, 159], [227, 128, 128]]
          @ map (\<lambda>n. [226, 128, n]) [128..<139 :: nat])"

definition trim :: "string \<Rightarrow> string" where
  "trim s =
     concat (rev (dropWhile (\<lambda>c. c \<in> set white_space)
       (rev (dropWhile (\<lambda>c. c \<in> set white_space) (chars_of s)))))"

section \<open>BTreeMap\<close>

text \<open>
  \<open>std::collections::BTreeMap\<close> as the list of its entries in key order; \<open>lt\<close> is the
  key type's \<open>Ord\<close>. \<open>insert\<close> overwrites the value of a present key.
\<close>

fun bt_insert :: "('k \<Rightarrow> 'k \<Rightarrow> bool) \<Rightarrow> 'k \<Rightarrow> 'v \<Rightarrow> ('k \<times> 'v) list \<Rightarrow> ('k \<times> 'v) list" where
  "bt_insert lt k v [] = [(k, v)]"
| "bt_insert lt k v ((a, b) # m) =
     (if k = a then (k, v) # m
      else if lt k a then (k, v) # (a, b) # m
      else (a, b) # bt_insert lt k v m)"

abbreviation bt_get :: "('k \<times> 'v) list \<Rightarrow> 'k \<Rightarrow> 'v option" where
  "bt_get m k \<equiv> map_of m k"

lemma bt_get_insert [simp]: "map_of (bt_insert lt k v m) = (map_of m)(k \<mapsto> v)"
  by (induction lt k v m rule: bt_insert.induct) (auto simp: fun_eq_iff)

lemma keys_bt_insert: "fst ` set (bt_insert lt k v m) = insert k (fst ` set m)"
  by (induction lt k v m rule: bt_insert.induct) auto

definition bt_sorted :: "('k \<Rightarrow> 'k \<Rightarrow> bool) \<Rightarrow> ('k \<times> 'v) list \<Rightarrow> bool" where
  "bt_sorted lt m \<longleftrightarrow> sorted_wrt lt (map fst m)"

text \<open>The contract of a type's \<open>Ord\<close>, on the values \<open>K\<close> in play.\<close>

definition strict_order_on :: "'k set \<Rightarrow> ('k \<Rightarrow> 'k \<Rightarrow> bool) \<Rightarrow> bool" where
  "strict_order_on K lt \<longleftrightarrow>
     (\<forall>a\<in>K. \<not> lt a a) \<and> (\<forall>a\<in>K. \<forall>b\<in>K. \<forall>c\<in>K. lt a b \<longrightarrow> lt b c \<longrightarrow> lt a c)
     \<and> (\<forall>a\<in>K. \<forall>b\<in>K. lt a b \<or> a = b \<or> lt b a)"

lemma strict_order_onD:
  assumes "strict_order_on K lt"
  shows "a \<in> K \<Longrightarrow> \<not> lt a a"
    "a \<in> K \<Longrightarrow> b \<in> K \<Longrightarrow> c \<in> K \<Longrightarrow> lt a b \<Longrightarrow> lt b c \<Longrightarrow> lt a c"
    "a \<in> K \<Longrightarrow> b \<in> K \<Longrightarrow> lt a b \<or> a = b \<or> lt b a"
  using assms unfolding strict_order_on_def by blast+

lemma bt_sorted_insert:
  assumes "strict_order_on K lt" "k \<in> K" "bt_sorted lt m" "fst ` set m \<subseteq> K"
  shows "bt_sorted lt (bt_insert lt k v m)"
  using assms(3,4)
proof (induction m)
  case Nil
  then show ?case by (simp add: bt_sorted_def)
next
  case (Cons ab m)
  obtain a b where ab: "ab = (a, b)" by force
  from Cons.prems ab have srt: "bt_sorted lt m" and above: "\<forall>x \<in> fst ` set m. lt a x"
    and inK: "a \<in> K" "fst ` set m \<subseteq> K"
    by (auto simp: bt_sorted_def)
  consider "k = a" | "k \<noteq> a" "lt k a" | "k \<noteq> a" "\<not> lt k a" by blast
  then show ?case
  proof cases
    case 1
    with Cons.prems ab show ?thesis by (simp add: bt_sorted_def)
  next
    case 2
    have "lt k x" if "x \<in> fst ` set m" for x
      using strict_order_onD(2) [OF assms(1,2) inK(1) _ 2(2)] that above inK by blast
    with 2 Cons.prems ab show ?thesis by (auto simp: bt_sorted_def)
  next
    case 3
    then have "lt a k" using strict_order_onD(3) [OF assms(1,2) inK(1)] by blast
    with above have "\<forall>x \<in> fst ` set (bt_insert lt k v m). lt a x"
      by (simp add: keys_bt_insert)
    with 3 ab Cons.IH [OF srt inK(2)] show ?thesis by (auto simp: bt_sorted_def)
  qed
qed

lemma bt_sorted_distinct:
  assumes "strict_order_on K lt" "bt_sorted lt m" "fst ` set m \<subseteq> K"
  shows "distinct (map fst m)"
proof -
  have "distinct xs" if "sorted_wrt lt xs" "set xs \<subseteq> K" for xs
    using that strict_order_onD(1) [OF assms(1)] by (induction xs) auto
  with assms(2,3) show ?thesis by (simp add: bt_sorted_def)
qed

end
