(* ===== verification/Json.thy ===== *)
theory Json
  imports Prelude
begin

text \<open>
  \<open>serde_json::Value\<close>, and what \<open>#[derive(Deserialize)]\<close> does with one: the structs of
  \<open>src/server/types.rs\<close>, \<open>src/rpc.rs\<close> and the cargo metadata of \<open>src/workspace.rs\<close> are
  read through these combinators. An object is the association list of its members; a
  decoder returns \<open>None\<close> where serde returns an error.
\<close>

datatype json_number = PosInt u64 | NegInt i64 | Float string

datatype json =
    JNull
  | JBool bool
  | JNumber json_number
  | JString string
  | JArray "json list"
  | JObject "(string \<times> json) list"

fun json_is_null :: "json \<Rightarrow> bool" where
  "json_is_null JNull = True"
| "json_is_null _ = False"

fun json_as_str :: "json \<Rightarrow> string option" where
  "json_as_str (JString s) = Some s"
| "json_as_str _ = None"

fun json_as_array :: "json \<Rightarrow> json list option" where
  "json_as_array (JArray xs) = Some xs"
| "json_as_array _ = None"

text \<open>\<open>value["name"]\<close>: \<open>Null\<close> when the value is no object or lacks the member.\<close>

fun json_index :: "json \<Rightarrow> string \<Rightarrow> json" where
  "json_index (JObject fs) k = (case map_of fs k of None \<Rightarrow> JNull | Some v \<Rightarrow> v)"
| "json_index _ k = JNull"

section \<open>Scalars\<close>

fun dec_string :: "json \<Rightarrow> string option" where
  "dec_string (JString s) = Some s"
| "dec_string _ = None"

fun dec_u32 :: "json \<Rightarrow> u32 option" where
  "dec_u32 (JNumber (PosInt n)) = (if n < 0x100000000 then Some (ucast n) else None)"
| "dec_u32 _ = None"

fun dec_u64 :: "json \<Rightarrow> u64 option" where
  "dec_u64 (JNumber (PosInt n)) = Some n"
| "dec_u64 _ = None"

fun dec_value :: "json \<Rightarrow> json option" where
  "dec_value j = Some j"

fun dec_opt :: "(json \<Rightarrow> 'a option) \<Rightarrow> json \<Rightarrow> 'a option option" where
  "dec_opt d JNull = Some None"
| "dec_opt d j = map_option Some (d j)"

fun dec_list :: "(json \<Rightarrow> 'a option) \<Rightarrow> json \<Rightarrow> 'a list option" where
  "dec_list d (JArray xs) = those (map d xs)"
| "dec_list d _ = None"

section \<open>Structs\<close>

text \<open>
  The derived visitor takes a struct from an object (unknown members are ignored) or from
  an array (members by position, no more than there are fields). \<open>struct_members\<close> gives
  each field's raw value, if there is one, and says which form it was.
\<close>

fun struct_members :: "string list \<Rightarrow> json \<Rightarrow> (bool \<times> json option list) option" where
  "struct_members names (JObject fs) = Some (True, map (map_of fs) names)"
| "struct_members names (JArray xs) =
     (if length xs \<le> length names
      then Some (False, map Some xs @ replicate (length names - length xs) None) else None)"
| "struct_members names _ = None"

text \<open>A field with no attribute, an \<open>Option\<close> field with no attribute (absent is \<open>None\<close> in
  an object only), and a field marked \<open>#[serde(default)]\<close>.\<close>

definition fld_req :: "(json \<Rightarrow> 'a option) \<Rightarrow> json option \<Rightarrow> 'a option" where
  "fld_req d m = (case m of None \<Rightarrow> None | Some j \<Rightarrow> d j)"

definition fld_opt :: "bool \<Rightarrow> (json \<Rightarrow> 'a option) \<Rightarrow> json option \<Rightarrow> 'a option option" where
  "fld_opt is_object d m =
     (case m of None \<Rightarrow> if is_object then Some None else None | Some j \<Rightarrow> dec_opt d j)"

definition fld_default :: "'a \<Rightarrow> (json \<Rightarrow> 'a option) \<Rightarrow> json option \<Rightarrow> 'a option" where
  "fld_default x d m = (case m of None \<Rightarrow> Some x | Some j \<Rightarrow> d j)"

lemmas fld_defs = fld_req_def fld_opt_def fld_default_def

section \<open>Building responses\<close>

definition j_u32 :: "u32 \<Rightarrow> json" where
  "j_u32 n = JNumber (PosInt (ucast n))"

definition j_i32 :: "i32 \<Rightarrow> json" where
  "j_i32 n = JNumber (if sint n < 0 then NegInt (scast n) else PosInt (scast n))"

text \<open>\<open>skip_serializing_if = "Option::is_none"\<close>.\<close>

definition j_skip :: "string \<Rightarrow> json option \<Rightarrow> (string \<times> json) list" where
  "j_skip k v = (case v of None \<Rightarrow> [] | Some j \<Rightarrow> [(k, j)])"

lemma j_skip_simps [simp]: "j_skip k None = []" "j_skip k (Some j) = [(k, j)]"
  by (simp_all add: j_skip_def)

lemma dec_u32_j_u32 [simp]: "dec_u32 (j_u32 n) = Some n"
proof -
  have "uint n < 4294967296"
    using uint_lt2p [of n] by simp
  then have "ucast n < (0x100000000 :: u64)"
    by (simp add: word_less_def uint_up_ucast is_up)
  then show ?thesis
    by (simp add: j_u32_def ucast_up_ucast_id is_up)
qed

end
