(* ===== verification/Xdr.thy ===== *)
theory Xdr
  imports Json
begin

text \<open>
  The data the code gets from \<open>soroban_env_host::xdr\<close>, with the variants and fields the
  code names. A variant or field the code never looks into is carried as its XDR bytes
  (the constructors ending in \<open>Other\<close>, and \<open>xdr_ext\<close>). The types are the crates', not
  this repository's; the code under \<open>src/\<close> builds and takes apart exactly these shapes.

  The functions of those crates (XDR, base64, SHA-256, strkey, ed25519, \<open>Debug\<close> text, the
  host itself, its fee formula and the HTTP client) are the fields of the record
  \<open>ext_lib\<close>, an argument of every definition that calls them.
\<close>

section \<open>Values\<close>

type_synonym hash = bytes        \<comment> \<open>\<open>[u8; 32]\<close>\<close>
type_synonym account_id = bytes  \<comment> \<open>\<open>AccountId(PublicKeyTypeEd25519(Uint256([u8; 32])))\<close>\<close>

datatype xdr_ext = ExtV0 | ExtOther bytes

datatype sc_address = AddrAccount account_id | AddrContract hash | AddrOther bytes

datatype contract_executable = ExecWasm hash | ExecOther bytes

datatype scval =
    ScVoid
  | ScBool bool
  | ScU32 u32
  | ScI32 i32
  | ScU64 u64
  | ScI64 i64
  | ScU128 u64 u64
  | ScI128 i64 u64
  | ScSymbol bytes
  | ScString bytes
  | ScBytes bytes
  | ScAddress sc_address
  | ScVec "scval list option"
  | ScMap "(scval \<times> scval) list option"
  | ScContractInstance contract_executable "(scval \<times> scval) list option"
  | ScLedgerKeyContractInstance
  | ScOther bytes

section \<open>Ledger keys and entries\<close>

datatype durability = Temporary | Persistent

datatype trust_line_asset =
    CreditAlphanum4 bytes account_id
  | CreditAlphanum12 bytes account_id
  | AssetOther bytes

datatype config_setting_id =
    ContractComputeV0
  | ContractLedgerCostV0
  | ContractLedgerCostExtV0
  | ContractHistoricalDataV0
  | ContractEventsV0
  | ContractBandwidthV0
  | SettingOther nat

datatype ledger_key =
    KeyAccount account_id
  | KeyTrustline account_id trust_line_asset
  | KeyContractData sc_address scval durability
  | KeyContractCode hash
  | KeyConfigSetting config_setting_id
  | KeyTtl bytes
  | KeyOther bytes

record account_entry =
  ae_account_id :: account_id
  ae_balance :: i64
  ae_seq_num :: i64
  ae_num_sub_entries :: u32
  ae_inflation_dest :: "account_id option"
  ae_flags :: u32
  ae_home_domain :: bytes
  ae_thresholds :: bytes
  ae_signers :: "bytes list"
  ae_ext :: xdr_ext

record trust_line_entry =
  tl_account_id :: account_id
  tl_asset :: trust_line_asset
  tl_balance :: i64
  tl_limit :: i64
  tl_flags :: u32
  tl_ext :: xdr_ext

record contract_data_entry =
  cd_contract :: sc_address
  cd_key :: scval
  cd_durability :: durability
  cd_val :: scval

record contract_code_entry =
  cc_ext :: xdr_ext
  cc_hash :: hash
  cc_code :: bytes

text \<open>The fee fields of the settings that carry one; the rest of each is its bytes.\<close>

datatype config_setting_entry =
    CfgComputeV0 (fee_rate_per_instructions_increment: i64) bytes
  | CfgLedgerCostV0 (fee_disk_read_ledger_entry: i64) (fee_write_ledger_entry: i64)
      (fee_disk_read1_kb: i64) bytes
  | CfgLedgerCostExtV0 (fee_write1_kb: i64) bytes
  | CfgHistoricalDataV0 (fee_historical1_kb: i64)
  | CfgEventsV0 (fee_contract_events1_kb: i64) bytes
  | CfgBandwidthV0 (fee_tx_size1_kb: i64) bytes
  | CfgOther bytes

datatype ledger_entry_data =
    DataAccount account_entry
  | DataTrustline trust_line_entry
  | DataContractData contract_data_entry
  | DataContractCode contract_code_entry
  | DataConfigSetting config_setting_entry
  | DataOther bytes

record ledger_entry =
  le_last_modified :: u32
  le_data :: ledger_entry_data
  le_ext :: xdr_ext

type_synonym live_entry = "ledger_entry \<times> u32 option" \<comment> \<open>\<open>EntryWithLiveUntil\<close>\<close>

section \<open>Transactions\<close>

record invoke_contract_args =
  ic_contract :: sc_address
  ic_function :: bytes
  ic_args :: "scval list"

datatype host_function = HfInvokeContract invoke_contract_args | HfOther bytes

datatype muxed_account = MuxEd25519 bytes | MuxMuxedEd25519 u64 bytes

datatype operation_body = OpInvokeHostFunction host_function "bytes list" | OpOther bytes

record xdr_operation =
  op_source :: "muxed_account option"
  op_body :: operation_body

datatype preconditions = PrecondNone | PrecondOther bytes

datatype memo = MemoNone | MemoOther bytes

record transaction =
  tx_source :: muxed_account
  tx_fee :: u32
  tx_seq_num :: i64
  tx_cond :: preconditions
  tx_memo :: memo
  tx_operations :: "xdr_operation list"
  tx_ext :: xdr_ext

record v1_envelope =
  v1_tx :: transaction
  v1_signatures :: "bytes list"

record fee_bump_transaction =
  fb_fee_source :: muxed_account
  fb_fee :: i64
  fb_inner :: v1_envelope
  fb_ext :: xdr_ext

datatype transaction_envelope =
    EnvTxV0 bytes
  | EnvTx v1_envelope
  | EnvTxFeeBump fee_bump_transaction "bytes list"

datatype tagged_transaction = TaggedTx transaction | TaggedTxFeeBump fee_bump_transaction

record soroban_resources =
  res_read_only :: "ledger_key list"
  res_read_write :: "ledger_key list"
  res_instructions :: u32
  res_disk_read_bytes :: u32
  res_write_bytes :: u32

datatype invoke_result = InvokeSuccess hash | InvokeTrapped

datatype tx_result_result = TxSuccess "invoke_result list" | TxFailed "invoke_result list"

record tx_result =
  txr_fee_charged :: i64
  txr_result :: tx_result_result

record tx_meta_v3 =
  meta_changes_before :: "bytes list"
  meta_operations :: "bytes list"
  meta_changes_after :: "bytes list"
  meta_events :: "bytes list"
  meta_return_value :: scval
  meta_diagnostic_events :: "bytes list"

section \<open>Events and authorisations\<close>

datatype event_type = EvSystem | EvContract | EvDiagnostic

record contract_event =
  ev_contract_id :: "hash option"
  ev_type :: event_type
  ev_topics :: "scval list"
  ev_data :: scval

record diagnostic_event =
  de_success :: bool
  de_event :: contract_event

record host_event =
  he_event :: contract_event
  he_failed_call :: bool

datatype auth_function =
    AfContractFn invoke_contract_args
  | AfCreateContract bytes
  | AfCreateContractV2 bytes

datatype auth_invocation =
  AuthInvocation (ai_function: auth_function) (ai_subs: "auth_invocation list")

record auth_payload =
  ap_address :: "sc_address option"
  ap_nonce :: "i64 option"
  ap_invocation :: auth_invocation

section \<open>The host\<close>

record ledger_info =
  li_protocol_version :: u32
  li_sequence_number :: u32
  li_timestamp :: u64
  li_network_id :: hash
  li_base_reserve :: u32
  li_min_persistent_entry_ttl :: u32
  li_min_temp_entry_ttl :: u32
  li_max_entry_ttl :: u32

record ledger_entry_change =
  lc_read_only :: bool
  lc_encoded_key :: bytes
  lc_encoded_new_value :: "bytes option"
  lc_ttl_new_live_until :: "u32 option" \<comment> \<open>\<open>ttl_change.map(|t| t.new_live_until_ledger)\<close>\<close>

record recording_result =
  rr_invoke_result :: "string + scval"
  rr_auth :: "bytes list"
  rr_resources :: soroban_resources
  rr_contract_events :: "contract_event list"
  rr_ledger_changes :: "ledger_entry_change list"

record host_outcome =
  ho_result :: "string + recording_result"
  ho_diagnostic_events :: "diagnostic_event list"
  ho_mem_bytes :: "u64 option" \<comment> \<open>\<open>budget.get_mem_bytes_consumed().ok()\<close>\<close>

text \<open>
  \<open>invoke_host_function_in_recording_mode\<close> sees the fork only through
  \<open>SnapshotSource::get\<close>. A host run is a program that asks for keys, one after the other,
  each question depending on the answers so far, and then ends with its outcome. Nothing
  else is assumed of the host.
\<close>

datatype host_prog =
    HostDone host_outcome
  | HostGet ledger_key "live_entry option \<Rightarrow> host_prog"

record host_request =
  hr_function :: host_function
  hr_source :: account_id
  hr_recording_auth :: bool     \<comment> \<open>the flag of \<open>RecordingInvocationAuthMode::Recording\<close>\<close>
  hr_diagnostics :: bool
  hr_ledger_info :: ledger_info
  hr_prng_seed :: bytes

record transaction_resources =
  tr_instructions :: u32
  tr_disk_read_entries :: u32
  tr_write_entries :: u32
  tr_disk_read_bytes :: u32
  tr_write_bytes :: u32
  tr_contract_events_size_bytes :: u32
  tr_transaction_size_bytes :: u32

record fee_configuration =
  fc_fee_per_instruction_increment :: i64
  fc_fee_per_disk_read_entry :: i64
  fc_fee_per_write_entry :: i64
  fc_fee_per_disk_read_1kb :: i64
  fc_fee_per_write_1kb :: i64
  fc_fee_per_historical_1kb :: i64
  fc_fee_per_contract_event_1kb :: i64
  fc_fee_per_transaction_size_1kb :: i64

section \<open>The external library\<close>

text \<open>What an HTTP exchange with the upstream RPC came to: sending failed, or a response
  with its status, its body as text (\<open>None\<close> when unreadable) and as parsed JSON.\<close>

datatype http_outcome =
    SendFailed string
  | HttpResponse nat "string option" "string + json"

record http_request =
  hq_url :: string
  hq_body :: json

record xdr_codec =
  key_to_xdr :: "ledger_key \<Rightarrow> string + bytes"
  key_from_xdr :: "bytes \<Rightarrow> string + ledger_key"
  entry_to_xdr :: "ledger_entry \<Rightarrow> string + bytes"
  entry_from_xdr :: "bytes \<Rightarrow> string + ledger_entry"
  data_to_xdr :: "ledger_entry_data \<Rightarrow> string + bytes"
  data_from_xdr :: "bytes \<Rightarrow> string + ledger_entry_data"
  scval_to_xdr :: "scval \<Rightarrow> string + bytes"
  scval_from_xdr :: "bytes \<Rightarrow> string + scval"
  envelope_to_xdr :: "transaction_envelope \<Rightarrow> string + bytes"
  envelope_from_xdr :: "bytes \<Rightarrow> string + transaction_envelope"
  sig_payload_to_xdr :: "hash \<Rightarrow> tagged_transaction \<Rightarrow> string + bytes"
  devent_to_xdr :: "diagnostic_event \<Rightarrow> string + bytes"
  auth_to_xdr :: "bytes \<Rightarrow> string + bytes"
  txdata_to_xdr :: "soroban_resources \<Rightarrow> i64 \<Rightarrow> string + bytes"
  result_to_xdr :: "tx_result \<Rightarrow> string + bytes"
  meta_to_xdr :: "tx_meta_v3 \<Rightarrow> string + bytes"

record text_lib = xdr_codec +
  b64_encode :: "bytes \<Rightarrow> string"
  b64_decode :: "string \<Rightarrow> string + bytes"
  sha256 :: "bytes \<Rightarrow> hash"
  ed25519_public :: "bytes \<Rightarrow> bytes"
  strkey_contract :: "bytes \<Rightarrow> string"
  strkey_account :: "bytes \<Rightarrow> string"
  strkey_secret :: "bytes \<Rightarrow> string"
  parse_strkey_contract :: "string \<Rightarrow> string + bytes"
  parse_strkey_account :: "string \<Rightarrow> string + bytes"
  key_lt :: "ledger_key \<Rightarrow> ledger_key \<Rightarrow> bool" \<comment> \<open>\<open>Ord\<close> of \<open>LedgerKey\<close>\<close>
  debug_scval :: "scval \<Rightarrow> string"
  debug_address :: "sc_address \<Rightarrow> string"
  debug_data :: "ledger_entry_data \<Rightarrow> string"
  debug_op :: "operation_body \<Rightarrow> string"
  debug_setting_id :: "config_setting_id \<Rightarrow> string"
  debug_setting :: "config_setting_entry \<Rightarrow> string"
  unicode_escaped :: "string \<Rightarrow> bool" \<comment> \<open>a character past ASCII that \<open>Debug\<close> escapes, by the Unicode tables\<close>
  json_text :: "json \<Rightarrow> string"
  serde_error :: "string \<Rightarrow> json \<Rightarrow> string" \<comment> \<open>the message for a struct that does not decode\<close>

record ext_lib = text_lib +
  host_invoke :: "host_request \<Rightarrow> host_prog"
  host_fee :: "transaction_resources \<Rightarrow> fee_configuration \<Rightarrow> i64 \<times> i64"
  host_max_protocol :: u32                \<comment> \<open>\<open>meta::INTERFACE_VERSION.protocol\<close>\<close>
  http_client_build :: "string option"    \<comment> \<open>the error of \<open>ClientBuilder::build\<close>, if it has one\<close>
  http_status_text :: "nat \<Rightarrow> string"      \<comment> \<open>\<open>Display\<close> of \<open>StatusCode\<close>\<close>
  upstream :: "nat \<Rightarrow> http_request \<Rightarrow> http_outcome" \<comment> \<open>the n-th HTTP exchange\<close>
  wall_clock :: "nat \<Rightarrow> nat option"     \<comment> \<open>the n-th \<open>SystemTime::now\<close>, in nanoseconds after the epoch\<close>
  overflow_checks :: bool                 \<comment> \<open>Cargo's profile flag: overflow panics, or wraps\<close>

text \<open>
  What the code relies on of the XDR and text crates, as named hypotheses. Both are the
  crates' documented contracts: decoding an encoding gives the value back, and the
  \<open>Ord\<close> of \<open>LedgerKey\<close> is a strict total order.
\<close>

definition entry_codec_ok :: "'a xdr_codec_scheme \<Rightarrow> bool" where
  "entry_codec_ok X \<longleftrightarrow>
     (\<forall>e b. entry_to_xdr X e = Inr b \<longrightarrow> entry_from_xdr X b = Inr e)"

definition key_codec_ok :: "'a xdr_codec_scheme \<Rightarrow> bool" where
  "key_codec_ok X \<longleftrightarrow> (\<forall>k b. key_to_xdr X k = Inr b \<longrightarrow> key_from_xdr X b = Inr k)"

definition key_order_ok :: "ledger_key set \<Rightarrow> 'a text_lib_scheme \<Rightarrow> bool" where
  \<comment> \<open>on the keys in play\<close>
  "key_order_ok K X \<longleftrightarrow> strict_order_on K (key_lt X)"

end
