(* ===== verification/ForkError.thy ===== *)
theory ForkError
  imports Xdr
begin

text \<open>The crate's error type, \<open>src/error.rs\<close>, and the paths of \<open>std::path\<close> it carries.\<close>

section \<open>Paths\<close>

text \<open>
  A path is the list of its components; an absolute path starts with the component
  \<open>''/''\<close>. A component that is not valid UTF-8 is allowed, as in an \<open>OsStr\<close>.
\<close>

type_synonym path = "string list"

fun path_join :: "path \<Rightarrow> path \<Rightarrow> path" where
  "path_join p q = (case q of c # _ \<Rightarrow> (if c = ''/'' then q else p @ q) | [] \<Rightarrow> p)"

fun components_display :: "string list \<Rightarrow> string" where
  "components_display [] = ''''"
| "components_display [c] = c"
| "components_display (c # d # cs) = c @ ''/'' @ components_display (d # cs)"

fun path_display :: "path \<Rightarrow> string" where
  "path_display [] = ''''"
| "path_display (c # cs) =
     (if c = ''/'' then ''/'' @ components_display cs else components_display (c # cs))"

definition path_file_name :: "path \<Rightarrow> string option" where
  "path_file_name p =
     (if p = [] \<or> last p = ''/'' \<or> last p = ''..'' then None else Some (last p))"

definition path_parent :: "path \<Rightarrow> path option" where
  "path_parent p = (if p = [] \<or> p = [''/''] then None else Some (butlast p))"

section \<open>ForkError\<close>

datatype fork_error =
    Transport string
  | RpcError string
  | RpcNoResult
  | XdrError string
  | Base64Error string
  | JsonError string
  | CacheError path string
  | HostError string
  | WorkspaceError string

fun show_fork_error :: "fork_error \<Rightarrow> string" where
  "show_fork_error (Transport m) = ''RPC transport error: '' @ m"
| "show_fork_error (RpcError m) = ''RPC returned error: '' @ m"
| "show_fork_error RpcNoResult = ''RPC response had no result field''"
| "show_fork_error (XdrError m) = ''XDR codec error: '' @ m"
| "show_fork_error (Base64Error m) = ''base64 decode error: '' @ m"
| "show_fork_error (JsonError m) = ''JSON codec error: '' @ m"
| "show_fork_error (CacheError p m) = ''cache I/O error at '' @ path_display p @ '': '' @ m"
| "show_fork_error (HostError m) = ''host operation failed: '' @ m"
| "show_fork_error (WorkspaceError m) = ''workspace contract build error: '' @ m"

definition from_reqwest_error :: "string \<Rightarrow> fork_error" where
  "from_reqwest_error text = Transport text"

end
