(* ===== verification/Sample.thy ===== *)
theory Sample
  imports Xdr
begin

text \<open>
  A concrete \<open>ext_lib\<close>, on which the hypotheses about the crates hold, for the theorems that
  apply a property at a concrete input. Its XDR covers a few keys and entries and rejects the
  rest; its upstream answers nothing. A theorem that needs more updates the field it needs.
\<close>

fun sample_key_to_xdr :: "ledger_key \<Rightarrow> string + bytes" where
  "sample_key_to_xdr (KeyAccount a) = Inr (0 # a)"
| "sample_key_to_xdr (KeyContractCode h) = Inr (1 # h)"
| "sample_key_to_xdr (KeyTtl b) = Inr (2 # b)"
| "sample_key_to_xdr _ = Inl ''unsupported''"

fun sample_key_from_xdr :: "bytes \<Rightarrow> string + ledger_key" where
  "sample_key_from_xdr (t # b) =
     (if t = 0 then Inr (KeyAccount b) else if t = 1 then Inr (KeyContractCode b)
      else if t = 2 then Inr (KeyTtl b) else Inl ''unsupported'')"
| "sample_key_from_xdr [] = Inl ''eof''"

definition sample_account :: "account_id \<Rightarrow> i64 \<Rightarrow> account_entry" where
  "sample_account a seq_num =
     \<lparr> ae_account_id = a, ae_balance = 0, ae_seq_num = seq_num, ae_num_sub_entries = 0,
       ae_inflation_dest = None, ae_flags = 0, ae_home_domain = [], ae_thresholds = [1, 0, 0, 0],
       ae_signers = [], ae_ext = ExtV0 \<rparr>"

definition sample_entry :: "ledger_entry_data \<Rightarrow> ledger_entry" where
  "sample_entry d = \<lparr> le_last_modified = 0, le_data = d, le_ext = ExtV0 \<rparr>"

definition sample_entry_to_xdr :: "ledger_entry \<Rightarrow> string + bytes" where
  "sample_entry_to_xdr e =
     (case le_data e of
        DataOther b \<Rightarrow>
          if e = sample_entry (DataOther b) then Inr (0 # b) else Inl ''unsupported''
      | DataAccount a \<Rightarrow>
          if ae_seq_num a = ucast (ucast (ae_seq_num a) :: u8)
             \<and> e = sample_entry (DataAccount (sample_account (ae_account_id a) (ae_seq_num a)))
          then Inr (1 # ucast (ae_seq_num a) # ae_account_id a) else Inl ''unsupported''
      | _ \<Rightarrow> Inl ''unsupported'')"

fun sample_entry_from_xdr :: "bytes \<Rightarrow> string + ledger_entry" where
  "sample_entry_from_xdr (t # b) =
     (if t = 0 then Inr (sample_entry (DataOther b))
      else if t = 1 then
        (case b of [] \<Rightarrow> Inl ''eof''
         | s # a \<Rightarrow> Inr (sample_entry (DataAccount (sample_account a (ucast s)))))
      else Inl ''unsupported'')"
| "sample_entry_from_xdr [] = Inl ''eof''"

definition sample_lib :: ext_lib where
  "sample_lib =
     \<lparr> key_to_xdr = sample_key_to_xdr,
       key_from_xdr = sample_key_from_xdr,
       entry_to_xdr = sample_entry_to_xdr,
       entry_from_xdr = sample_entry_from_xdr,
       data_to_xdr = (\<lambda>d. map_err id (sample_entry_to_xdr (sample_entry d))),
       data_from_xdr = (\<lambda>b. res_bind (sample_entry_from_xdr b) (\<lambda>e. Inr (le_data e))),
       scval_to_xdr = (\<lambda>v. case v of ScOther b \<Rightarrow> Inr (0 # b) | ScVoid \<Rightarrow> Inr [1] | _ \<Rightarrow> Inl ''unsupported''),
       scval_from_xdr = (\<lambda>b. case b of [] \<Rightarrow> Inl ''eof'' | t # r \<Rightarrow> if t = 0 then Inr (ScOther r)
                              else if b = [1] then Inr ScVoid else Inl ''unsupported''),
       envelope_to_xdr = (\<lambda>e. case e of EnvTxV0 b \<Rightarrow> Inr b | _ \<Rightarrow> Inl ''unsupported''),
       envelope_from_xdr = (\<lambda>b. Inr (EnvTxV0 b)),
       sig_payload_to_xdr = (\<lambda>h t. Inr h),
       devent_to_xdr = (\<lambda>e. Inr [if de_success e then 1 else 0]),
       auth_to_xdr = Inr,
       txdata_to_xdr = (\<lambda>r f. Inr [ucast f]),
       result_to_xdr = (\<lambda>r. Inr [ucast (txr_fee_charged r)]),
       meta_to_xdr = (\<lambda>m. Inr (concat (meta_events m))),
       b64_encode = str_of_bytes,
       b64_decode = (\<lambda>s. Inr (bytes_of_str s)),
       sha256 = (\<lambda>b. take 32 (b @ replicate 32 0)),
       ed25519_public = rev,
       strkey_contract = (\<lambda>b. CHR ''C'' # map (\<lambda>x. char_of (65 + unat x mod 26)) b),
       strkey_account = (\<lambda>b. CHR ''G'' # map (\<lambda>x. char_of (65 + unat x mod 26)) b),
       strkey_secret = (\<lambda>b. CHR ''S'' # map (\<lambda>x. char_of (65 + unat x mod 26)) b),
       parse_strkey_contract = (\<lambda>s. Inl ''invalid''),
       parse_strkey_account = (\<lambda>s. Inl ''invalid''),
       key_lt = (\<lambda>a b. case (sample_key_to_xdr a, sample_key_to_xdr b) of
                   (Inr x, Inr y) \<Rightarrow> foldl (\<lambda>n b. n * 256 + unat b) 1 x < foldl (\<lambda>n b. n * 256 + unat b) 1 y
                 | _ \<Rightarrow> False),
       debug_scval = (\<lambda>_. ''ScVal''),
       debug_address = (\<lambda>_. ''ScAddress''),
       debug_data = (\<lambda>_. ''LedgerEntryData''),
       debug_op = (\<lambda>_. ''OperationBody''),
       debug_setting_id = (\<lambda>_. ''ConfigSettingId''),
       debug_setting = (\<lambda>_. ''ConfigSettingEntry''),
       unicode_escaped = (\<lambda>_. False),
       json_text = (\<lambda>_. ''json''),
       serde_error = (\<lambda>ty _. ''invalid '' @ ty),
       host_invoke = (\<lambda>_. HostDone \<lparr> ho_result = Inl ''unsupported'', ho_diagnostic_events = [],
                                    ho_mem_bytes = None \<rparr>),
       host_fee = (\<lambda>r c. (0, 0)),
       host_max_protocol = 23,
       http_client_build = None,
       http_status_text = show_nat,
       upstream = (\<lambda>_ _. SendFailed ''refused''),
       wall_clock = (\<lambda>n. Some n),
       overflow_checks = True \<rparr>"

lemma sample_entry_codec:
  "entry_to_xdr X = sample_entry_to_xdr \<Longrightarrow> entry_from_xdr X = sample_entry_from_xdr \<Longrightarrow> entry_codec_ok X"
  by (auto simp: entry_codec_ok_def sample_entry_to_xdr_def split: ledger_entry_data.splits if_splits)

lemma sample_key_codec:
  "key_to_xdr X = sample_key_to_xdr \<Longrightarrow> key_from_xdr X = sample_key_from_xdr \<Longrightarrow> key_codec_ok X"
  by (auto simp: key_codec_ok_def elim!: sample_key_to_xdr.elims)

lemma sample_lib_simps:
  "key_to_xdr sample_lib = sample_key_to_xdr" "key_from_xdr sample_lib = sample_key_from_xdr"
  "entry_to_xdr sample_lib = sample_entry_to_xdr" "entry_from_xdr sample_lib = sample_entry_from_xdr"
  "b64_encode sample_lib = str_of_bytes" "b64_decode sample_lib s = Inr (bytes_of_str s)"
  "sha256 sample_lib b = take 32 (b @ replicate 32 0)" "overflow_checks sample_lib"
  "sig_payload_to_xdr sample_lib h tg = Inr h" "auth_to_xdr sample_lib = Inr"
  "devent_to_xdr sample_lib e = Inr [if de_success e then 1 else 0]"
  "txdata_to_xdr sample_lib rs fee = Inr [ucast fee]"
  "host_fee sample_lib tr fc = (0, 0)" "host_max_protocol sample_lib = 23"
  "http_client_build sample_lib = None" "wall_clock sample_lib n = Some n"
  "ed25519_public sample_lib = rev"
  by (simp_all add: sample_lib_def)

lemma sample_strkeys:
  "strkey_contract sample_lib b = CHR ''C'' # map (\<lambda>x. char_of (65 + unat x mod 26)) b"
  "strkey_account sample_lib b = CHR ''G'' # map (\<lambda>x. char_of (65 + unat x mod 26)) b"
  by (simp_all add: sample_lib_def)

end
