(* ===== verification/Rpc.thy ===== *)
theory Rpc
  imports ForkError Sample
begin

text \<open>
  The upstream JSON-RPC client, \<open>src/rpc.rs\<close>: one HTTP exchange (\<open>try_once\<close>), the retry
  loop with exponential backoff and jitter (\<open>rpc_post\<close>, \<open>backoff_delay\<close>), and the typed
  methods on top (\<open>get_latest_ledger\<close>, \<open>get_ledger_close_time\<close>, \<open>get_network\<close>,
  \<open>fetch_entries\<close>, \<open>fetch_entry\<close>). The network is \<open>upstream\<close> of \<open>ext_lib\<close>; what the
  client changes in the world (exchanges made, the thread's generator, time slept) is the
  record \<open>rpc_world\<close>, passed through.
\<close>

section \<open>Durations\<close>

text \<open>\<open>std::time::Duration\<close> in nanoseconds.\<close>

datatype duration = Duration (as_nanos: nat)

instantiation duration :: linorder
begin
definition less_eq_duration :: "duration \<Rightarrow> duration \<Rightarrow> bool" where
  "less_eq_duration a b \<longleftrightarrow> as_nanos a \<le> as_nanos b"
definition less_duration :: "duration \<Rightarrow> duration \<Rightarrow> bool" where
  "less_duration a b \<longleftrightarrow> as_nanos a < as_nanos b"
instance
  by standard (auto simp: less_eq_duration_def less_duration_def intro: duration.expand)
end

lemmas duration_ord = less_eq_duration_def less_duration_def

definition duration_max :: nat where
  "duration_max = (2 ^ 64 - 1) * 1000000000 + 999999999"

definition dur_saturating_mul :: "duration \<Rightarrow> u32 \<Rightarrow> duration" where
  "dur_saturating_mul d k = Duration (min (as_nanos d * unat k) duration_max)"

definition dur_saturating_add :: "duration \<Rightarrow> duration \<Rightarrow> duration" where
  "dur_saturating_add a b = Duration (min (as_nanos a + as_nanos b) duration_max)"

definition dur_zero :: duration where "dur_zero = Duration 0"

definition dur_from_millis :: "nat \<Rightarrow> duration" where
  "dur_from_millis n = Duration (n * 1000000)"

definition dur_from_secs :: "nat \<Rightarrow> duration" where
  "dur_from_secs n = Duration (n * 1000000000)"

definition dur_from_nanos :: "u64 \<Rightarrow> duration" where
  "dur_from_nanos n = Duration (unat n)"

lemmas dur_defs = dur_saturating_mul_def dur_saturating_add_def dur_zero_def
  dur_from_millis_def dur_from_secs_def dur_from_nanos_def

section \<open>Configuration\<close>

record rpc_config =
  rpc_retries :: u32
  rpc_base_retry_delay :: duration
  rpc_request_timeout :: "duration option"
  rpc_max_keys_per_request :: nat

definition rpc_config_default :: rpc_config where
  "rpc_config_default =
     \<lparr> rpc_retries = 3,
       rpc_base_retry_delay = dur_from_millis 300,
       rpc_request_timeout = Some (dur_from_secs 30),
       rpc_max_keys_per_request = 200 \<rparr>"

record rpc_client =
  rc_url :: string
  rc_config :: rpc_config

record rpc_world =
  w_sent :: nat                \<comment> \<open>HTTP exchanges made\<close>
  w_rng :: u64                 \<comment> \<open>the thread-local generator\<close>
  w_slept :: "duration list"   \<comment> \<open>the sleeps, in order\<close>

definition rpc_client_new :: "ext_lib \<Rightarrow> string \<Rightarrow> rpc_config \<Rightarrow> fork_error + rpc_client" where
  "rpc_client_new X url config =
     (case http_client_build X of
        Some e \<Rightarrow> Inl (from_reqwest_error e)
      | None \<Rightarrow> Inr \<lparr> rc_url = url, rc_config = config \<rparr>)"

section \<open>Backoff\<close>

text \<open>The generator: three shift-and-xor steps on 64 bits.\<close>

definition next_rng_u64 :: "u64 \<Rightarrow> u64" where
  "next_rng_u64 x0 =
     (let x1 = x0 XOR push_bit 13 x0;
          x2 = x1 XOR drop_bit 7 x1;
          x3 = x2 XOR push_bit 17 x2
      in x3)"

definition seed_rng :: "nat option \<Rightarrow> u64" where
  "seed_rng now =
     (case now of Some nanos \<Rightarrow> word_of_nat nanos * 0x9E3779B97F4A7C15
      | None \<Rightarrow> 0xDEADBEEFCAFEBABE) OR 1"

definition jitter_under :: "duration \<Rightarrow> u64 \<Rightarrow> duration \<times> u64" where
  "jitter_under mx rng =
     (let max_nanos = (word_of_nat (as_nanos mx) :: u64)
      in if max_nanos = 0 then (dur_zero, rng)
         else let x = next_rng_u64 rng in (dur_from_nanos (x mod max_nanos), x))"

definition saturating_pow2 :: "u32 \<Rightarrow> u32" where
  \<comment> \<open>\<open>2u32.saturating_pow(attempt)\<close>\<close>
  "saturating_pow2 attempt = (if unat attempt < 32 then 2 ^ unat attempt else - 1)"

definition backoff_delay :: "duration \<Rightarrow> u32 \<Rightarrow> u64 \<Rightarrow> duration \<times> u64" where
  "backoff_delay base attempt rng =
     (let factor = saturating_pow2 attempt;
          exponential = dur_saturating_mul base factor;
          (jitter, rng') = jitter_under base rng
      in (dur_saturating_add exponential jitter, rng'))"

section \<open>One exchange\<close>

definition error_body_truncate_bytes :: nat where
  "error_body_truncate_bytes = 256"

definition ellipsis :: string where
  "ellipsis = map char_of [226, 128, 166 :: nat]"

definition truncate_chars :: "string \<Rightarrow> nat \<Rightarrow> string" where
  "truncate_chars s max_chars =
     (if length (chars_of s) \<le> max_chars then s
      else concat (take max_chars (chars_of s)) @ ellipsis)"

definition response_body_snippet :: "string option \<Rightarrow> string" where
  "response_body_snippet text =
     (case text of
        Some body \<Rightarrow>
          (let trimmed = trim body
           in if trimmed = [] then ''<empty body>''
              else truncate_chars trimmed error_body_truncate_bytes)
      | None \<Rightarrow> ''<no body>'')"

datatype retry_decision = Retry fork_error | Fatal fork_error

definition rpc_request_json :: "string \<Rightarrow> json \<Rightarrow> json" where
  "rpc_request_json method params =
     JObject [(''jsonrpc'', JString ''2.0''), (''id'', JNumber (PosInt 1)),
              (''method'', JString method), (''params'', params)]"

definition status_retryable :: "nat \<Rightarrow> bool" where
  "status_retryable code \<longleftrightarrow> code \<in> {408, 425, 429} \<or> (500 \<le> code \<and> code < 600)"

definition status_success :: "nat \<Rightarrow> bool" where
  "status_success code \<longleftrightarrow> 200 \<le> code \<and> code < 300"

definition classify_response ::
  "ext_lib \<Rightarrow> (json \<Rightarrow> 'a option) \<Rightarrow> http_outcome \<Rightarrow> retry_decision + 'a" where
  "classify_response X dec outcome =
     (case outcome of
        SendFailed e \<Rightarrow> Inl (Retry (from_reqwest_error e))
      | HttpResponse code text parsed \<Rightarrow>
          if status_retryable code then
            Inl (Retry (Transport (''HTTP '' @ http_status_text X code @ '': ''
                                   @ response_body_snippet text)))
          else if \<not> status_success code then
            Inl (Fatal (Transport (''HTTP '' @ http_status_text X code @ '': ''
                                   @ response_body_snippet text)))
          else (case parsed of
                  Inl e \<Rightarrow> Inl (Retry (from_reqwest_error e))
                | Inr j \<Rightarrow>
                    (case dec j of
                       None \<Rightarrow> Inl (Retry (from_reqwest_error (serde_error X ''JsonRpcResponse'' j)))
                     | Some a \<Rightarrow> Inr a)))"

definition try_once ::
  "ext_lib \<Rightarrow> rpc_client \<Rightarrow> (json \<Rightarrow> 'a option) \<Rightarrow> json \<Rightarrow> rpc_world
    \<Rightarrow> (retry_decision + 'a) \<times> rpc_world" where
  "try_once X client dec request w =
     (classify_response X dec (upstream X (w_sent w) \<lparr> hq_url = rc_url client, hq_body = request \<rparr>),
      w\<lparr>w_sent := Suc (w_sent w)\<rparr>)"

section \<open>The retry loop\<close>

text \<open>\<open>for attempt in 0..total_attempts\<close>, over the list of the attempts still to make.\<close>

fun rpc_loop ::
  "ext_lib \<Rightarrow> rpc_client \<Rightarrow> (json \<Rightarrow> 'a option) \<Rightarrow> json \<Rightarrow> nat \<Rightarrow> fork_error option \<Rightarrow> nat list
    \<Rightarrow> rpc_world \<Rightarrow> (fork_error + 'a) \<times> rpc_world" where
  "rpc_loop X client dec request attempts last_error [] w =
     (Inl (unwrap_or (Transport ''retry loop exhausted with no recorded error'') last_error), w)"
| "rpc_loop X client dec request attempts last_error (attempt # rest) w =
     (case try_once X client dec request w of
        (Inr parsed, w') \<Rightarrow> (Inr parsed, w')
      | (Inl (Retry err), w') \<Rightarrow>
          if attempt + 1 < attempts then
            (let (delay, rng) =
                   backoff_delay (rpc_base_retry_delay (rc_config client)) (word_of_nat attempt) (w_rng w')
             in rpc_loop X client dec request attempts (Some err) rest
                  (w'\<lparr>w_rng := rng, w_slept := w_slept w' @ [delay]\<rparr>))
          else (Inl err, w')
      | (Inl (Fatal err), w') \<Rightarrow> (Inl err, w'))"

text \<open>\<open>self.config.retries + 1\<close> on \<open>u32\<close>: past the maximum it panics, or wraps to 0.\<close>

definition total_attempts :: "ext_lib \<Rightarrow> rpc_config \<Rightarrow> nat option" where
  "total_attempts X cfg =
     (if rpc_retries cfg = - 1 \<and> overflow_checks X then None
      else Some (unat (rpc_retries cfg + 1)))"

text \<open>\<open>JsonRpcResponse<T>\<close> and \<open>into_result\<close>.\<close>

record 'a rpc_response =
  resp_result :: "'a option"
  resp_error :: "json option"

definition dec_rpc_response :: "(json \<Rightarrow> 'a option) \<Rightarrow> json \<Rightarrow> 'a rpc_response option" where
  "dec_rpc_response d j =
     (case struct_members [''result'', ''error''] j of
        Some (obj, [r, e]) \<Rightarrow>
          (case (fld_opt obj d r, fld_opt obj dec_value e) of
             (Some res, Some err) \<Rightarrow> Some \<lparr> resp_result = res, resp_error = err \<rparr>
           | _ \<Rightarrow> None)
      | _ \<Rightarrow> None)"

definition into_result :: "ext_lib \<Rightarrow> 'a rpc_response \<Rightarrow> fork_error + 'a" where
  "into_result X r =
     (case resp_error r of
        Some err \<Rightarrow> Inl (RpcError (json_text X err))
      | None \<Rightarrow> ok_or RpcNoResult (resp_result r))"

definition rpc_post ::
  "ext_lib \<Rightarrow> rpc_client \<Rightarrow> (json \<Rightarrow> 'a option) \<Rightarrow> string \<Rightarrow> json \<Rightarrow> rpc_world
    \<Rightarrow> ((fork_error + 'a rpc_response) \<times> rpc_world) option" where
  "rpc_post X client d method params w =
     (case total_attempts X (rc_config client) of
        None \<Rightarrow> None
      | Some attempts \<Rightarrow>
          Some (rpc_loop X client (dec_rpc_response d) (rpc_request_json method params)
                  attempts None [0..<attempts] w))"

text \<open>\<open>self.rpc_post(..)?.into_result()?\<close>, the pattern of every typed method.\<close>

definition rpc_call ::
  "ext_lib \<Rightarrow> rpc_client \<Rightarrow> (json \<Rightarrow> 'a option) \<Rightarrow> string \<Rightarrow> json \<Rightarrow> rpc_world
    \<Rightarrow> ((fork_error + 'a) \<times> rpc_world) option" where
  "rpc_call X client d method params w =
     (case rpc_post X client d method params w of
        None \<Rightarrow> None
      | Some (r, w') \<Rightarrow> Some (res_bind r (into_result X), w'))"

section \<open>Wire types\<close>

record entry_result =
  er_key :: string
  er_xdr :: string
  er_last_modified :: u32
  er_live_until :: "u32 option"

definition dec_entry_result :: "json \<Rightarrow> entry_result option" where
  "dec_entry_result j =
     (case struct_members [''key'', ''xdr'', ''lastModifiedLedgerSeq'', ''liveUntilLedgerSeq''] j of
        Some (obj, [k, x, m, l]) \<Rightarrow>
          (case (fld_req dec_string k, fld_req dec_string x, fld_req dec_u32 m, fld_opt obj dec_u32 l) of
             (Some key, Some xdr, Some lm, Some lu) \<Rightarrow>
               Some \<lparr> er_key = key, er_xdr = xdr, er_last_modified = lm, er_live_until = lu \<rparr>
           | _ \<Rightarrow> None)
      | _ \<Rightarrow> None)"

definition dec_get_ledger_entries_result :: "json \<Rightarrow> entry_result list option option" where
  \<comment> \<open>the field \<open>entries\<close>; \<open>latest_ledger\<close> must be there and is not used\<close>
  "dec_get_ledger_entries_result j =
     (case struct_members [''entries'', ''latestLedger''] j of
        Some (obj, [e, l]) \<Rightarrow>
          (case (fld_opt obj (dec_list dec_entry_result) e, fld_req dec_u32 l) of
             (Some entries, Some _) \<Rightarrow> Some entries
           | _ \<Rightarrow> None)
      | _ \<Rightarrow> None)"

record latest_ledger_result =
  llr_protocol_version :: u32
  llr_sequence :: u32

definition dec_get_latest_ledger_result :: "json \<Rightarrow> latest_ledger_result option" where
  "dec_get_latest_ledger_result j =
     (case struct_members [''id'', ''protocolVersion'', ''sequence''] j of
        Some (obj, [i, p, s]) \<Rightarrow>
          (case (fld_req dec_string i, fld_req dec_u32 p, fld_req dec_u32 s) of
             (Some _, Some pv, Some sq) \<Rightarrow>
               Some \<lparr> llr_protocol_version = pv, llr_sequence = sq \<rparr>
           | _ \<Rightarrow> None)
      | _ \<Rightarrow> None)"

definition dec_get_network_result :: "json \<Rightarrow> string option" where
  \<comment> \<open>the passphrase\<close>
  "dec_get_network_result j =
     (case struct_members [''passphrase'', ''friendbotUrl'', ''protocolVersion''] j of
        Some (obj, [p, f, v]) \<Rightarrow>
          (case (fld_req dec_string p, fld_default None (dec_opt dec_string) f,
                 fld_default None (dec_opt dec_u32) v) of
             (Some passphrase, Some _, Some _) \<Rightarrow> Some passphrase
           | _ \<Rightarrow> None)
      | _ \<Rightarrow> None)"

definition dec_ledger_info_wire :: "json \<Rightarrow> string option" where
  \<comment> \<open>the close time\<close>
  "dec_ledger_info_wire j =
     (case struct_members [''sequence'', ''ledgerCloseTime''] j of
        Some (obj, [s, t]) \<Rightarrow>
          (case (fld_req dec_u32 s, fld_req dec_string t) of
             (Some _, Some close_time) \<Rightarrow> Some close_time
           | _ \<Rightarrow> None)
      | _ \<Rightarrow> None)"

definition dec_get_ledgers_result :: "json \<Rightarrow> string list option" where
  "dec_get_ledgers_result j =
     (case struct_members [''ledgers''] j of
        Some (obj, [l]) \<Rightarrow> fld_req (dec_list dec_ledger_info_wire) l
      | _ \<Rightarrow> None)"

section \<open>Typed methods\<close>

record latest_ledger =
  ll_sequence :: u32
  ll_protocol_version :: u32
  ll_close_time :: u64

record network_metadata =
  nm_passphrase :: string
  nm_network_id :: hash

record fetched_entry =
  fe_entry :: ledger_entry
  fe_live_until :: "u32 option"

definition get_ledger_close_time ::
  "ext_lib \<Rightarrow> rpc_client \<Rightarrow> u32 \<Rightarrow> rpc_world \<Rightarrow> ((fork_error + u64) \<times> rpc_world) option" where
  "get_ledger_close_time X client seq w =
     (case rpc_call X client dec_get_ledgers_result ''getLedgers''
             (JObject [(''startLedger'', j_u32 seq),
                       (''pagination'', JObject [(''limit'', JNumber (PosInt 1))])]) w of
        None \<Rightarrow> None
      | Some (Inl e, w') \<Rightarrow> Some (Inl e, w')
      | Some (Inr [], w') \<Rightarrow>
          Some (Inl (RpcError (''getLedgers returned no entry for '' @ show_u seq)), w')
      | Some (Inr (t # _), w') \<Rightarrow>
          Some (case parse_unsigned 64 t of
                  Inl e \<Rightarrow> Inl (RpcError (''getLedgers returned non-numeric ledgerCloseTime ''
                                          @ [CHR 0x27] @ t @ [CHR 0x27] @ '': ''
                                          @ show_parse_int_error e))
                | Inr n \<Rightarrow> Inr (word_of_nat n), w'))"

definition get_latest_ledger ::
  "ext_lib \<Rightarrow> rpc_client \<Rightarrow> rpc_world \<Rightarrow> ((fork_error + latest_ledger) \<times> rpc_world) option" where
  "get_latest_ledger X client w =
     (case rpc_call X client dec_get_latest_ledger_result ''getLatestLedger'' (JObject []) w of
        None \<Rightarrow> None
      | Some (Inl e, w1) \<Rightarrow> Some (Inl e, w1)
      | Some (Inr res, w1) \<Rightarrow>
          (case get_ledger_close_time X client (llr_sequence res) w1 of
             None \<Rightarrow> None
           | Some (Inl e, w2) \<Rightarrow> Some (Inl e, w2)
           | Some (Inr t, w2) \<Rightarrow>
               Some (Inr \<lparr> ll_sequence = llr_sequence res,
                           ll_protocol_version = llr_protocol_version res,
                           ll_close_time = t \<rparr>, w2)))"

definition get_network ::
  "ext_lib \<Rightarrow> rpc_client \<Rightarrow> rpc_world \<Rightarrow> ((fork_error + network_metadata) \<times> rpc_world) option" where
  "get_network X client w =
     (case rpc_call X client dec_get_network_result ''getNetwork'' (JObject []) w of
        None \<Rightarrow> None
      | Some (Inl e, w') \<Rightarrow> Some (Inl e, w')
      | Some (Inr passphrase, w') \<Rightarrow>
          Some (Inr \<lparr> nm_passphrase = passphrase,
                      nm_network_id = sha256 X (bytes_of_str passphrase) \<rparr>, w'))"

definition encode_key :: "ext_lib \<Rightarrow> ledger_key \<Rightarrow> fork_error + string" where
  "encode_key X key =
     (case key_to_xdr X key of
        Inl e \<Rightarrow> Inl (XdrError (''encode LedgerKey: '' @ e))
      | Inr bs \<Rightarrow> Inr (b64_encode X bs))"

definition rpc_decode_entry :: "ext_lib \<Rightarrow> entry_result \<Rightarrow> fork_error + fetched_entry" where
  "rpc_decode_entry X wire =
     (case b64_decode X (er_xdr wire) of
        Inl e \<Rightarrow> Inl (Base64Error e)
      | Inr entry_bytes \<Rightarrow>
          (case data_from_xdr X entry_bytes of
             Inl e \<Rightarrow> Inl (XdrError (''decode LedgerEntryData: '' @ e))
           | Inr entry_data \<Rightarrow>
               Inr \<lparr> fe_entry = \<lparr> le_last_modified = er_last_modified wire,
                                 le_data = entry_data, le_ext = ExtV0 \<rparr>,
                     fe_live_until = er_live_until wire \<rparr>))"

text \<open>\<open>slice::chunks\<close>; \<open>chunks(0)\<close> panics, which \<open>fetch_entries\<close> checks.\<close>

function chunks :: "nat \<Rightarrow> 'a list \<Rightarrow> 'a list list" where
  "chunks n xs = (if xs = [] \<or> n = 0 then [] else take n xs # chunks n (drop n xs))"
  by pat_completeness auto
termination
  by (relation "measure (\<lambda>(n, xs). length xs)") auto

declare chunks.simps [simp del]

fun fetch_chunks ::
  "ext_lib \<Rightarrow> rpc_client \<Rightarrow> ledger_key list list \<Rightarrow> fetched_entry list \<Rightarrow> rpc_world
    \<Rightarrow> ((fork_error + fetched_entry list) \<times> rpc_world) option" where
  "fetch_chunks X client [] results w = Some (Inr results, w)"
| "fetch_chunks X client (chunk # rest) results w =
     (case collect_res (encode_key X) chunk of
        Inl e \<Rightarrow> Some (Inl e, w)
      | Inr encoded_keys \<Rightarrow>
          (case rpc_call X client dec_get_ledger_entries_result ''getLedgerEntries''
                  (JObject [(''keys'', JArray (map JString encoded_keys))]) w of
             None \<Rightarrow> None
           | Some (Inl e, w') \<Rightarrow> Some (Inl e, w')
           | Some (Inr entries, w') \<Rightarrow>
               (case entries of
                  None \<Rightarrow> fetch_chunks X client rest results w'
                | Some wires \<Rightarrow>
                    (case collect_res (rpc_decode_entry X) wires of
                       Inl e \<Rightarrow> Some (Inl e, w')
                     | Inr es \<Rightarrow> fetch_chunks X client rest (results @ es) w'))))"

definition fetch_entries ::
  "ext_lib \<Rightarrow> rpc_client \<Rightarrow> ledger_key list \<Rightarrow> rpc_world
    \<Rightarrow> ((fork_error + fetched_entry list) \<times> rpc_world) option" where
  "fetch_entries X client keys w =
     (if rpc_max_keys_per_request (rc_config client) = 0 then None
      else fetch_chunks X client (chunks (rpc_max_keys_per_request (rc_config client)) keys) [] w)"

text \<open>\<open>fetch_entry\<close> takes the last entry of the reply (\<open>Vec::pop\<close>).\<close>

definition fetch_entry ::
  "ext_lib \<Rightarrow> rpc_client \<Rightarrow> ledger_key \<Rightarrow> rpc_world
    \<Rightarrow> ((fork_error + fetched_entry option) \<times> rpc_world) option" where
  "fetch_entry X client key w =
     (case fetch_entries X client [key] w of
        None \<Rightarrow> None
      | Some (Inl e, w') \<Rightarrow> Some (Inl e, w')
      | Some (Inr es, w') \<Rightarrow> Some (Inr (if es = [] then None else Some (last es)), w'))"

section \<open>Chunks\<close>

lemma concat_chunks: "0 < n \<Longrightarrow> concat (chunks n xs) = xs"
proof (induction n xs rule: chunks.induct)
  case (1 n xs)
  then show ?case by (cases "xs = []") (simp_all add: chunks.simps [of n xs] chunks.simps [of n "[]"])
qed

lemma chunks_sizes: "c \<in> set (chunks n xs) \<Longrightarrow> c \<noteq> [] \<and> length c \<le> n"
proof (induction n xs rule: chunks.induct)
  case (1 n xs)
  show ?case
  proof (cases "xs = [] \<or> n = 0")
    case True
    with "1.prems" show ?thesis by (simp add: chunks.simps [of n xs])
  next
    case False
    with "1.prems" have "c = take n xs \<or> c \<in> set (chunks n (drop n xs))"
      by (auto simp: chunks.simps [of n xs])
    with False "1.IH" show ?thesis by auto
  qed
qed

lemma chunks_singleton: "0 < n \<Longrightarrow> chunks n [x] = [[x]]"
  by (simp add: chunks.simps [of n "[x]"] chunks.simps [of n "[]"])

section \<open>The generator never reaches 0\<close>

lemma xor_self_eq: "(x :: 'a::len word) XOR y = 0 \<longleftrightarrow> x = y"
  by (metis xor.left_neutral xor.assoc bit.xor_self)

lemma push_bit_fixpoint:
  fixes x :: "'a::len word"
  assumes "x = push_bit k x" "0 < k"
  shows "x = 0"
proof -
  have iter: "x = push_bit (k * n) x" for n
  proof (induction n)
    case 0
    show ?case by simp
  next
    case (Suc n)
    have "x = push_bit k (push_bit (k * n) x)"
      using assms(1) Suc by metis
    then show ?case by (simp add: push_bit_push_bit)
  qed
  have "LENGTH('a) \<le> k * LENGTH('a)" using assms(2) by simp
  then have "push_bit (k * LENGTH('a)) x = 0"
    by (intro bit_word_eqI) (simp add: bit_push_bit_iff)
  with iter [of "LENGTH('a)"] show ?thesis by simp
qed

lemma drop_bit_fixpoint:
  fixes x :: "'a::len word"
  assumes "x = drop_bit k x" "0 < k"
  shows "x = 0"
proof -
  have iter: "x = drop_bit (k * n) x" for n
  proof (induction n)
    case 0
    show ?case by simp
  next
    case (Suc n)
    have "x = drop_bit k (drop_bit (k * n) x)"
      using assms(1) Suc by metis
    then show ?case by (simp add: drop_bit_drop_bit)
  qed
  have "LENGTH('a) \<le> k * LENGTH('a)" using assms(2) by simp
  then have "drop_bit (k * LENGTH('a)) x = 0"
    by (intro bit_word_eqI) (auto simp: bit_drop_bit_eq dest: bit_imp_le_length)
  with iter [of "LENGTH('a)"] show ?thesis by simp
qed

lemma next_rng_u64_eq_0: "next_rng_u64 x = 0 \<longleftrightarrow> x = 0"
proof
  define a where "a = x XOR push_bit 13 x"
  define b where "b = a XOR drop_bit 7 a"
  assume "next_rng_u64 x = 0"
  then have "b XOR push_bit 17 b = 0"
    by (simp only: next_rng_u64_def Let_def a_def b_def)
  then have "b = 0"
    by (simp only: xor_self_eq) (erule push_bit_fixpoint, simp)
  then have "a = 0"
    by (simp only: b_def xor_self_eq) (erule drop_bit_fixpoint, simp)
  then show "x = 0"
    by (simp only: a_def xor_self_eq) (erule push_bit_fixpoint, simp)
qed (simp add: next_rng_u64_def)

lemma seed_rng_nonzero: "seed_rng now \<noteq> 0"
proof -
  have "bit (seed_rng now) 0"
    by (simp add: seed_rng_def bit_or_iff)
  then show ?thesis by auto
qed

section \<open>Backoff\<close>

lemma jitter_under_less:
  assumes "0 < as_nanos mx" "as_nanos mx < 2 ^ 64"
  shows "as_nanos (fst (jitter_under mx rng)) < as_nanos mx"
proof -
  have u: "unat (word_of_nat (as_nanos mx) :: u64) = as_nanos mx"
    using assms(2) by (simp add: unat_of_nat)
  then have "(word_of_nat (as_nanos mx) :: u64) \<noteq> 0"
    using assms(1) by auto
  then show ?thesis
    using u assms(1) by (simp add: jitter_under_def Let_def dur_from_nanos_def unat_mod_distrib)
qed

lemma jitter_under_rng: "rng \<noteq> 0 \<Longrightarrow> snd (jitter_under mx rng) \<noteq> 0"
  by (simp add: jitter_under_def Let_def next_rng_u64_eq_0)

lemma backoff_delay_rng: "rng \<noteq> 0 \<Longrightarrow> snd (backoff_delay base attempt rng) \<noteq> 0"
  using jitter_under_rng [of rng base] by (auto simp: backoff_delay_def split: prod.splits)

lemma unat_saturating_pow2: "unat attempt < 32 \<Longrightarrow> unat (saturating_pow2 attempt) = 2 ^ unat attempt"
proof -
  assume a: "unat attempt < 32"
  then have "(2::nat) ^ unat attempt < 2 ^ 32"
    by (intro power_strict_increasing) simp_all
  then have "unat (word_of_nat (2 ^ unat attempt) :: u32) = 2 ^ unat attempt"
    by (simp only: unat_of_nat) simp
  with a show ?thesis
    by (simp add: saturating_pow2_def)
qed

section \<open>The retry loop\<close>

text \<open>
  What the loop computes, without the sleeps: the first outcome that is not retryable
  decides; when all are, the last error is returned.
\<close>

fun first_decided :: "fork_error option \<Rightarrow> (retry_decision + 'a) list \<Rightarrow> fork_error + 'a" where
  "first_decided last_error [] =
     Inl (unwrap_or (Transport ''retry loop exhausted with no recorded error'') last_error)"
| "first_decided last_error (Inr a # rest) = Inr a"
| "first_decided last_error (Inl (Fatal e) # rest) = Inl e"
| "first_decided last_error (Inl (Retry e) # rest) = first_decided (Some e) rest"

definition attempt_outcome ::
  "ext_lib \<Rightarrow> rpc_client \<Rightarrow> (json \<Rightarrow> 'a option) \<Rightarrow> json \<Rightarrow> nat \<Rightarrow> retry_decision + 'a" where
  "attempt_outcome X client dec request i =
     classify_response X dec (upstream X i \<lparr> hq_url = rc_url client, hq_body = request \<rparr>)"

lemma try_once_eq:
  "try_once X client dec request w =
     (attempt_outcome X client dec request (w_sent w), w\<lparr>w_sent := Suc (w_sent w)\<rparr>)"
  by (simp add: try_once_def attempt_outcome_def)

lemma rpc_loop_decided:
  "attempt \<le> attempts \<Longrightarrow>
   fst (rpc_loop X client dec request attempts last_error [attempt..<attempts] w) =
   first_decided last_error
     (map (attempt_outcome X client dec request) [w_sent w..<w_sent w + (attempts - attempt)])"
proof (induction "attempts - attempt" arbitrary: attempt last_error w)
  case 0
  then show ?case by simp
next
  case (Suc n)
  then have lt: "attempt < attempts" by simp
  define k where "k = attempts - Suc attempt"
  have rng: "[attempt..<attempts] = attempt # [Suc attempt..<attempts]"
    using lt by (rule upt_conv_Cons)
  have d: "attempts - attempt = Suc k" using lt by (simp add: k_def)
  have out: "[w_sent w..<w_sent w + (attempts - attempt)]
      = w_sent w # [Suc (w_sent w)..<Suc (w_sent w) + k]"
    unfolding d by (simp add: upt_conv_Cons del: upt_Suc)
  have ih: "fst (rpc_loop X client dec request attempts (Some e) [Suc attempt..<attempts] w1) =
      first_decided (Some e)
        (map (attempt_outcome X client dec request) [Suc (w_sent w)..<Suc (w_sent w) + k])"
    if "w_sent w1 = Suc (w_sent w)" for e w1
    using Suc.hyps(1) [of "Suc attempt" "Some e" w1] Suc.hyps(2) lt that by (simp add: k_def)
  show ?case
  proof (cases "attempt_outcome X client dec request (w_sent w)")
    case (Inr a)
    then show ?thesis unfolding out rng by (simp add: try_once_eq)
  next
    case (Inl r)
    show ?thesis
    proof (cases r)
      case (Fatal e)
      with Inl show ?thesis unfolding out rng by (simp add: try_once_eq)
    next
      case (Retry e)
      show ?thesis
      proof (cases "attempt + 1 < attempts")
        case True
        with Inl Retry show ?thesis
          unfolding out rng by (simp add: try_once_eq ih split: prod.splits)
      next
        case False
        with lt have "k = 0" by (simp add: k_def)
        with False Inl Retry show ?thesis
          unfolding out rng by (simp add: try_once_eq)
      qed
    qed
  qed
qed

lemma rpc_loop_effort:
  "attempt < attempts \<Longrightarrow>
   snd (rpc_loop X client dec request attempts last_error [attempt..<attempts] w) = w' \<Longrightarrow>
   \<exists>k. 1 \<le> k \<and> k \<le> attempts - attempt \<and> w_sent w' = w_sent w + k
     \<and> length (w_slept w') = length (w_slept w) + (k - 1)"
proof (induction "attempts - attempt" arbitrary: attempt last_error w)
  case 0
  then show ?case by simp
next
  case (Suc n)
  have rng: "[attempt..<attempts] = attempt # [Suc attempt..<attempts]"
    using Suc.prems(1) by (rule upt_conv_Cons)
  let ?o = "attempt_outcome X client dec request (w_sent w)"
  consider (stop) "w' = w\<lparr>w_sent := Suc (w_sent w)\<rparr>"
    | (again) e r dl where "attempt + 1 < attempts"
        "w' = snd (rpc_loop X client dec request attempts (Some e) [Suc attempt..<attempts]
            (w\<lparr>w_sent := Suc (w_sent w), w_rng := r, w_slept := w_slept w @ [dl]\<rparr>))"
    using Suc.prems(2) unfolding rng
    by (cases ?o) (auto simp: try_once_eq split: retry_decision.splits prod.splits if_splits)
  then show ?case
  proof cases
    case stop
    with Suc.prems(1) show ?thesis by (intro exI [of _ 1]) simp
  next
    case again
    let ?w = "w\<lparr>w_sent := Suc (w_sent w), w_rng := r, w_slept := w_slept w @ [dl]\<rparr>"
    have n: "n = attempts - Suc attempt" using Suc.hyps(2) by simp
    from Suc.hyps(1) [OF n _ again(2) [symmetric]] again(1)
    obtain k where k: "1 \<le> k \<and> k \<le> attempts - Suc attempt \<and> w_sent w' = w_sent ?w + k
        \<and> length (w_slept w') = length (w_slept ?w) + (k - 1)"
      by fastforce
    with again(1) show ?thesis by (intro exI [of _ "Suc k"]) auto
  qed
qed

lemma rpc_loop_rng:
  "w_rng w \<noteq> 0 \<Longrightarrow> w_rng (snd (rpc_loop X client dec request attempts last_error as w)) \<noteq> 0"
proof (induction "as" arbitrary: last_error w)
  case Nil
  then show ?case by simp
next
  case (Cons attempt rest)
  obtain dl r where dr:
      "backoff_delay (rpc_base_retry_delay (rc_config client)) (word_of_nat attempt) (w_rng w) = (dl, r)"
    by force
  have "r \<noteq> 0"
    using backoff_delay_rng [OF Cons.prems] dr by (metis snd_conv)
  then show ?case
    using Cons.prems
    by (auto simp: try_once_eq dr Cons.IH split: sum.splits retry_decision.splits)
qed

lemma total_attempts_less: "total_attempts X cfg = Some n \<Longrightarrow> n \<le> unat (rpc_retries cfg) + 1"
  by (auto simp: total_attempts_def unat_word_ariths split: if_splits)

lemma total_attempts_eq: "rpc_retries cfg \<noteq> - 1 \<Longrightarrow> total_attempts X cfg = Some (unat (rpc_retries cfg) + 1)"
  by (metis total_attempts_def unatSuc add.commute add_eq_0_iff Suc_eq_plus1)

lemma rpc_post_sent:
  assumes "rpc_post X client d method params w = Some (r, w')"
  shows "w_sent w \<le> w_sent w' \<and> w_sent w' \<le> w_sent w + unat (rpc_retries (rc_config client)) + 1"
proof -
  obtain n where n: "total_attempts X (rc_config client) = Some n"
    using assms by (auto simp: rpc_post_def split: option.splits)
  have w: "snd (rpc_loop X client (dec_rpc_response d) (rpc_request_json method params)
      n None [0..<n] w) = w'"
    using assms n by (simp add: rpc_post_def)
  show ?thesis
  proof (cases "n = 0")
    case True
    with w show ?thesis by simp
  next
    case False
    with rpc_loop_effort [OF _ w] total_attempts_less [OF n] show ?thesis by fastforce
  qed
qed

lemma rpc_call_sent:
  assumes "rpc_call X client d method params w = Some (r, w')"
  shows "w_sent w \<le> w_sent w' \<and> w_sent w' \<le> w_sent w + unat (rpc_retries (rc_config client)) + 1"
  using assms by (auto simp: rpc_call_def dest: rpc_post_sent split: option.splits)

lemma fetch_entry_sent:
  assumes "fetch_entry X client key w = Some (r, w')"
  shows "w_sent w \<le> w_sent w' \<and> w_sent w' \<le> w_sent w + unat (rpc_retries (rc_config client)) + 1"
  using assms
  by (auto simp: fetch_entry_def fetch_entries_def chunks_singleton
           dest!: rpc_call_sent split: res_splits)

text \<open>Without overflow checks, and with a positive batch size, no request panics.\<close>

lemma rpc_call_total: "\<not> overflow_checks X \<Longrightarrow> rpc_call X client d method params w \<noteq> None"
  by (simp add: rpc_call_def rpc_post_def total_attempts_def split: prod.splits)

lemma fetch_chunks_total:
  "\<not> overflow_checks X \<Longrightarrow> fetch_chunks X client cs results w \<noteq> None"
proof (induction cs arbitrary: results w)
  case (Cons c cs)
  then show ?case
    using rpc_call_total [OF Cons.prems, where d = dec_get_ledger_entries_result]
    by (auto simp del: not_None_eq split: res_splits)
qed simp

lemma fetch_entry_total:
  "\<not> overflow_checks X \<Longrightarrow> rpc_max_keys_per_request (rc_config client) \<noteq> 0 \<Longrightarrow> fetch_entry X client key w \<noteq> None"
  using fetch_chunks_total [of X] by (auto simp: fetch_entry_def fetch_entries_def split: res_splits)

text \<open>An entry returned was decoded from the reply, with no extension.\<close>

lemma fetch_entry_decoded:
  assumes "fetch_entry X client key w = Some (Inr (Some f), w')"
  shows "\<exists>b d m. data_from_xdr X b = Inr d
    \<and> fe_entry f = \<lparr> le_last_modified = m, le_data = d, le_ext = ExtV0 \<rparr>"
proof -
  have step: "collect_res (rpc_decode_entry X) wires = Inr es \<Longrightarrow> e \<in> set es \<Longrightarrow>
      \<exists>b d m. data_from_xdr X b = Inr d \<and> fe_entry e = \<lparr> le_last_modified = m, le_data = d, le_ext = ExtV0 \<rparr>"
    for wires es e
  proof (induction wires arbitrary: es)
    case (Cons wire wires)
    then obtain y ys where y: "rpc_decode_entry X wire = Inr y" "collect_res (rpc_decode_entry X) wires = Inr ys"
      "es = y # ys"
      by (auto split: sum.splits)
    then have "\<exists>b d m. data_from_xdr X b = Inr d \<and> fe_entry y = \<lparr> le_last_modified = m, le_data = d, le_ext = ExtV0 \<rparr>"
      by (auto simp: rpc_decode_entry_def split: sum.splits)
    with y Cons show ?case by auto
  qed simp
  have all: "fetch_chunks X client cs results w = Some (Inr es, w') \<Longrightarrow>
      (\<And>e. e \<in> set results \<Longrightarrow> \<exists>b d m. data_from_xdr X b = Inr d
         \<and> fe_entry e = \<lparr> le_last_modified = m, le_data = d, le_ext = ExtV0 \<rparr>) \<Longrightarrow>
      e \<in> set es \<Longrightarrow> \<exists>b d m. data_from_xdr X b = Inr d
         \<and> fe_entry e = \<lparr> le_last_modified = m, le_data = d, le_ext = ExtV0 \<rparr>" for cs results es e w
  proof (induction cs arbitrary: results w)
    case (Cons c cs)
    from Cons.prems(1) obtain w1 rs where rest: "fetch_chunks X client cs (results @ rs) w1 = Some (Inr es, w')"
      and rs: "rs = [] \<or> (\<exists>wires. collect_res (rpc_decode_entry X) wires = Inr rs)"
      by (auto split: res_splits) (metis append_Nil2)
    show ?case
      by (rule Cons.IH [OF rest _ Cons.prems(3)]) (use Cons.prems(2) rs step in auto)
  qed simp
  from assms obtain es where "fetch_chunks X client (chunks (rpc_max_keys_per_request (rc_config client)) [key]) [] w
      = Some (Inr es, w')" "es \<noteq> []" "f = last es"
    by (auto simp: fetch_entry_def fetch_entries_def split: res_splits)
  then show ?thesis using all [of _ "[]" w es f] by simp
qed

section \<open>Properties\<close>

text \<open>
  A request costs between one and \<open>retries + 1\<close> HTTP exchanges, and sleeps once
  between two exchanges and never after the last: \<open>k\<close> exchanges, \<open>k - 1\<close> sleeps.
\<close>

lemma rpc_post_effort:
  assumes "rpc_post X client d method params w = Some (r, w')" "rpc_retries (rc_config client) \<noteq> - 1"
  shows "\<exists>k. 1 \<le> k \<and> k \<le> unat (rpc_retries (rc_config client)) + 1 \<and> w_sent w' = w_sent w + k
    \<and> length (w_slept w') = length (w_slept w) + (k - 1)"
proof -
  let ?n = "unat (rpc_retries (rc_config client)) + 1"
  have "snd (rpc_loop X client (dec_rpc_response d) (rpc_request_json method params)
      ?n None [0..<?n] w) = w'"
    using assms(1) by (simp add: rpc_post_def total_attempts_eq [OF assms(2)] del: upt_Suc)
  from rpc_loop_effort [OF _ this] show ?thesis by simp
qed

text \<open>
  C30: The retry loop refines its specification: over the outcomes of the next
  \<open>retries + 1\<close> exchanges, the first one that is not a retryable failure decides the
  result, and when all are retryable the last failure is returned.
\<close>

theorem rpc_post_decided:
  assumes "rpc_retries (rc_config client) \<noteq> - 1"
  shows "map_option fst (rpc_post X client d method params w) =
    Some (first_decided None
      (map (attempt_outcome X client (dec_rpc_response d) (rpc_request_json method params))
        [w_sent w..<w_sent w + (unat (rpc_retries (rc_config client)) + 1)]))"
  using rpc_loop_decided [of 0 "unat (rpc_retries (rc_config client)) + 1"]
  by (simp add: rpc_post_def total_attempts_eq [OF assms] del: upt_Suc)

text \<open>
  Before saturation the delay after attempt \<open>a\<close> is the base delay times \<open>2 ^ a\<close>, plus a
  jitter below the base delay.
\<close>

lemma backoff_delay_bounds:
  assumes "0 < as_nanos base" "as_nanos base < 2 ^ 64" "unat attempt < 32"
    "as_nanos base * 2 ^ unat attempt + as_nanos base \<le> duration_max"
  shows "as_nanos base * 2 ^ unat attempt \<le> as_nanos (fst (backoff_delay base attempt rng))
    \<and> as_nanos (fst (backoff_delay base attempt rng)) < as_nanos base * 2 ^ unat attempt + as_nanos base"
  using jitter_under_less [OF assms(1,2), of rng] assms(4) unat_saturating_pow2 [OF assms(3)]
  by (auto simp: backoff_delay_def dur_saturating_mul_def dur_saturating_add_def split: prod.splits)

text \<open>
  The jitter generator never degenerates: from a seeded state, whatever the clock says,
  no number of requests brings it to 0, its only fixed point.
\<close>

lemma rpc_rng_never_zero:
  assumes "w_rng w = seed_rng now" "rpc_post X client d method params w = Some (r, w')"
  shows "w_rng w' \<noteq> 0 \<and> next_rng_u64 (w_rng w') \<noteq> 0"
proof -
  have nz: "w_rng w \<noteq> 0" using assms(1) seed_rng_nonzero by simp
  from assms(2) obtain n where "w' = snd (rpc_loop X client (dec_rpc_response d)
      (rpc_request_json method params) n None [0..<n] w)"
    by (auto simp: rpc_post_def split: option.splits) (metis snd_conv)
  then have "w_rng w' \<noteq> 0" by (simp add: rpc_loop_rng [OF nz])
  then show ?thesis by (simp add: next_rng_u64_eq_0)
qed

section \<open>At a concrete input\<close>

definition sample_client :: rpc_client where
  "sample_client =
     \<lparr> rc_url = ''http://localhost:0'',
       rc_config = rpc_config_default\<lparr>rpc_retries := 2, rpc_base_retry_delay := Duration 300\<rparr> \<rparr>"

definition sample_world :: rpc_world where
  "sample_world = \<lparr> w_sent = 0, w_rng = seed_rng (Some 7), w_slept = [] \<rparr>"

lemma sample_post: "rpc_post sample_lib sample_client d method params w \<noteq> None"
  by (simp add: rpc_post_def total_attempts_def sample_client_def split: option.splits)

lemma sample_retries: "rpc_retries (rc_config sample_client) = 2"
  by (simp add: sample_client_def)

theorem rpc_post_decided_witness:
  "map_option fst (rpc_post sample_lib sample_client dec_string ''getHealth'' JNull sample_world)
     = Some (Inl (Transport ''refused''))"
  using rpc_post_decided [of sample_client sample_lib dec_string "''getHealth''" JNull sample_world]
  by (simp add: sample_retries sample_world_def attempt_outcome_def classify_response_def
      from_reqwest_error_def sample_lib_def upt_rec)

end
