(* ===== verification/Source.thy ===== *)
theory Source
  imports Rpc
begin

text \<open>
  The lazy ledger source, \<open>src/source.rs\<close>: a cache of XDR bytes over the upstream client.
  \<open>snapshot_get\<close> is \<open>SnapshotSource::get\<close>, through which a host run sees the fork; \<open>None\<close> is
  a panic. The locale \<open>snapshot_source\<close> states what a host run relies on of \<open>get\<close>; it is
  interpreted on this source, under the XDR round trip of \<open>entry_codec_ok\<close>.
\<close>

section \<open>State\<close>

datatype fetch_mode = Strict | Lenient

type_synonym cached_bytes = "bytes \<times> u32 option"

type_synonym entry_cache = "(ledger_key \<times> cached_bytes option) list"

type_synonym snapshot_entry = "ledger_key \<times> ledger_entry \<times> u32 option"

record source =
  src_cache :: entry_cache
  src_client :: rpc_client
  src_fetch_count :: u32
  src_fetch_mode :: fetch_mode

definition source_new :: "rpc_client \<Rightarrow> source" where
  "source_new client =
     \<lparr> src_cache = [], src_client = client, src_fetch_count = 0, src_fetch_mode = Strict \<rparr>"

definition with_fetch_mode :: "fetch_mode \<Rightarrow> source \<Rightarrow> source" where
  "with_fetch_mode mode s = s\<lparr>src_fetch_mode := mode\<rparr>"

definition fetch_count :: "source \<Rightarrow> u32" where
  "fetch_count s = src_fetch_count s"

definition encode_entry :: "ext_lib \<Rightarrow> ledger_entry \<Rightarrow> bytes option" where
  "encode_entry X entry = (case entry_to_xdr X entry of Inl _ \<Rightarrow> None | Inr b \<Rightarrow> Some b)"

definition decode_entry :: "ext_lib \<Rightarrow> bytes \<Rightarrow> ledger_entry option" where
  "decode_entry X bs = (case entry_from_xdr X bs of Inl _ \<Rightarrow> None | Inr e \<Rightarrow> Some e)"

text \<open>\<open>cache.insert(key, value)\<close>.\<close>

definition cache_insert :: "ext_lib \<Rightarrow> ledger_key \<Rightarrow> cached_bytes option \<Rightarrow> source \<Rightarrow> source" where
  "cache_insert X k v s = s\<lparr>src_cache := bt_insert (key_lt X) k v (src_cache s)\<rparr>"

section \<open>Operations\<close>

definition set_entry ::
  "ext_lib \<Rightarrow> ledger_key \<Rightarrow> ledger_entry \<Rightarrow> u32 option \<Rightarrow> source \<Rightarrow> source option" where
  "set_entry X key entry live_until s =
     (case encode_entry X entry of
        None \<Rightarrow> None
      | Some bs \<Rightarrow> Some (cache_insert X key (Some (bs, live_until)) s))"

fun preload :: "ext_lib \<Rightarrow> snapshot_entry list \<Rightarrow> source \<Rightarrow> source option" where
  "preload X [] s = Some s"
| "preload X ((key, entry, live_until) # rest) s =
     (case encode_entry X entry of
        None \<Rightarrow> None
      | Some bs \<Rightarrow> preload X rest (cache_insert X key (Some (bs, live_until)) s))"

definition bump_account_seq ::
  "ext_lib \<Rightarrow> account_id \<Rightarrow> source \<Rightarrow> i64 option \<times> source" where
  "bump_account_seq X account_id s =
     (case bt_get (src_cache s) (KeyAccount account_id) of
        None \<Rightarrow> (None, s)
      | Some None \<Rightarrow> (None, s)
      | Some (Some (bs, live_until)) \<Rightarrow>
          (case entry_from_xdr X bs of
             Inl _ \<Rightarrow> (None, s)
           | Inr entry \<Rightarrow>
               (case le_data entry of
                  DataAccount account \<Rightarrow>
                    (let next_seq = ae_seq_num account + 1;
                         entry' = entry\<lparr>le_data := DataAccount (account\<lparr>ae_seq_num := next_seq\<rparr>)\<rparr>
                     in case entry_to_xdr X entry' of
                          Inl _ \<Rightarrow> (None, s)
                        | Inr new_bytes \<Rightarrow>
                            (Some next_seq,
                             cache_insert X (KeyAccount account_id) (Some (new_bytes, live_until)) s))
                | _ \<Rightarrow> (None, s))))"

fun apply_changes_from ::
  "ext_lib \<Rightarrow> ledger_entry_change list \<Rightarrow> u32 \<Rightarrow> source \<Rightarrow> (u32 \<times> source) option" where
  "apply_changes_from X [] applied s = Some (applied, s)"
| "apply_changes_from X (change # rest) applied s =
     (if lc_read_only change then apply_changes_from X rest applied s
      else case key_from_xdr X (lc_encoded_key change) of
             Inl _ \<Rightarrow> None
           | Inr key \<Rightarrow>
               apply_changes_from X rest (sat_add applied 1)
                 (cache_insert X key
                    (case lc_encoded_new_value change of
                       Some bs \<Rightarrow> Some (bs, lc_ttl_new_live_until change)
                     | None \<Rightarrow> None) s))"

definition apply_changes ::
  "ext_lib \<Rightarrow> ledger_entry_change list \<Rightarrow> source \<Rightarrow> (u32 \<times> source) option" where
  "apply_changes X changes s = apply_changes_from X changes 0 s"

fun cached_positive :: "ledger_key \<times> cached_bytes option \<Rightarrow> (ledger_key \<times> bytes \<times> u32 option) option" where
  "cached_positive (key, None) = None"
| "cached_positive (key, Some (bs, live_until)) = Some (key, bs, live_until)"

definition entries :: "ext_lib \<Rightarrow> source \<Rightarrow> snapshot_entry list option" where
  "entries X s =
     those (map (\<lambda>(key, bs, live_until).
                   map_option (\<lambda>e. (key, e, live_until)) (decode_entry X bs))
              (List.map_filter cached_positive (src_cache s)))"

section \<open>get\<close>

text \<open>The end of \<open>fetch_from_rpc\<close>: encode the answer and memoise it, absence included.\<close>

definition memoise ::
  "ext_lib \<Rightarrow> ledger_key \<Rightarrow> live_entry option \<Rightarrow> source \<Rightarrow> source option" where
  "memoise X key result s =
     (case result of
        None \<Rightarrow> Some (cache_insert X key None s)
      | Some (entry, live_until) \<Rightarrow>
          map_option (\<lambda>bs. cache_insert X key (Some (bs, live_until)) s) (encode_entry X entry))"

definition fetch_from_rpc ::
  "ext_lib \<Rightarrow> ledger_key \<Rightarrow> source \<times> rpc_world \<Rightarrow> (live_entry option \<times> source \<times> rpc_world) option" where
  "fetch_from_rpc X key sw =
     (let (s, w) = sw in
      if src_fetch_count s = - 1 \<and> overflow_checks X then None
      else
        let s1 = s\<lparr>src_fetch_count := src_fetch_count s + 1\<rparr> in
        case fetch_entry X (src_client s) key w of
          None \<Rightarrow> None
        | Some (Inr found, w') \<Rightarrow>
            (let result = map_option (\<lambda>f. (fe_entry f, fe_live_until f)) found
             in map_option (\<lambda>s2. (result, s2, w')) (memoise X key result s1))
        | Some (Inl e, w') \<Rightarrow>
            (case src_fetch_mode s of
               Strict \<Rightarrow> None
             | Lenient \<Rightarrow> map_option (\<lambda>s2. (None, s2, w')) (memoise X key None s1)))"

definition snapshot_get ::
  "ext_lib \<Rightarrow> ledger_key \<Rightarrow> source \<times> rpc_world \<Rightarrow> (live_entry option \<times> source \<times> rpc_world) option" where
  "snapshot_get X key sw =
     (case bt_get (src_cache (fst sw)) key of
        Some None \<Rightarrow> Some (None, sw)
      | Some (Some (bs, live_until)) \<Rightarrow>
          map_option (\<lambda>e. (Some (e, live_until), sw)) (decode_entry X bs)
      | None \<Rightarrow> fetch_from_rpc X key sw)"

section \<open>Log text\<close>

definition abbreviate :: "string \<Rightarrow> string option" where
  "abbreviate s =
     (if length s > 12 then
        (case (slice_to s 4, slice_from s (length s - 4)) of
           (Some a, Some b) \<Rightarrow> Some (a @ ''...'' @ b)
         | _ \<Rightarrow> None)
      else Some s)"

definition account_id_full :: "ext_lib \<Rightarrow> account_id \<Rightarrow> string" where
  "account_id_full X acct = strkey_account X acct"

definition account_id_short :: "ext_lib \<Rightarrow> account_id \<Rightarrow> string option" where
  "account_id_short X acct = abbreviate (account_id_full X acct)"

definition sc_address_short :: "ext_lib \<Rightarrow> sc_address \<Rightarrow> string option" where
  "sc_address_short X addr =
     abbreviate (case addr of
        AddrContract h \<Rightarrow> strkey_contract X h
      | AddrAccount acct \<Rightarrow> account_id_full X acct
      | AddrOther _ \<Rightarrow> ''???'')"

definition key_display :: "ext_lib \<Rightarrow> ledger_key \<Rightarrow> string option" where
  "key_display X key =
     (case key of
        KeyContractData contract k dur \<Rightarrow>
          (case sc_address_short X contract of
             None \<Rightarrow> None
           | Some addr \<Rightarrow>
               if k = ScLedgerKeyContractInstance then Some (''ContractData('' @ addr @ '', instance)'')
               else Some (''ContractData('' @ addr @ '', ''
                          @ (case dur of Temporary \<Rightarrow> ''temp'' | Persistent \<Rightarrow> ''persistent'') @ '')''))
      | KeyContractCode h \<Rightarrow>
          Some (''ContractCode('' @ concat (map byte_02x (take 4 h)) @ ''...)'')
      | KeyAccount acct \<Rightarrow> map_option (\<lambda>a. ''Account('' @ a @ '')'') (account_id_short X acct)
      | KeyTrustline acct _ \<Rightarrow> map_option (\<lambda>a. ''Trustline('' @ a @ '')'') (account_id_short X acct)
      | KeyConfigSetting _ \<Rightarrow> Some ''ConfigSetting''
      | KeyTtl _ \<Rightarrow> Some ''Ttl''
      | KeyOther _ \<Rightarrow> Some ''Other'')"

section \<open>What a host run sees\<close>

text \<open>A host program against any \<open>get\<close>; \<open>None\<close> when a \<open>get\<close> panics.\<close>

primrec run_host ::
  "host_prog \<Rightarrow> (ledger_key \<Rightarrow> 's \<Rightarrow> (live_entry option \<times> 's) option) \<Rightarrow> 's
    \<Rightarrow> (host_outcome \<times> 's) option" where
  "run_host (HostDone out) get s = Some (out, s)"
| "run_host (HostGet key cont) get s =
     (case get key s of None \<Rightarrow> None | Some (v, s') \<Rightarrow> run_host (cont v) get s')"

locale snapshot_source =
  fixes get :: "ledger_key \<Rightarrow> 's \<Rightarrow> (live_entry option \<times> 's) option"
    and peek :: "'s \<Rightarrow> ledger_key \<Rightarrow> live_entry option option"
    and ok :: "'s \<Rightarrow> bool"
  assumes get_hit: "ok s \<Longrightarrow> peek s k = Some v \<Longrightarrow> get k s = Some (v, s)"
    and get_peek: "ok s \<Longrightarrow> get k s = Some (v, s') \<Longrightarrow> peek s' k = Some v"
    and get_ok: "ok s \<Longrightarrow> get k s = Some (v, s') \<Longrightarrow> ok s'"
    and get_mono: "ok s \<Longrightarrow> get k s = Some (v, s') \<Longrightarrow> peek s k' = Some x \<Longrightarrow> peek s' k' = Some x"
begin

lemma run_ok: "ok s \<Longrightarrow> run_host p get s = Some (out, s') \<Longrightarrow> ok s'"
proof (induction p arbitrary: s)
  case (HostGet key cont)
  then obtain v s1 where g: "get key s = Some (v, s1)" and r: "run_host (cont v) get s1 = Some (out, s')"
    by (auto split: option.splits)
  show ?case
    by (rule HostGet.IH [OF _ get_ok [OF HostGet.prems(1) g] r]) simp
qed simp

lemma run_mono:
  "ok s \<Longrightarrow> run_host p get s = Some (out, s') \<Longrightarrow> peek s k = Some x \<Longrightarrow> peek s' k = Some x"
proof (induction p arbitrary: s)
  case (HostGet key cont)
  then obtain v s1 where g: "get key s = Some (v, s1)" and r: "run_host (cont v) get s1 = Some (out, s')"
    by (auto split: option.splits)
  show ?case
    by (rule HostGet.IH [OF _ get_ok [OF HostGet.prems(1) g] r
          get_mono [OF HostGet.prems(1) g HostGet.prems(3)]]) simp
qed simp

text \<open>
  A program whose questions are all answered already leaves the state alone, and two states
  that agree on the answers of the first run give the same outcome.
\<close>

lemma run_transfer:
  "ok s \<Longrightarrow> run_host p get s = Some (out, s') \<Longrightarrow> ok t \<Longrightarrow>
   (\<And>k v. peek s' k = Some v \<Longrightarrow> peek t k = Some v) \<Longrightarrow> run_host p get t = Some (out, t)"
proof (induction p arbitrary: s)
  case (HostGet key cont)
  then obtain v s1 where g: "get key s = Some (v, s1)" and r: "run_host (cont v) get s1 = Some (out, s')"
    by (auto split: option.splits)
  have ok1: "ok s1" by (rule get_ok [OF HostGet.prems(1) g])
  have "peek s' key = Some v"
    by (rule run_mono [OF ok1 r get_peek [OF HostGet.prems(1) g]])
  then have "get key t = Some (v, t)"
    by (intro get_hit HostGet.prems)
  moreover have "run_host (cont v) get t = Some (out, t)"
    by (rule HostGet.IH [OF _ ok1 r HostGet.prems(3,4)]) simp_all
  ultimately show ?case by simp
qed simp

lemma run_again:
  assumes "ok s" "run_host p get s = Some (out, s')"
  shows "run_host p get s' = Some (out, s')"
  using run_transfer [OF assms run_ok [OF assms]] by simp

end

section \<open>The source as a map\<close>

text \<open>The abstract state: what the cache knows of each key.\<close>

definition known :: "ext_lib \<Rightarrow> source \<Rightarrow> ledger_key \<Rightarrow> live_entry option option" where
  "known X s k =
     (case bt_get (src_cache s) k of
        None \<Rightarrow> None
      | Some None \<Rightarrow> Some None
      | Some (Some (bs, live_until)) \<Rightarrow>
          map_option (\<lambda>e. Some (e, live_until)) (decode_entry X bs))"

definition cache_decodes :: "ext_lib \<Rightarrow> source \<Rightarrow> bool" where
  \<comment> \<open>every cached value is the encoding of an entry\<close>
  "cache_decodes X s \<longleftrightarrow>
     (\<forall>k bs lu. bt_get (src_cache s) k = Some (Some (bs, lu)) \<longrightarrow> decode_entry X bs \<noteq> None)"

lemma decode_encode:
  "entry_codec_ok X \<Longrightarrow> encode_entry X e = Some bs \<Longrightarrow> decode_entry X bs = Some e"
  by (auto simp: entry_codec_ok_def encode_entry_def decode_entry_def split: sum.splits)

lemma cache_insert_simps [simp]:
  "bt_get (src_cache (cache_insert X k v s)) = (bt_get (src_cache s))(k \<mapsto> v)"
  "src_client (cache_insert X k v s) = src_client s"
  "src_fetch_count (cache_insert X k v s) = src_fetch_count s"
  "src_fetch_mode (cache_insert X k v s) = src_fetch_mode s"
  by (simp_all add: cache_insert_def fun_upd_def)

lemma known_cache_insert:
  "known X (cache_insert X k v s) =
     (known X s)(k := (case v of None \<Rightarrow> Some None
                       | Some (bs, lu) \<Rightarrow> map_option (\<lambda>e. Some (e, lu)) (decode_entry X bs)))"
  by (rule ext) (simp add: known_def split: option.splits)

lemma known_fetch_count [simp]: "known X (s\<lparr>src_fetch_count := n\<rparr>) = known X s"
  by (rule ext) (simp add: known_def)

lemma cache_decodes_insert:
  assumes "cache_decodes X s" "\<And>bs lu. v = Some (bs, lu) \<Longrightarrow> decode_entry X bs \<noteq> None"
  shows "cache_decodes X (cache_insert X k v s)"
  using assms by (fastforce simp: cache_decodes_def split: if_splits)

lemma cache_decodes_fetch_count [simp]:
  "cache_decodes X (s\<lparr>src_fetch_count := n\<rparr>) \<longleftrightarrow> cache_decodes X s"
  by (simp add: cache_decodes_def)

definition encodes_all :: "ext_lib \<Rightarrow> bool" where
  "encodes_all X \<longleftrightarrow> (\<forall>e. encode_entry X e \<noteq> None)"

definition source_ok :: "ext_lib \<Rightarrow> source \<times> rpc_world \<Rightarrow> bool" where
  "source_ok X sw \<longleftrightarrow> entry_codec_ok X \<and> cache_decodes X (fst sw)"

section \<open>get\<close>

lemma known_hit: "known X s k = Some v \<Longrightarrow> snapshot_get X k (s, w) = Some (v, s, w)"
  by (auto simp: known_def snapshot_get_def split: option.splits prod.splits)

lemma decodes_known: "cache_decodes X s \<Longrightarrow> bt_get (src_cache s) k \<noteq> None \<Longrightarrow> known X s k \<noteq> None"
  by (auto simp: known_def cache_decodes_def split: option.splits)

lemma memoise_known:
  "entry_codec_ok X \<Longrightarrow> memoise X k v s = Some s' \<Longrightarrow> known X s' = (known X s)(k \<mapsto> v)"
  by (auto simp: memoise_def known_cache_insert fun_upd_def decode_encode split: option.splits prod.splits)

lemma memoise_frame:
  "memoise X k v s = Some s' \<Longrightarrow>
     src_client s' = src_client s \<and> src_fetch_count s' = src_fetch_count s \<and> src_fetch_mode s' = src_fetch_mode s"
  by (auto simp: memoise_def split: option.splits prod.splits)

lemma memoise_decodes:
  "entry_codec_ok X \<Longrightarrow> cache_decodes X s \<Longrightarrow> memoise X k v s = Some s' \<Longrightarrow> cache_decodes X s'"
  by (auto simp: memoise_def decode_encode intro!: cache_decodes_insert
           split: option.splits prod.splits)

text \<open>A miss makes one fetch, whose answer is memoised.\<close>

lemma fetch_from_rpcD:
  assumes "fetch_from_rpc X key (s, w) = Some (v, s', w')"
  shows "memoise X key v (s\<lparr>src_fetch_count := src_fetch_count s + 1\<rparr>) = Some s'
    \<and> (\<exists>r. fetch_entry X (src_client s) key w = Some (r, w')
         \<and> (case r of Inr found \<Rightarrow> v = map_option (\<lambda>f. (fe_entry f, fe_live_until f)) found
            | Inl e \<Rightarrow> src_fetch_mode s = Lenient \<and> v = None))"
  using assms
  by (auto simp: fetch_from_rpc_def Let_def split: option.splits sum.splits fetch_mode.splits if_splits)

lemma snapshot_get_cases:
  assumes "snapshot_get X key (s, w) = Some (v, sw')" "cache_decodes X s"
  obtains (hit) "known X s key = Some v" "sw' = (s, w)"
    | (miss) s' w' where "bt_get (src_cache s) key = None" "sw' = (s', w')"
        "fetch_from_rpc X key (s, w) = Some (v, s', w')"
proof (cases "bt_get (src_cache s) key")
  case None
  with assms(1) miss show thesis by (cases sw') (auto simp: snapshot_get_def)
next
  case (Some c)
  with assms hit show thesis
    by (cases c) (auto simp: snapshot_get_def known_def cache_decodes_def)
qed

lemma snapshot_get_known:
  assumes "source_ok X (s, w)" "snapshot_get X key (s, w) = Some (v, s', w')"
  shows "known X s' = (known X s)(key \<mapsto> v) \<and> source_ok X (s', w')"
proof -
  have "cache_decodes X s" using assms(1) by (simp add: source_ok_def)
  with assms(2) show ?thesis
  proof (cases rule: snapshot_get_cases)
    case hit
    then show ?thesis using assms(1) by (auto simp: fun_upd_def)
  next
    case (miss s2 w2)
    let ?s = "s\<lparr>src_fetch_count := src_fetch_count s + 1\<rparr>"
    from fetch_from_rpcD [OF miss(3)] have m: "memoise X key v ?s = Some s2" by blast
    have c: "entry_codec_ok X" "cache_decodes X ?s" using assms(1) by (simp_all add: source_ok_def)
    have "known X s2 = (known X ?s)(key \<mapsto> v)" "cache_decodes X s2"
      by (rule memoise_known [OF c(1) m], rule memoise_decodes [OF c m])
    with miss(2) assms(1) show ?thesis by (simp add: source_ok_def)
  qed
qed

interpretation snap: snapshot_source "snapshot_get X" "\<lambda>sw. known X (fst sw)" "source_ok X" for X
proof (unfold_locales, goal_cases)
  case (1 s k v)
  then show ?case by (cases s) (simp add: known_hit)
next
  case (2 s k v s')
  then show ?case by (cases s; cases s') (auto dest: snapshot_get_known)
next
  case (3 s k v s')
  then show ?case by (cases s; cases s') (auto dest: snapshot_get_known)
next
  case (4 s k v s' k' x)
  show ?case
  proof (cases "k' = k")
    case True
    with 4 have "s' = s \<and> v = x"
      by (cases s) (auto simp: known_hit)
    with 4 True show ?thesis by simp
  next
    case False
    with 4 show ?thesis by (cases s; cases s') (auto dest: snapshot_get_known)
  qed
qed

section \<open>Writes\<close>

lemma set_entry_known:
  "entry_codec_ok X \<Longrightarrow> set_entry X key entry lu s = Some s' \<Longrightarrow>
     known X s' = (known X s)(key \<mapsto> Some (entry, lu))"
  by (auto simp: set_entry_def known_cache_insert decode_encode split: option.splits)

lemma set_entry_ok:
  "source_ok X (s, w) \<Longrightarrow> set_entry X key entry lu s = Some s' \<Longrightarrow> source_ok X (s', w)"
  by (auto simp: set_entry_def source_ok_def decode_encode intro!: cache_decodes_insert
           split: option.splits)

text \<open>The effect of one change of a host run on what is known.\<close>

definition change_effect ::
  "ext_lib \<Rightarrow> (ledger_key \<Rightarrow> live_entry option option) \<Rightarrow> ledger_entry_change
    \<Rightarrow> ledger_key \<Rightarrow> live_entry option option" where
  "change_effect X m c =
     (if lc_read_only c then m
      else case key_from_xdr X (lc_encoded_key c) of
             Inl _ \<Rightarrow> m
           | Inr k \<Rightarrow> m(k := (case lc_encoded_new_value c of
                                None \<Rightarrow> Some None
                              | Some bs \<Rightarrow> map_option (\<lambda>e. Some (e, lc_ttl_new_live_until c))
                                            (decode_entry X bs))))"

lemma change_effect_skip: "lc_read_only c \<Longrightarrow> change_effect X m c = m"
  by (simp add: change_effect_def)

lemma change_effect_write:
  "\<not> lc_read_only c \<Longrightarrow> key_from_xdr X (lc_encoded_key c) = Inr k \<Longrightarrow>
     known X (cache_insert X k (case lc_encoded_new_value c of
         Some bs \<Rightarrow> Some (bs, lc_ttl_new_live_until c) | None \<Rightarrow> None) s)
     = change_effect X (known X s) c"
  by (cases "lc_encoded_new_value c") (simp_all add: change_effect_def known_cache_insert)

lemma apply_changes_from_known:
  "apply_changes_from X changes n s = Some (m, s') \<Longrightarrow>
     known X s' = foldl (change_effect X) (known X s) changes
     \<and> m = foldl (\<lambda>k c. sat_add k 1) n (filter (\<lambda>c. \<not> lc_read_only c) changes)
     \<and> src_client s' = src_client s \<and> src_fetch_count s' = src_fetch_count s
     \<and> src_fetch_mode s' = src_fetch_mode s"
proof (induction X changes n s rule: apply_changes_from.induct)
  case (2 X c rest n s)
  then show ?case
    by (cases "lc_read_only c"; cases "key_from_xdr X (lc_encoded_key c)")
       (simp_all add: change_effect_skip change_effect_write)
qed simp

lemma sat_add_fold:
  "unat (foldl (\<lambda>k c. sat_add k 1) (n :: u32) cs) = min (unat n + length cs) (2 ^ 32 - 1)"
proof (induction cs arbitrary: n)
  case Nil
  have "unat n < 2 ^ 32" using unsigned_less [of n] by simp
  then show ?case by simp
next
  case (Cons c cs)
  then show ?case by (simp add: unat_sat_add)
qed

text \<open>The host's bytes decode: each value is one the host has just encoded.\<close>

definition changes_decode :: "ext_lib \<Rightarrow> ledger_entry_change list \<Rightarrow> bool" where
  "changes_decode X changes \<longleftrightarrow>
     list_all (\<lambda>c. lc_read_only c \<or>
        (is_ok (key_from_xdr X (lc_encoded_key c))
         \<and> (case lc_encoded_new_value c of None \<Rightarrow> True | Some bs \<Rightarrow> decode_entry X bs \<noteq> None))) changes"

lemma apply_changes_from_total:
  "changes_decode X changes \<Longrightarrow> cache_decodes X s \<Longrightarrow>
     \<exists>m s'. apply_changes_from X changes n s = Some (m, s') \<and> cache_decodes X s'"
proof (induction X changes n s rule: apply_changes_from.induct)
  case (2 X c rest n s)
  show ?case
  proof (cases "lc_read_only c")
    case True
    with 2 show ?thesis by (simp add: changes_decode_def)
  next
    case False
    with "2.prems" obtain k where k: "key_from_xdr X (lc_encoded_key c) = Inr k"
      by (cases "key_from_xdr X (lc_encoded_key c)") (auto simp: changes_decode_def)
    let ?v = "case lc_encoded_new_value c of Some bs \<Rightarrow> Some (bs, lc_ttl_new_live_until c) | None \<Rightarrow> None"
    have "cache_decodes X (cache_insert X k ?v s)"
      using "2.prems" False
      by (intro cache_decodes_insert) (auto simp: changes_decode_def split: option.splits)
    with "2.IH"(2) [OF False k] "2.prems" False k show ?thesis
      by (simp add: changes_decode_def)
  qed
qed simp

text \<open>\<open>bump_account_seq\<close> keeps the cache well-formed.\<close>

lemma bump_account_seq_cases:
  assumes "bump_account_seq X a s = (r, s')"
  obtains (same) "s' = s"
    | (bumped) e bs lu where "entry_to_xdr X e = Inr bs" "s' = cache_insert X (KeyAccount a) (Some (bs, lu)) s"
  using assms
  by (auto simp: bump_account_seq_def Let_def split: option.splits prod.splits sum.splits ledger_entry_data.splits)

lemma bump_account_seq_decodes:
  assumes "entry_codec_ok X" "cache_decodes X s"
  shows "cache_decodes X (snd (bump_account_seq X a s))"
proof -
  obtain r s' where b: "bump_account_seq X a s = (r, s')" by force
  from b show ?thesis
  proof (cases rule: bump_account_seq_cases)
    case (bumped e bs lu)
    with assms b show ?thesis
      by (auto simp: entry_codec_ok_def decode_entry_def intro!: cache_decodes_insert split: sum.splits)
  qed (use assms b in simp)
qed

section \<open>The cache stays ordered\<close>

definition cache_keys :: "source \<Rightarrow> ledger_key set" where
  "cache_keys s = fst ` set (src_cache s)"

definition cache_sorted :: "ext_lib \<Rightarrow> source \<Rightarrow> bool" where
  "cache_sorted X s \<longleftrightarrow> bt_sorted (key_lt X) (src_cache s)"

lemma cache_keys_insert [simp]: "cache_keys (cache_insert X k v s) = insert k (cache_keys s)"
  by (simp add: cache_keys_def cache_insert_def keys_bt_insert)

lemma cache_sorted_insert:
  "key_order_ok K X \<Longrightarrow> k \<in> K \<Longrightarrow> cache_keys s \<subseteq> K \<Longrightarrow> cache_sorted X s \<Longrightarrow>
     cache_sorted X (cache_insert X k v s)"
  by (simp add: cache_sorted_def cache_insert_def cache_keys_def key_order_ok_def bt_sorted_insert)

text \<open>What \<open>entries\<close> exports of a cache in order: each known entry once, in key order.\<close>

definition known_entry :: "live_entry option option \<Rightarrow> live_entry option" where
  "known_entry v = (case v of Some (Some e) \<Rightarrow> Some e | _ \<Rightarrow> None)"

abbreviation snapshot_map :: "snapshot_entry list \<Rightarrow> ledger_key \<Rightarrow> live_entry option" where
  "snapshot_map \<equiv> map_of"

lemma export_list:
  assumes "\<forall>k bs lu. (k, Some (bs, lu)) \<in> set m \<longrightarrow> decode_entry X bs \<noteq> None"
    "distinct (map fst m)"
  shows "\<exists>out. those (map (\<lambda>(key, bs, lu). map_option (\<lambda>e. (key, e, lu)) (decode_entry X bs))
            (List.map_filter cached_positive m)) = Some out
       \<and> (\<exists>f. map fst out = map fst (filter f m))
       \<and> snapshot_map out = (\<lambda>k. case map_of m k of Some (Some (bs, lu)) \<Rightarrow>
              map_option (\<lambda>e. (e, lu)) (decode_entry X bs) | _ \<Rightarrow> None)"
  using assms
proof (induction m)
  case Nil
  show ?case by (simp add: List.map_filter_def fun_eq_iff)
next
  case (Cons kv m)
  obtain k v where kv: "kv = (k, v)" by force
  from Cons.prems Cons.IH obtain out f where out:
      "those (map (\<lambda>(key, bs, lu). map_option (\<lambda>e. (key, e, lu)) (decode_entry X bs))
            (List.map_filter cached_positive m)) = Some out"
      "map fst out = map fst (filter f m)"
      "snapshot_map out = (\<lambda>k. case map_of m k of Some (Some (bs, lu)) \<Rightarrow>
              map_option (\<lambda>e. (e, lu)) (decode_entry X bs) | _ \<Rightarrow> None)"
    by fastforce
  have new: "k \<notin> fst ` set m" using Cons.prems(2) kv by simp
  then have mk: "map_of m k = None" by (simp add: map_of_eq_None_iff)
  have keep: "filter (f(kv := b)) m = filter f m" for b
    using new kv by (intro filter_cong refl) force
  show ?case
  proof (cases v)
    case None
    have "map fst out = map fst (filter (f(kv := False)) (kv # m))" by (simp add: keep out(2))
    moreover have "snapshot_map out = (\<lambda>k. case map_of (kv # m) k of Some (Some (bs, lu)) \<Rightarrow>
              map_option (\<lambda>e. (e, lu)) (decode_entry X bs) | _ \<Rightarrow> None)"
      using mk unfolding out(3) kv None by (intro ext) simp
    moreover have "those (map (\<lambda>(key, bs, lu). map_option (\<lambda>e. (key, e, lu)) (decode_entry X bs))
            (List.map_filter cached_positive (kv # m))) = Some out"
      using out(1) unfolding kv None by (simp add: List.map_filter_def)
    ultimately show ?thesis by blast
  next
    case (Some bl)
    obtain bs lu where bl: "bl = (bs, lu)" by force
    from Cons.prems(1) kv Some bl obtain e where e: "decode_entry X bs = Some e" by fastforce
    have "map fst ((k, e, lu) # out) = map fst (filter (f(kv := True)) (kv # m))"
      using keep [of True] out(2) by (simp add: kv)
    moreover have "snapshot_map ((k, e, lu) # out) = (\<lambda>k. case map_of (kv # m) k of Some (Some (bs, lu)) \<Rightarrow>
              map_option (\<lambda>e. (e, lu)) (decode_entry X bs) | _ \<Rightarrow> None)"
      using e mk unfolding kv Some bl by (intro ext) (simp add: out(3))
    moreover have "those (map (\<lambda>(key, bs, lu). map_option (\<lambda>e. (key, e, lu)) (decode_entry X bs))
            (List.map_filter cached_positive (kv # m))) = Some ((k, e, lu) # out)"
      using out(1) kv Some bl e by (simp add: List.map_filter_def)
    ultimately show ?thesis by blast
  qed
qed

lemma entries_known:
  assumes "key_order_ok K X" "cache_keys s \<subseteq> K" "cache_sorted X s" "cache_decodes X s"
  shows "\<exists>out. entries X s = Some out \<and> sorted_wrt (key_lt X) (map fst out)
    \<and> distinct (map fst out) \<and> snapshot_map out = (\<lambda>k. known_entry (known X s k))"
proof -
  have d: "distinct (map fst (src_cache s))"
    using assms(1-3)
    by (auto simp: cache_sorted_def cache_keys_def key_order_ok_def intro: bt_sorted_distinct)
  have "\<forall>k bs lu. (k, Some (bs, lu)) \<in> set (src_cache s) \<longrightarrow> decode_entry X bs \<noteq> None"
    using assms(4) d unfolding cache_decodes_def by (metis map_of_is_SomeI)
  from export_list [OF this d] obtain out f where
    out: "entries X s = Some out" and keys: "map fst out = map fst (filter f (src_cache s))"
    and m: "snapshot_map out = (\<lambda>k. case bt_get (src_cache s) k of Some (Some (bs, lu)) \<Rightarrow>
              map_option (\<lambda>e. (e, lu)) (decode_entry X bs) | _ \<Rightarrow> None)"
    unfolding entries_def by blast
  have "sorted_wrt (key_lt X) (map fst out)" "distinct (map fst out)"
    using assms(3) d unfolding keys cache_sorted_def bt_sorted_def
    by (auto simp: sorted_wrt_map sorted_wrt_filter distinct_map_filter)
  moreover have "snapshot_map out = (\<lambda>k. known_entry (known X s k))"
    by (auto simp: m known_def known_entry_def fun_eq_iff split: option.splits)
  ultimately show ?thesis using out by blast
qed

text \<open>Preloading a snapshot: the last entry of a key wins.\<close>

lemma preload_known:
  "entry_codec_ok X \<Longrightarrow> preload X es s = Some s' \<Longrightarrow>
     known X s' = (\<lambda>k. case snapshot_map (rev es) k of Some v \<Rightarrow> Some (Some v) | None \<Rightarrow> known X s k)
     \<and> src_fetch_count s' = src_fetch_count s \<and> src_fetch_mode s' = src_fetch_mode s
     \<and> src_client s' = src_client s \<and> cache_keys s' = cache_keys s \<union> fst ` set es"
proof (induction X es s rule: preload.induct)
  case (2 X key entry lu rest s)
  then show ?case
    by (auto simp: known_cache_insert decode_encode map_add_def fun_eq_iff split: option.splits if_splits)
qed simp

lemma preload_sorted:
  "key_order_ok K X \<Longrightarrow> fst ` set es \<subseteq> K \<Longrightarrow> cache_keys s \<subseteq> K \<Longrightarrow> cache_sorted X s \<Longrightarrow>
     preload X es s = Some s' \<Longrightarrow> cache_sorted X s'"
proof (induction X es s rule: preload.induct)
  case (2 X key entry lu rest s)
  then show ?case by (auto simp: cache_sorted_insert split: option.splits)
qed simp

lemma preload_decodes:
  "entry_codec_ok X \<Longrightarrow> cache_decodes X s \<Longrightarrow> preload X es s = Some s' \<Longrightarrow> cache_decodes X s'"
proof (induction X es s rule: preload.induct)
  case (2 X key entry lu rest s)
  have "cache_decodes X (cache_insert X key (Some (bs, lu)) s)" if "encode_entry X entry = Some bs" for bs
    using 2 that by (intro cache_decodes_insert) (auto simp: decode_encode)
  with 2 show ?case by (auto split: option.splits)
qed simp

lemma source_new_facts [simp]:
  "known X (source_new c) k = None" "cache_decodes X (source_new c)" "cache_sorted X (source_new c)"
  "cache_keys (source_new c) = {}"
  by (simp_all add: source_new_def known_def cache_decodes_def cache_sorted_def cache_keys_def bt_sorted_def)

section \<open>The cost of a read\<close>

lemma snapshot_get_cost:
  assumes "snapshot_get X key (s, w) = Some (v, s', w')"
  shows "(bt_get (src_cache s) key \<noteq> None \<and> s' = s \<and> w' = w)
    \<or> (bt_get (src_cache s) key = None \<and> bt_get (src_cache s') key \<noteq> None
       \<and> src_fetch_count s' = src_fetch_count s + 1
       \<and> w_sent w' \<le> w_sent w + unat (rpc_retries (rc_config (src_client s))) + 1)"
proof (cases "bt_get (src_cache s) key")
  case None
  with assms have f: "fetch_from_rpc X key (s, w) = Some (v, s', w')"
    by (simp add: snapshot_get_def)
  from fetch_from_rpcD [OF f] obtain r
    where m: "memoise X key v (s\<lparr>src_fetch_count := src_fetch_count s + 1\<rparr>) = Some s'"
      and e: "fetch_entry X (src_client s) key w = Some (r, w')"
    by blast
  from m have "bt_get (src_cache s') key \<noteq> None" "src_fetch_count s' = src_fetch_count s + 1"
    by (auto simp: memoise_def split: option.splits prod.splits)
  with None fetch_entry_sent [OF e] show ?thesis by simp
next
  case (Some c)
  with assms show ?thesis by (cases c) (auto simp: snapshot_get_def split: prod.splits)
qed

definition cached :: "source \<Rightarrow> ledger_key set" where
  "cached s = dom (bt_get (src_cache s))"

lemma finite_cached [simp]: "finite (cached s)"
  by (simp add: cached_def finite_dom_map_of)

lemma cached_insert [simp]: "cached (cache_insert X k v s) = insert k (cached s)"
  by (auto simp: cached_def domIff)

lemma memoise_cached: "memoise X k v s = Some s' \<Longrightarrow> cached s' = insert k (cached s)"
  by (auto simp: memoise_def split: option.splits prod.splits)

lemma cached_fetch_count [simp]: "cached (s\<lparr>src_fetch_count := n\<rparr>) = cached s"
  by (simp add: cached_def)

text \<open>The budget of a step from \<open>s\<close> to \<open>s'\<close>: one fetch, of at most \<open>retries + 1\<close>
  exchanges, per key that is new in the cache.\<close>

definition fetch_budget :: "source \<times> rpc_world \<Rightarrow> source \<times> rpc_world \<Rightarrow> bool" where
  "fetch_budget sw sw' \<longleftrightarrow>
     cached (fst sw) \<subseteq> cached (fst sw') \<and> src_client (fst sw') = src_client (fst sw)
     \<and> unat (src_fetch_count (fst sw'))
        = unat (src_fetch_count (fst sw)) + card (cached (fst sw') - cached (fst sw))
     \<and> w_sent (snd sw') \<le> w_sent (snd sw)
        + (unat (rpc_retries (rc_config (src_client (fst sw)))) + 1)
          * card (cached (fst sw') - cached (fst sw))"

lemma fetch_budget_refl: "fetch_budget sw sw"
  by (simp add: fetch_budget_def)

lemma fetch_budget_trans:
  assumes "fetch_budget a b" "fetch_budget b c"
  shows "fetch_budget a c"
proof -
  let ?A = "cached (fst a)" and ?B = "cached (fst b)" and ?C = "cached (fst c)"
  have "?C - ?A = (?C - ?B) \<union> (?B - ?A)"
    using assms by (auto simp: fetch_budget_def)
  then have "card (?C - ?A) = card (?C - ?B) + card (?B - ?A)"
    by (simp add: card_Un_disjoint disjoint_iff)
  then show ?thesis
    using assms by (auto simp: fetch_budget_def algebra_simps)
qed

lemma snapshot_get_budget:
  assumes "overflow_checks X" "snapshot_get X key sw = Some (v, sw')"
  shows "fetch_budget sw sw'"
proof -
  obtain s w s' w' where sw: "sw = (s, w)" "sw' = (s', w')" by force
  from snapshot_get_cost [OF assms(2) [unfolded sw]] show ?thesis
  proof
    assume miss: "bt_get (src_cache s) key = None \<and> bt_get (src_cache s') key \<noteq> None
      \<and> src_fetch_count s' = src_fetch_count s + 1
      \<and> w_sent w' \<le> w_sent w + unat (rpc_retries (rc_config (src_client s))) + 1"
    with assms(2) have f: "fetch_from_rpc X key (s, w) = Some (v, s', w')"
      by (simp add: snapshot_get_def sw)
    then have "src_fetch_count s \<noteq> - 1"
      using assms(1) by (auto simp: fetch_from_rpc_def)
    then have "unat (src_fetch_count s') = unat (src_fetch_count s) + 1"
      using miss by (metis unatSuc add.commute add_eq_0_iff Suc_eq_plus1)
    moreover from fetch_from_rpcD [OF f] memoise_cached memoise_frame
    have "cached s' = insert key (cached s)" "src_client s' = src_client s" by fastforce+
    moreover have "key \<notin> cached s" using miss by (simp add: cached_def domIff)
    ultimately show ?thesis
      using miss by (auto simp: fetch_budget_def sw insert_Diff_if)
  qed (simp add: sw fetch_budget_refl)
qed

section \<open>A source that does not panic\<close>

locale live_source = snapshot_source +
  fixes alive :: "'s \<Rightarrow> bool"
  assumes get_alive: "ok s \<Longrightarrow> alive s \<Longrightarrow> \<exists>v s'. get k s = Some (v, s') \<and> alive s'"
begin

lemma run_alive: "ok s \<Longrightarrow> alive s \<Longrightarrow> \<exists>out s'. run_host p get s = Some (out, s') \<and> alive s'"
proof (induction p arbitrary: s)
  case (HostGet key cont)
  obtain v s1 where g: "get key s = Some (v, s1)" "alive s1"
    using get_alive [OF HostGet.prems] by blast
  from HostGet.IH [OF _ get_ok [OF HostGet.prems(1) g(1)] g(2), of "cont v"] g(1) show ?case by simp
qed simp

end

text \<open>What the upstream sends and decodes can be encoded again.\<close>

definition decoded_encodes :: "ext_lib \<Rightarrow> bool" where
  "decoded_encodes X \<longleftrightarrow>
     (\<forall>b d m. data_from_xdr X b = Inr d \<longrightarrow>
        encode_entry X \<lparr> le_last_modified = m, le_data = d, le_ext = ExtV0 \<rparr> \<noteq> None)"

definition lenient :: "source \<Rightarrow> bool" where
  "lenient s \<longleftrightarrow> src_fetch_mode s = Lenient \<and> rpc_max_keys_per_request (rc_config (src_client s)) \<noteq> 0"

definition source_alive :: "ext_lib \<Rightarrow> source \<times> rpc_world \<Rightarrow> bool" where
  "source_alive X sw \<longleftrightarrow> \<not> overflow_checks X \<and> decoded_encodes X \<and> lenient (fst sw)"

lemma lenient_frame [simp]:
  "lenient (cache_insert X k v s) = lenient s" "lenient (s\<lparr>src_fetch_count := n\<rparr>) = lenient s"
  by (simp_all add: lenient_def)

lemma memoise_lenient: "memoise X k v s = Some s' \<Longrightarrow> lenient s \<Longrightarrow> lenient s'"
  by (auto simp: memoise_def split: option.splits prod.splits)

lemma bump_account_seq_lenient: "lenient (snd (bump_account_seq X a s)) = lenient s"
proof -
  obtain r s' where b: "bump_account_seq X a s = (r, s')" by force
  then have "lenient s' = lenient s" by (cases rule: bump_account_seq_cases) simp_all
  with b show ?thesis by simp
qed

lemma apply_changes_lenient: "apply_changes X cs s = Some (n, s') \<Longrightarrow> lenient s' = lenient s"
  by (auto simp: apply_changes_def lenient_def dest: apply_changes_from_known)

lemma fetch_from_rpc_alive:
  assumes "source_alive X (s, w)"
  shows "\<exists>v s' w'. fetch_from_rpc X key (s, w) = Some (v, s', w') \<and> lenient s'"
proof -
  let ?s = "s\<lparr>src_fetch_count := src_fetch_count s + 1\<rparr>"
  have a: "\<not> overflow_checks X" "decoded_encodes X" "lenient s" using assms by (simp_all add: source_alive_def)
  then obtain r w' where f: "fetch_entry X (src_client s) key w = Some (r, w')"
    using fetch_entry_total [of X "src_client s"] by (fastforce simp: lenient_def)
  have "\<exists>s'. memoise X key (case r of Inr found \<Rightarrow> map_option (\<lambda>f. (fe_entry f, fe_live_until f)) found
      | Inl e \<Rightarrow> None) ?s = Some s'"
  proof (cases r)
    case (Inr found)
    with f a(2) show ?thesis
      by (cases found) (auto simp: memoise_def decoded_encodes_def dest!: fetch_entry_decoded)
  qed (simp add: memoise_def)
  then obtain s' where m: "memoise X key (case r of Inr found \<Rightarrow> map_option (\<lambda>f. (fe_entry f, fe_live_until f)) found
      | Inl e \<Rightarrow> None) ?s = Some s'" by blast
  have "lenient s'" using memoise_lenient [OF m] a(3) by simp
  with f m a show ?thesis
    by (cases r) (auto simp: fetch_from_rpc_def Let_def lenient_def)
qed

interpretation snapl: live_source "snapshot_get X" "\<lambda>sw. known X (fst sw)" "source_ok X" "source_alive X" for X
proof (unfold_locales, goal_cases)
  case (1 sw k)
  obtain s w where sw: "sw = (s, w)" by force
  show ?case
  proof (cases "bt_get (src_cache s) k")
    case None
    with fetch_from_rpc_alive [of X s w k] 1 show ?thesis
      by (auto simp: sw snapshot_get_def source_alive_def)
  next
    case (Some c)
    with 1 have "known X s k \<noteq> None"
      by (intro decodes_known) (simp_all add: source_ok_def sw)
    with 1 show ?thesis by (auto simp: sw known_hit)
  qed
qed

section \<open>Properties\<close>

text \<open>
  C1: A host run is reproducible: replayed on the state it left, whatever the upstream would
  answer by then, it asks nothing upstream, changes nothing and ends with the same outcome.
\<close>

theorem host_run_replays:
  assumes "entry_codec_ok X" "cache_decodes X s"
    "run_host p (snapshot_get X) (s, w) = Some (out, s', w')"
  shows "run_host p (snapshot_get X) (s', w2) = Some (out, s', w2)"
proof -
  have ok: "source_ok X (s, w)" using assms(1,2) by (simp add: source_ok_def)
  have "source_ok X (s', w2)"
    using snap.run_ok [OF ok assms(3)] by (simp add: source_ok_def)
  from snap.run_transfer [OF ok assms(3) this] show ?thesis by simp
qed


text \<open>
  C28: Writing back the changes of a host run refines the update of the abstract map, change by
  change in order: a read-only change does nothing, a new value (with its new TTL, or none)
  replaces what was known, a removal makes the key known to be absent. The count returned is
  the number of changes written.
\<close>

theorem apply_changes_refines:
  assumes "apply_changes X changes s = Some (n, s')"
  shows "known X s' = foldl (change_effect X) (known X s) changes
    \<and> unat n = min (length (filter (\<lambda>c. \<not> lc_read_only c) changes)) (2 ^ 32 - 1)
    \<and> src_fetch_count s' = src_fetch_count s \<and> src_client s' = src_client s"
  using apply_changes_from_known [OF assms [unfolded apply_changes_def]]
    sat_add_fold [of 0 "filter (\<lambda>c. \<not> lc_read_only c) changes"]
  by simp

text \<open>
  The changes of a host run, whose keys and values decode, are always written back
  without a panic, and leave a cache in which every value decodes.
\<close>

lemma apply_changes_total:
  assumes "changes_decode X changes" "cache_decodes X s"
  shows "\<exists>n s'. apply_changes X changes s = Some (n, s') \<and> cache_decodes X s'"
  using apply_changes_from_total [OF assms] by (simp add: apply_changes_def)

text \<open>
  A snapshot preloaded into a fresh source and exported again comes back as the same map
  (the last entry of a key wins), in key order, each key once, with no fetch counted.
\<close>

lemma preload_entries:
  assumes "entry_codec_ok X" "key_order_ok K X" "fst ` set es \<subseteq> K"
    "preload X es (source_new c) = Some s"
  shows "\<exists>out. entries X s = Some out \<and> sorted_wrt (key_lt X) (map fst out)
    \<and> distinct (map fst out) \<and> snapshot_map out = snapshot_map (rev es) \<and> fetch_count s = 0"
proof -
  from preload_known [OF assms(1,4)] assms(3)
  have k: "known X s = (\<lambda>k. map_option Some (snapshot_map (rev es) k))"
    and c: "src_fetch_count s = 0" "cache_keys s \<subseteq> K"
    by (auto simp: source_new_def cache_keys_def fun_eq_iff known_def split: option.splits)
  have "cache_sorted X s" by (rule preload_sorted [OF assms(2,3) _ _ assms(4)]) simp_all
  moreover have "cache_decodes X s" by (rule preload_decodes [OF assms(1) _ assms(4)]) simp
  ultimately obtain out where "entries X s = Some out" "sorted_wrt (key_lt X) (map fst out)"
    "distinct (map fst out)" "snapshot_map out = (\<lambda>k. known_entry (known X s k))"
    using entries_known [OF assms(2) c(2)] by blast
  then show ?thesis
    using c(1) by (auto simp: k known_entry_def fetch_count_def fun_eq_iff split: option.splits)
qed

text \<open>
  \<open>bump_account_seq\<close> adds one to the sequence number of a known account and keeps every
  other field, its TTL and every other key; without a known account it changes nothing.
\<close>

lemma bump_account_seq_spec:
  assumes "entry_codec_ok X" "bump_account_seq X a s = (r, s')"
  shows "case known X s (KeyAccount a) of
      Some (Some (e, lu)) \<Rightarrow>
        (case le_data e of
           DataAccount acc \<Rightarrow>
             (let e' = e\<lparr>le_data := DataAccount (acc\<lparr>ae_seq_num := ae_seq_num acc + 1\<rparr>)\<rparr>
              in case encode_entry X e' of
                   Some _ \<Rightarrow> r = Some (ae_seq_num acc + 1)
                     \<and> known X s' = (known X s)(KeyAccount a \<mapsto> Some (e', lu))
                 | None \<Rightarrow> r = None \<and> s' = s)
         | _ \<Rightarrow> r = None \<and> s' = s)
    | _ \<Rightarrow> r = None \<and> s' = s"
  using assms
  by (auto simp: bump_account_seq_def known_def [of X s] decode_entry_def encode_entry_def Let_def
      known_cache_insert entry_codec_ok_def
      split: option.splits prod.splits sum.splits ledger_entry_data.splits)

section \<open>At a concrete input\<close>

definition sample_source :: source where
  "sample_source = with_fetch_mode Lenient (source_new sample_client)"

definition sample_prog :: host_prog where
  "sample_prog =
     HostGet (KeyContractCode [7]) (\<lambda>v. HostGet (KeyContractCode [7]) (\<lambda>_.
       HostDone \<lparr> ho_result = Inl (if v = None then ''absent'' else ''present''),
                  ho_diagnostic_events = [], ho_mem_bytes = None \<rparr>))"

lemma sample_codecs [simp]: "entry_codec_ok sample_lib" "key_codec_ok sample_lib"
  by (simp_all add: sample_entry_codec sample_key_codec sample_lib_def)

lemma sample_outcome:
  "attempt_outcome sample_lib sample_client dec req i = Inl (Retry (Transport ''refused''))"
  by (simp add: attempt_outcome_def classify_response_def sample_lib_def from_reqwest_error_def)

lemma sample_loop:
  "fst (rpc_loop sample_lib sample_client dec req 3 None [0..<3] w) = Inl (Transport ''refused'')"
proof -
  have out: "map (attempt_outcome sample_lib sample_client dec req) [w_sent w..<w_sent w + (3 - 0)]
      = replicate 3 (Inl (Retry (Transport ''refused'')))"
    by (rule nth_equalityI) (simp_all add: sample_outcome)
  show ?thesis
    unfolding rpc_loop_decided [OF zero_le] out by (simp add: numeral_3_eq_3)
qed

lemma sample_rpc_call:
  "\<exists>w'. rpc_call sample_lib sample_client d method params w = Some (Inl (Transport ''refused''), w')"
proof -
  let ?r = "rpc_loop sample_lib sample_client (dec_rpc_response d) (rpc_request_json method params)
      3 None [0..<3] w"
  have "rpc_post sample_lib sample_client d method params w = Some ?r"
    by (simp add: rpc_post_def total_attempts_def sample_client_def)
  moreover obtain w' where "?r = (Inl (Transport ''refused''), w')"
    using sample_loop by (metis prod.collapse)
  ultimately show ?thesis by (simp add: rpc_call_def)
qed

lemma sample_fetch:
  "\<exists>w'. fetch_entry sample_lib sample_client (KeyContractCode h) w = Some (Inl (Transport ''refused''), w')"
proof -
  obtain w' where "rpc_call sample_lib sample_client dec_get_ledger_entries_result ''getLedgerEntries''
      (JObject [(''keys'', JArray [JString (b64_encode sample_lib (1 # h))])]) w
      = Some (Inl (Transport ''refused''), w')"
    using sample_rpc_call by blast
  then show ?thesis
    by (simp add: fetch_entry_def fetch_entries_def chunks_singleton encode_key_def)
       (simp add: sample_lib_def sample_client_def rpc_config_default_def chunks_singleton)
qed

lemma sample_source_simps [simp]:
  "src_cache sample_source = []" "src_client sample_source = sample_client"
  "src_fetch_count sample_source = 0" "src_fetch_mode sample_source = Lenient"
  by (simp_all add: sample_source_def with_fetch_mode_def source_new_def)

definition sample_after :: source where
  "sample_after =
     cache_insert sample_lib (KeyContractCode [7]) None (sample_source\<lparr>src_fetch_count := 1\<rparr>)"

lemma sample_run:
  "\<exists>w'. run_host sample_prog (snapshot_get sample_lib) (sample_source, w) =
     Some (\<lparr> ho_result = Inl ''absent'', ho_diagnostic_events = [], ho_mem_bytes = None \<rparr>,
       sample_after, w')"
proof -
  obtain w' where f: "fetch_entry sample_lib sample_client (KeyContractCode [7]) w
      = Some (Inl (Transport ''refused''), w')"
    using sample_fetch by blast
  have "snapshot_get sample_lib (KeyContractCode [7]) (sample_source, w) = Some (None, sample_after, w')"
    by (simp add: snapshot_get_def fetch_from_rpc_def Let_def memoise_def f sample_after_def)
  moreover have "snapshot_get sample_lib (KeyContractCode [7]) (sample_after, w')
      = Some (None, sample_after, w')"
    by (simp add: snapshot_get_def sample_after_def)
  ultimately show ?thesis by (simp add: sample_prog_def)
qed

lemma sample_source_decodes [simp]: "cache_decodes X sample_source"
  by (simp add: cache_decodes_def)

theorem host_run_replays_witness:
  "\<exists>out w'. run_host sample_prog (snapshot_get sample_lib) (sample_source, sample_world)
       = Some (out, sample_after, w')
     \<and> run_host sample_prog (snapshot_get sample_lib) (sample_after, sample_world)
       = Some (out, sample_after, sample_world)"
proof -
  obtain out w' where r: "run_host sample_prog (snapshot_get sample_lib) (sample_source, sample_world)
       = Some (out, sample_after, w')"
    using sample_run by blast
  from host_run_replays [OF _ _ r] r show ?thesis by auto
qed


definition sample_changes :: "ledger_entry_change list" where
  "sample_changes =
     [\<lparr> lc_read_only = True, lc_encoded_key = [9], lc_encoded_new_value = None, lc_ttl_new_live_until = None \<rparr>,
      \<lparr> lc_read_only = False, lc_encoded_key = [1, 7], lc_encoded_new_value = Some [0, 5],
        lc_ttl_new_live_until = Some 90 \<rparr>,
      \<lparr> lc_read_only = False, lc_encoded_key = [1, 8], lc_encoded_new_value = None,
        lc_ttl_new_live_until = None \<rparr>]"

theorem apply_changes_refines_witness:
  "\<exists>n s'. apply_changes sample_lib sample_changes sample_source = Some (n, s') \<and> unat n = 2
     \<and> known sample_lib s' (KeyContractCode [7]) = Some (Some (sample_entry (DataOther [5]), Some 90))
     \<and> known sample_lib s' (KeyContractCode [8]) = Some None"
proof -
  obtain n s' where a: "apply_changes sample_lib sample_changes sample_source = Some (n, s')"
    by (simp add: apply_changes_def sample_changes_def sample_lib_simps)
  from apply_changes_refines [OF a] a show ?thesis
    by (simp add: sample_changes_def change_effect_def decode_entry_def sample_lib_simps)
qed

end
