(* ===== verification/Fees.thy ===== *)
theory Fees
  imports Source
begin

text \<open>
  The resource-fee schedule, \<open>src/fees.rs\<close>: six configuration entries are read through the
  ledger source and decoded into one \<open>fee_configuration\<close>. The definitions take the source's
  \<open>get\<close>, so their lemmas are proved in the locale \<open>snapshot_source\<close>.
\<close>

definition fee_configuration_default :: fee_configuration where
  "fee_configuration_default =
     \<lparr> fc_fee_per_instruction_increment = 0, fc_fee_per_disk_read_entry = 0,
       fc_fee_per_write_entry = 0, fc_fee_per_disk_read_1kb = 0, fc_fee_per_write_1kb = 0,
       fc_fee_per_historical_1kb = 0, fc_fee_per_contract_event_1kb = 0,
       fc_fee_per_transaction_size_1kb = 0 \<rparr>"

definition fee_fetch_error :: "ext_lib \<Rightarrow> config_setting_id \<Rightarrow> string \<Rightarrow> fork_error" where
  "fee_fetch_error X i what =
     HostError (''fee config fetch ('' @ debug_setting_id X i @ ''): '' @ what)"

text \<open>The \<open>match\<close> on the setting's variant; \<open>None\<close> is the variant with no fee in it.\<close>

fun set_fee :: "config_setting_entry \<Rightarrow> fee_configuration \<Rightarrow> fee_configuration option" where
  "set_fee (CfgComputeV0 r _) cfg = Some (cfg\<lparr>fc_fee_per_instruction_increment := r\<rparr>)"
| "set_fee (CfgLedgerCostV0 dr wr dr1 _) cfg =
     Some (cfg\<lparr>fc_fee_per_disk_read_entry := dr, fc_fee_per_write_entry := wr,
               fc_fee_per_disk_read_1kb := dr1\<rparr>)"
| "set_fee (CfgLedgerCostExtV0 wr1 _) cfg = Some (cfg\<lparr>fc_fee_per_write_1kb := wr1\<rparr>)"
| "set_fee (CfgHistoricalDataV0 h1) cfg = Some (cfg\<lparr>fc_fee_per_historical_1kb := h1\<rparr>)"
| "set_fee (CfgEventsV0 e1 _) cfg = Some (cfg\<lparr>fc_fee_per_contract_event_1kb := e1\<rparr>)"
| "set_fee (CfgBandwidthV0 b1 _) cfg = Some (cfg\<lparr>fc_fee_per_transaction_size_1kb := b1\<rparr>)"
| "set_fee (CfgOther _) cfg = None"

text \<open>What \<open>apply_setting\<close> does with the answer of \<open>source.get\<close>.\<close>

definition use_setting ::
  "ext_lib \<Rightarrow> config_setting_id \<Rightarrow> fee_configuration \<Rightarrow> live_entry option
    \<Rightarrow> fork_error + fee_configuration" where
  "use_setting X i cfg resolved =
     (case resolved of
        None \<Rightarrow> Inl (fee_fetch_error X i ''config setting absent on the ledger'')
      | Some (entry, _) \<Rightarrow>
          (case le_data entry of
             DataConfigSetting setting \<Rightarrow>
               (case set_fee setting cfg of
                  Some cfg' \<Rightarrow> Inr cfg'
                | None \<Rightarrow> Inl (fee_fetch_error X i (''unexpected variant '' @ debug_setting X setting)))
           | other \<Rightarrow>
               Inl (fee_fetch_error X i (''expected ConfigSetting entry, got '' @ debug_data X other))))"

definition apply_setting ::
  "ext_lib \<Rightarrow> (ledger_key \<Rightarrow> 's \<Rightarrow> (live_entry option \<times> 's) option) \<Rightarrow> config_setting_id
    \<Rightarrow> fee_configuration \<Rightarrow> 's \<Rightarrow> ((fork_error + fee_configuration) \<times> 's) option" where
  "apply_setting X get i cfg s =
     (case get (KeyConfigSetting i) s of
        None \<Rightarrow> None
      | Some (resolved, s') \<Rightarrow> Some (use_setting X i cfg resolved, s'))"

fun apply_settings ::
  "ext_lib \<Rightarrow> (ledger_key \<Rightarrow> 's \<Rightarrow> (live_entry option \<times> 's) option) \<Rightarrow> config_setting_id list
    \<Rightarrow> fee_configuration \<Rightarrow> 's \<Rightarrow> ((fork_error + fee_configuration) \<times> 's) option" where
  "apply_settings X get [] cfg s = Some (Inr cfg, s)"
| "apply_settings X get (i # ids) cfg s =
     (case apply_setting X get i cfg s of
        None \<Rightarrow> None
      | Some (Inl e, s') \<Rightarrow> Some (Inl e, s')
      | Some (Inr cfg', s') \<Rightarrow> apply_settings X get ids cfg' s')"

definition fee_setting_ids :: "config_setting_id list" where
  "fee_setting_ids =
     [ContractComputeV0, ContractLedgerCostV0, ContractLedgerCostExtV0, ContractHistoricalDataV0,
      ContractEventsV0, ContractBandwidthV0]"

definition fetch_fee_configuration ::
  "ext_lib \<Rightarrow> (ledger_key \<Rightarrow> 's \<Rightarrow> (live_entry option \<times> 's) option) \<Rightarrow> 's
    \<Rightarrow> ((fork_error + fee_configuration) \<times> 's) option" where
  "fetch_fee_configuration X get s =
     apply_settings X get fee_setting_ids fee_configuration_default s"

section \<open>The schedule as a function of the ledger\<close>

fun settings_of ::
  "ext_lib \<Rightarrow> (ledger_key \<Rightarrow> live_entry option) \<Rightarrow> config_setting_id list \<Rightarrow> fee_configuration
    \<Rightarrow> fork_error + fee_configuration" where
  "settings_of X ledger [] cfg = Inr cfg"
| "settings_of X ledger (i # ids) cfg =
     res_bind (use_setting X i cfg (ledger (KeyConfigSetting i))) (settings_of X ledger ids)"

context snapshot_source
begin

lemma settings_step:
  assumes "apply_settings X get (i # ids) cfg s = Some (r, s')"
  obtains v s1 where "get (KeyConfigSetting i) s = Some (v, s1)"
    "case use_setting X i cfg v of Inl e \<Rightarrow> r = Inl e \<and> s' = s1
     | Inr cfg' \<Rightarrow> apply_settings X get ids cfg' s1 = Some (r, s')"
  using assms by (auto simp: apply_setting_def split: option.splits sum.splits)

lemma settings_ok: "ok s \<Longrightarrow> apply_settings X get ids cfg s = Some (r, s') \<Longrightarrow> ok s'"
proof (induction ids arbitrary: cfg s)
  case (Cons i ids)
  from Cons.prems(2) obtain v s1 where g: "get (KeyConfigSetting i) s = Some (v, s1)"
    and c: "case use_setting X i cfg v of Inl e \<Rightarrow> r = Inl e \<and> s' = s1
     | Inr cfg' \<Rightarrow> apply_settings X get ids cfg' s1 = Some (r, s')"
    by (rule settings_step)
  from get_ok [OF Cons.prems(1) g] Cons.IH c show ?case by (auto split: sum.splits)
qed simp

lemma settings_mono:
  "ok s \<Longrightarrow> apply_settings X get ids cfg s = Some (r, s') \<Longrightarrow> peek s k = Some x \<Longrightarrow> peek s' k = Some x"
proof (induction ids arbitrary: cfg s)
  case (Cons i ids)
  from Cons.prems(2) obtain v s1 where g: "get (KeyConfigSetting i) s = Some (v, s1)"
    and c: "case use_setting X i cfg v of Inl e \<Rightarrow> r = Inl e \<and> s' = s1
     | Inr cfg' \<Rightarrow> apply_settings X get ids cfg' s1 = Some (r, s')"
    by (rule settings_step)
  from get_mono [OF Cons.prems(1) g Cons.prems(3)] get_ok [OF Cons.prems(1) g] Cons.IH c
  show ?case by (auto split: sum.splits)
qed simp

text \<open>
  The schedule read is a function of what the final state knows, and a later read, from a
  state that knows as much, gives it again without a change.
\<close>

lemma settings_known:
  "ok s \<Longrightarrow> apply_settings X get ids cfg s = Some (r, s') \<Longrightarrow> ok t \<Longrightarrow>
   (\<And>k v. peek s' k = Some v \<Longrightarrow> peek t k = Some v) \<Longrightarrow>
   apply_settings X get ids cfg t = Some (r, t)
   \<and> settings_of X (\<lambda>k. case peek t k of Some v \<Rightarrow> v | None \<Rightarrow> None) ids cfg = r"
proof (induction ids arbitrary: cfg s)
  case (Cons i ids)
  from Cons.prems(2) obtain v s1 where g: "get (KeyConfigSetting i) s = Some (v, s1)"
    and c: "case use_setting X i cfg v of Inl e \<Rightarrow> r = Inl e \<and> s' = s1
     | Inr cfg' \<Rightarrow> apply_settings X get ids cfg' s1 = Some (r, s')"
    by (rule settings_step)
  have ok1: "ok s1" by (rule get_ok [OF Cons.prems(1) g])
  have p1: "peek s1 (KeyConfigSetting i) = Some v" by (rule get_peek [OF Cons.prems(1) g])
  then have "peek s' (KeyConfigSetting i) = Some v"
    using c settings_mono [OF ok1] by (auto split: sum.splits)
  then have pt: "peek t (KeyConfigSetting i) = Some v" by (rule Cons.prems(4))
  then have gt: "get (KeyConfigSetting i) t = Some (v, t)" by (rule get_hit [OF Cons.prems(3)])
  show ?case
  proof (cases "use_setting X i cfg v")
    case (Inl e)
    with c gt pt show ?thesis by (simp add: apply_setting_def)
  next
    case (Inr cfg')
    with c have "apply_settings X get ids cfg' s1 = Some (r, s')" by simp
    from Cons.IH [OF ok1 this Cons.prems(3,4)] Inr gt pt show ?thesis
      by (simp add: apply_setting_def)
  qed
qed simp

end

context live_source
begin

lemma settings_alive:
  "ok s \<Longrightarrow> alive s \<Longrightarrow> \<exists>r s'. apply_settings X get ids cfg s = Some (r, s') \<and> alive s'"
proof (induction ids arbitrary: cfg s)
  case (Cons i ids)
  obtain v s1 where g: "get (KeyConfigSetting i) s = Some (v, s1)" "alive s1"
    using get_alive [OF Cons.prems] by blast
  have ok1: "ok s1" by (rule get_ok [OF Cons.prems(1) g(1)])
  show ?case
  proof (cases "use_setting X i cfg v")
    case (Inr cfg')
    with Cons.IH [OF ok1 g(2), of cfg'] g(1) show ?thesis by (simp add: apply_setting_def)
  qed (use g in \<open>simp add: apply_setting_def\<close>)
qed simp

end

section \<open>Properties\<close>

text \<open>
  C37: The fee schedule is cached for ever: once \<open>fetch_fee_configuration\<close> has returned, a
  second call on the state it left returns the same value, makes no exchange and changes
  nothing; and that value is a function of the ledger the source then knows.
\<close>

theorem fee_configuration_cached:
  assumes "source_ok X (s, w)"
    "fetch_fee_configuration X (snapshot_get X) (s, w) = Some (r, s', w')"
  shows "fetch_fee_configuration X (snapshot_get X) (s', w2) = Some (r, s', w2)
    \<and> r = settings_of X (\<lambda>k. case known X s' k of Some v \<Rightarrow> v | None \<Rightarrow> None)
            fee_setting_ids fee_configuration_default"
proof -
  note a = assms(2) [unfolded fetch_fee_configuration_def]
  have "source_ok X (s', w2)"
    using snap.settings_ok [OF assms(1) a] by (simp add: source_ok_def)
  from snap.settings_known [OF assms(1) a this] show ?thesis
    by (simp add: fetch_fee_configuration_def)
qed

text \<open>
  On a ledger whose six configuration entries are each of the variant their key names,
  the schedule has every one of its eight fields from the entry that carries it.
\<close>

lemma fee_configuration_fields:
  assumes
    "ledger (KeyConfigSetting ContractComputeV0)
       = Some (\<lparr>le_last_modified = m1, le_data = DataConfigSetting (CfgComputeV0 r b1), le_ext = x1\<rparr>, t1)"
    "ledger (KeyConfigSetting ContractLedgerCostV0)
       = Some (\<lparr>le_last_modified = m2, le_data = DataConfigSetting (CfgLedgerCostV0 dr wr dr1 b2), le_ext = x2\<rparr>, t2)"
    "ledger (KeyConfigSetting ContractLedgerCostExtV0)
       = Some (\<lparr>le_last_modified = m3, le_data = DataConfigSetting (CfgLedgerCostExtV0 wr1 b3), le_ext = x3\<rparr>, t3)"
    "ledger (KeyConfigSetting ContractHistoricalDataV0)
       = Some (\<lparr>le_last_modified = m4, le_data = DataConfigSetting (CfgHistoricalDataV0 h1), le_ext = x4\<rparr>, t4)"
    "ledger (KeyConfigSetting ContractEventsV0)
       = Some (\<lparr>le_last_modified = m5, le_data = DataConfigSetting (CfgEventsV0 e1 b5), le_ext = x5\<rparr>, t5)"
    "ledger (KeyConfigSetting ContractBandwidthV0)
       = Some (\<lparr>le_last_modified = m6, le_data = DataConfigSetting (CfgBandwidthV0 s1 b6), le_ext = x6\<rparr>, t6)"
    "\<And>k. get k s = Some (ledger k, s)"
  shows "fetch_fee_configuration X get s = Some (Inr
    \<lparr> fc_fee_per_instruction_increment = r, fc_fee_per_disk_read_entry = dr, fc_fee_per_write_entry = wr,
      fc_fee_per_disk_read_1kb = dr1, fc_fee_per_write_1kb = wr1, fc_fee_per_historical_1kb = h1,
      fc_fee_per_contract_event_1kb = e1, fc_fee_per_transaction_size_1kb = s1 \<rparr>, s)"
  using assms
  by (simp add: fetch_fee_configuration_def fee_setting_ids_def apply_setting_def use_setting_def
      fee_configuration_default_def)

section \<open>At a concrete input\<close>

lemma sample_fetch_setting:
  "fetch_entry sample_lib sample_client (KeyConfigSetting i) w = Some (Inl (XdrError ''encode LedgerKey: unsupported''), w)"
  by (simp add: fetch_entry_def fetch_entries_def chunks_singleton encode_key_def sample_lib_simps
      sample_client_def rpc_config_default_def)

theorem fee_configuration_cached_witness:
  "\<exists>r s' w'. fetch_fee_configuration sample_lib (snapshot_get sample_lib) (sample_source, sample_world)
       = Some (r, s', w')
     \<and> fetch_fee_configuration sample_lib (snapshot_get sample_lib) (s', sample_world)
       = Some (r, s', sample_world)"
proof -
  obtain r s' w' where f: "fetch_fee_configuration sample_lib (snapshot_get sample_lib)
      (sample_source, sample_world) = Some (r, s', w')"
    by (simp add: fetch_fee_configuration_def fee_setting_ids_def apply_setting_def snapshot_get_def
        fetch_from_rpc_def sample_fetch_setting memoise_def use_setting_def)
  have "source_ok sample_lib (sample_source, sample_world)" by (simp add: source_ok_def)
  from fee_configuration_cached [OF this f] f show ?thesis by blast
qed

definition sample_fee_ledger :: "ledger_key \<Rightarrow> live_entry option" where
  "sample_fee_ledger k =
     map_option (\<lambda>c. (sample_entry (DataConfigSetting c), None))
       (case k of
          KeyConfigSetting ContractComputeV0 \<Rightarrow> Some (CfgComputeV0 25 [])
        | KeyConfigSetting ContractLedgerCostV0 \<Rightarrow> Some (CfgLedgerCostV0 6250 10000 1786 [])
        | KeyConfigSetting ContractLedgerCostExtV0 \<Rightarrow> Some (CfgLedgerCostExtV0 3500 [])
        | KeyConfigSetting ContractHistoricalDataV0 \<Rightarrow> Some (CfgHistoricalDataV0 16235)
        | KeyConfigSetting ContractEventsV0 \<Rightarrow> Some (CfgEventsV0 10000 [])
        | KeyConfigSetting ContractBandwidthV0 \<Rightarrow> Some (CfgBandwidthV0 1624 [])
        | _ \<Rightarrow> None)"

end
