(* ===== verification/Cache.thy ===== *)
theory Cache
  imports Source
begin

text \<open>
  The on-disk cache, \<open>src/cache.rs\<close>: loading a snapshot file, and saving one through a
  temporary sibling and a rename. A file system is the map from paths to contents; saving
  returns the file systems it goes through in order, one of which a crash leaves behind.

  Reading and writing the JSON of a \<open>LedgerSnapshot\<close> is the crate's: \<open>io_write\<close> gives the
  contents the file has while it is written, with the error that stopped the writing, if
  one did, and \<open>io_read\<close> reads a file's contents (\<open>None\<close> when there is no file).
\<close>

type_synonym fs = "path \<Rightarrow> string option"

record ledger_snapshot =
  ls_protocol_version :: u32
  ls_sequence_number :: u32
  ls_timestamp :: u64
  ls_network_id :: hash
  ls_base_reserve :: u32
  ls_min_persistent_entry_ttl :: u32
  ls_min_temp_entry_ttl :: u32
  ls_max_entry_ttl :: u32
  ls_ledger_entries :: "snapshot_entry list"

record snapshot_io =
  io_pid :: nat
  io_now :: "nat option"             \<comment> \<open>nanoseconds after the epoch; \<open>None\<close> before it\<close>
  io_write :: "ledger_snapshot \<Rightarrow> string list \<times> string option"
  io_read :: "string option \<Rightarrow> string + ledger_snapshot"
  io_rename_error :: "string option"
  io_remove_ok :: bool

definition default_base_reserve :: u32 where "default_base_reserve = 100"
definition default_min_persistent_entry_ttl :: u32 where "default_min_persistent_entry_ttl = 4096"
definition default_min_temp_entry_ttl :: u32 where "default_min_temp_entry_ttl = 16"
definition default_max_entry_ttl :: u32 where "default_max_entry_ttl = 6312000"

definition load_snapshot :: "snapshot_io \<Rightarrow> path \<Rightarrow> fs \<Rightarrow> fork_error + snapshot_entry list" where
  "load_snapshot IO path files =
     res_bind (map_err (CacheError path) (io_read IO (files path)))
       (\<lambda>snapshot. Inr (ls_ledger_entries snapshot))"

text \<open>\<open>OsStr::to_str\<close>.\<close>

definition to_str :: "string \<Rightarrow> string option" where
  "to_str s = (if utf8_valid (bytes_of_str s) then Some s else None)"

definition tmp_filename :: "path \<Rightarrow> string" where
  "tmp_filename path = unwrap_or ''snapshot'' (Option.bind (path_file_name path) to_str)"

definition tmp_name :: "snapshot_io \<Rightarrow> path \<Rightarrow> string" where
  "tmp_name IO path =
     ''.'' @ tmp_filename path @ ''.tmp.'' @ show_nat (io_pid IO) @ ''.'' @ show_nat (unwrap_or 0 (io_now IO))"

definition tmp_sibling :: "snapshot_io \<Rightarrow> path \<Rightarrow> path" where
  "tmp_sibling IO path =
     (case path_parent path of
        None \<Rightarrow> [tmp_name IO path]
      | Some p \<Rightarrow> if p = [] then [tmp_name IO path] else path_join p [tmp_name IO path])"

definition make_snapshot ::
  "snapshot_entry list \<Rightarrow> u32 \<Rightarrow> u64 \<Rightarrow> hash \<Rightarrow> u32 \<Rightarrow> ledger_snapshot" where
  "make_snapshot es sequence timestamp network_id protocol_version =
     \<lparr> ls_protocol_version = protocol_version,
       ls_sequence_number = sequence,
       ls_timestamp = timestamp,
       ls_network_id = network_id,
       ls_base_reserve = default_base_reserve,
       ls_min_persistent_entry_ttl = default_min_persistent_entry_ttl,
       ls_min_temp_entry_ttl = default_min_temp_entry_ttl,
       ls_max_entry_ttl = default_max_entry_ttl,
       ls_ledger_entries = es \<rparr>"

text \<open>\<open>std::fs::rename\<close>, atomic on POSIX, and \<open>std::fs::remove_file\<close>.\<close>

definition fs_rename :: "path \<Rightarrow> path \<Rightarrow> fs \<Rightarrow> fs" where
  "fs_rename from to files = (files(from := None))(to := files from)"

definition fs_remove :: "path \<Rightarrow> fs \<Rightarrow> fs" where
  "fs_remove p files = files(p := None)"

definition save_snapshot ::
  "snapshot_io \<Rightarrow> path \<Rightarrow> snapshot_entry list \<Rightarrow> u32 \<Rightarrow> u64 \<Rightarrow> hash \<Rightarrow> u32 \<Rightarrow> fs
    \<Rightarrow> (fork_error + unit) \<times> fs list" where
  "save_snapshot IO path es sequence timestamp network_id protocol_version files =
     (let snapshot = make_snapshot es sequence timestamp network_id protocol_version;
          tmp = tmp_sibling IO path;
          (contents, write_error) = io_write IO snapshot;
          states = files # map (\<lambda>c. files(tmp \<mapsto> c)) contents
      in case write_error of
           Some e \<Rightarrow> (Inl (CacheError tmp e), states)
         | None \<Rightarrow>
             (case io_rename_error IO of
                None \<Rightarrow> (Inr (), states @ [fs_rename tmp path (last states)])
              | Some e \<Rightarrow>
                  (Inl (CacheError path
                     (''rename '' @ path_display tmp @ '' -> '' @ path_display path @ '': '' @ e)),
                   states @ [if io_remove_ok IO then fs_remove tmp (last states) else last states])))"

section \<open>The temporary file is another file\<close>

lemma utf8_ascii: "list_all (\<lambda>b. b < 0x80) bs \<Longrightarrow> utf8_valid bs"
  by (induction bs) auto

lemma show_nat_ascii: "list_all (\<lambda>b. b < 0x80) (bytes_of_str (show_nat n))"
proof -
  have "of_char c < (0x80 :: u8)" if "c \<in> set (show_nat n)" for c
  proof -
    from show_nat_digits [OF that] obtain d where d: "d < 10" "c = digit_char d" by blast
    then have "(of_char c :: nat) < 128" by (simp add: digit_char_def)
    then show ?thesis
      by (simp add: word_less_nat_alt unat_of_char)
  qed
  then show ?thesis by (simp add: list_all_iff bytes_of_str_def)
qed

lemma tmp_name_ascii:
  "list_all (\<lambda>b. b < 0x80) (bytes_of_str (tmp_filename path)) \<Longrightarrow>
     list_all (\<lambda>b. b < 0x80) (bytes_of_str (tmp_name IO path))"
  using show_nat_ascii by (simp add: tmp_name_def bytes_of_str_def)

lemma tmp_name_ne: "path_file_name path = Some f \<Longrightarrow> tmp_name IO path \<noteq> f"
proof
  assume f: "path_file_name path = Some f" and eq: "tmp_name IO path = f"
  show False
  proof (cases "utf8_valid (bytes_of_str f)")
    case True
    with f have "tmp_filename path = f" by (simp add: tmp_filename_def to_str_def)
    with eq have "length (tmp_name IO path) = length (tmp_filename path)" by simp
    then show False by (simp add: tmp_name_def)
  next
    case False
    with f have "tmp_filename path = ''snapshot''" by (simp add: tmp_filename_def to_str_def)
    then have "list_all (\<lambda>b. b < 0x80) (bytes_of_str (tmp_name IO path))"
      by (intro tmp_name_ascii) (simp add: bytes_of_str_def)
    with eq False show False using utf8_ascii by blast
  qed
qed

lemma tmp_name_no_special: "tmp_name IO path \<noteq> ''/''" "tmp_name IO path \<noteq> ''..''"
proof -
  have "length (tmp_name IO path) > 5" by (simp add: tmp_name_def)
  then show "tmp_name IO path \<noteq> ''/''" "tmp_name IO path \<noteq> ''..''" by auto
qed

lemma last_tmp_sibling: "last (tmp_sibling IO path) = tmp_name IO path" "tmp_sibling IO path \<noteq> []"
  using tmp_name_no_special(1) [of IO path] by (simp_all add: tmp_sibling_def split: option.splits)

lemma tmp_sibling_ne: "tmp_sibling IO path \<noteq> path"
proof
  assume eq: "tmp_sibling IO path = path"
  with last_tmp_sibling [of IO path] have l: "last path = tmp_name IO path" "path \<noteq> []" by simp_all
  with tmp_name_no_special [of IO path] have "path_file_name path = Some (last path)"
    by (simp add: path_file_name_def)
  from tmp_name_ne [OF this] l(1) show False by metis
qed

section \<open>Properties\<close>

text \<open>What the code relies on of \<open>LedgerSnapshot\<close>: a write that reports no error has left a
  file that reads back as the snapshot written.\<close>

definition write_ok :: "snapshot_io \<Rightarrow> bool" where
  "write_ok IO \<longleftrightarrow>
     (\<forall>snap contents. io_write IO snap = (contents, None) \<longrightarrow>
        contents \<noteq> [] \<and> io_read IO (Some (last contents)) = Inr snap)"

text \<open>The file systems while the temporary file is written.\<close>

definition writing :: "path \<Rightarrow> string list \<Rightarrow> fs \<Rightarrow> fs list" where
  "writing tmp contents files = files # map (\<lambda>c. files(tmp \<mapsto> c)) contents"

lemma writing_frame: "f \<in> set (writing tmp contents files) \<Longrightarrow> p \<noteq> tmp \<Longrightarrow> f p = files p"
  by (auto simp: writing_def)

lemma last_writing_frame: "p \<noteq> tmp \<Longrightarrow> last (writing tmp contents files) p = files p"
  by (rule writing_frame [OF last_in_set]) (simp add: writing_def)

lemma last_writing: "contents \<noteq> [] \<Longrightarrow> last (writing tmp contents files) tmp = Some (last contents)"
  by (simp add: writing_def last_map)

lemma save_snapshot_cases:
  assumes "save_snapshot IO path es sq ts nid pv files = (r, states)"
  obtains (saved) contents where "r = Inr ()"
      "io_write IO (make_snapshot es sq ts nid pv) = (contents, None)"
      "states = writing (tmp_sibling IO path) contents files
         @ [fs_rename (tmp_sibling IO path) path (last (writing (tmp_sibling IO path) contents files))]"
    | (failed) contents rest e where "r = Inl e" "states = writing (tmp_sibling IO path) contents files @ rest"
      "set rest \<subseteq> {last (writing (tmp_sibling IO path) contents files),
         fs_remove (tmp_sibling IO path) (last (writing (tmp_sibling IO path) contents files))}"
proof -
  obtain contents err where c: "io_write IO (make_snapshot es sq ts nid pv) = (contents, err)" by force
  note d = assms [unfolded save_snapshot_def Let_def c prod.case, folded writing_def]
  show thesis
  proof (cases err)
    case (Some e)
    with d show thesis by (intro failed [of _ contents "[]"]) auto
  next
    case None
    show thesis
    proof (cases "io_rename_error IO")
      case None
      with d \<open>err = None\<close> c saved [of contents] show thesis by simp
    next
      case (Some e)
      with d \<open>err = None\<close> show thesis
        by (intro failed [of _ contents "[if io_remove_ok IO then fs_remove (tmp_sibling IO path)
          (last (writing (tmp_sibling IO path) contents files))
          else last (writing (tmp_sibling IO path) contents files)]"]) auto
    qed
  qed
qed

text \<open>
  Saving is atomic: in every file system a crash can leave behind, the cache file is
  either what it was before or the complete new snapshot, and no file other than it and its
  temporary sibling has changed. When saving fails the cache file is what it was throughout.
\<close>

lemma save_snapshot_atomic:
  assumes "write_ok IO" "save_snapshot IO path es sq ts nid pv files = (r, states)" "f \<in> set states"
  shows "(f path = files path
      \<or> r = Inr () \<and> io_read IO (f path) = Inr (make_snapshot es sq ts nid pv))
    \<and> (\<forall>p. p \<noteq> path \<and> p \<noteq> tmp_sibling IO path \<longrightarrow> f p = files p)"
proof -
  note ne = tmp_sibling_ne [of IO path, symmetric]
  from assms(2) show ?thesis
  proof (cases rule: save_snapshot_cases)
    case (saved contents)
    with assms(1) have "contents \<noteq> []" "io_read IO (Some (last contents)) = Inr (make_snapshot es sq ts nid pv)"
      by (auto simp: write_ok_def)
    with saved assms(3) ne show ?thesis
      by (auto simp: fs_rename_def last_writing last_writing_frame dest: writing_frame)
  next
    case (failed contents rest e)
    with assms(3) ne show ?thesis
      by (auto simp: fs_remove_def last_writing_frame dest: writing_frame)
  qed
qed

lemma save_then_load:
  assumes "write_ok IO" "save_snapshot IO path es sq ts nid pv files = (Inr (), states)"
  shows "load_snapshot IO path (last states) = Inr es \<and> last states (tmp_sibling IO path) = None"
  using assms(2)
proof (cases rule: save_snapshot_cases)
  case (saved contents)
  with assms(1) have "contents \<noteq> []" "io_read IO (Some (last contents)) = Inr (make_snapshot es sq ts nid pv)"
    by (auto simp: write_ok_def)
  with saved tmp_sibling_ne [of IO path] show ?thesis
    by (simp add: load_snapshot_def fs_rename_def last_writing make_snapshot_def)
qed simp

lemma save_then_exists:
  assumes "write_ok IO" "save_snapshot IO path es sq ts nid pv files = (Inr (), states)"
  shows "last states path \<noteq> None"
  using assms(2)
proof (cases rule: save_snapshot_cases)
  case (saved contents)
  with assms(1) have "contents \<noteq> []" by (auto simp: write_ok_def)
  with saved show ?thesis by (simp add: fs_rename_def last_writing)
qed simp

section \<open>At a concrete input\<close>

definition sample_snapshot :: ledger_snapshot where
  "sample_snapshot = make_snapshot [(KeyContractCode [7], sample_entry (DataOther [5]), Some 9)] 100 5 [] 23"

text \<open>A disk on which one snapshot can be written, in two steps.\<close>

definition sample_io :: snapshot_io where
  "sample_io =
     \<lparr> io_pid = 12, io_now = Some 3,
       io_write = (\<lambda>snap. if snap = sample_snapshot then ([''{'', ''{}''], None) else ([''{''], Some ''disk full'')),
       io_read = (\<lambda>c. if c = Some ''{}'' then Inr sample_snapshot else Inl ''malformed''),
       io_rename_error = None, io_remove_ok = True \<rparr>"

lemma sample_io_ok: "write_ok sample_io"
  by (simp add: write_ok_def sample_io_def)

end
