(* ===== verification/TestAccounts.thy ===== *)
theory TestAccounts
  imports Source
begin

text \<open>
  The pre-funded accounts, \<open>src/test_accounts.rs\<close>: the key material from SHA-256 and ed25519
  (of \<open>ext_lib\<close>), the account and trustline entries that are preloaded for each.
\<close>

definition usdc_mainnet_issuer :: string where
  "usdc_mainnet_issuer = ''GA5ZSEJYB37JRC5AVCIA5MOP4RHTM335X2KGX3IHOJAPP5RE34K4KZVN''"

record test_account =
  ta_secret_seed :: bytes
  ta_public_key :: bytes
  ta_balance_stroops :: i64

definition account_strkey :: "ext_lib \<Rightarrow> test_account \<Rightarrow> string" where
  "account_strkey X a = strkey_account X (ta_public_key a)"

definition secret_key_strkey :: "ext_lib \<Rightarrow> test_account \<Rightarrow> string" where
  "secret_key_strkey X a = strkey_secret X (ta_secret_seed a)"

text \<open>\<open>(fork_ledger_seq as i64) << 32\<close>.\<close>

definition initial_seq :: "u32 \<Rightarrow> i64" where
  "initial_seq fork_ledger_seq = push_bit 32 (ucast fork_ledger_seq)"

definition account_ledger_entry :: "test_account \<Rightarrow> u32 \<Rightarrow> ledger_key \<times> ledger_entry" where
  "account_ledger_entry a fork_ledger_seq =
     (let account = \<lparr> ae_account_id = ta_public_key a,
                      ae_balance = ta_balance_stroops a,
                      ae_seq_num = initial_seq fork_ledger_seq,
                      ae_num_sub_entries = 0,
                      ae_inflation_dest = None,
                      ae_flags = 0,
                      ae_home_domain = [],
                      ae_thresholds = [1, 0, 0, 0],
                      ae_signers = [],
                      ae_ext = ExtV0 \<rparr>
      in (KeyAccount (ta_public_key a),
          \<lparr> le_last_modified = fork_ledger_seq, le_data = DataAccount account, le_ext = ExtV0 \<rparr>))"

definition trustline_entry ::
  "test_account \<Rightarrow> trust_line_asset \<Rightarrow> u32 \<Rightarrow> ledger_key \<times> ledger_entry" where
  "trustline_entry a asset fork_ledger_seq =
     (let trust_line = \<lparr> tl_account_id = ta_public_key a,
                         tl_asset = asset,
                         tl_balance = 0,
                         tl_limit = 0x7FFFFFFFFFFFFFFF,
                         tl_flags = 1,
                         tl_ext = ExtV0 \<rparr>
      in (KeyTrustline (ta_public_key a) asset,
          \<lparr> le_last_modified = fork_ledger_seq, le_data = DataTrustline trust_line, le_ext = ExtV0 \<rparr>))"

text \<open>\<open>None\<close> is the panic of \<open>expect\<close>.\<close>

definition usdc_mainnet_trustline_asset :: "ext_lib \<Rightarrow> trust_line_asset option" where
  "usdc_mainnet_trustline_asset X =
     (case parse_strkey_account X usdc_mainnet_issuer of
        Inl _ \<Rightarrow> None
      | Inr issuer \<Rightarrow> Some (CreditAlphanum4 (bytes_of_str ''USDC'') issuer))"

definition default_balance_stroops :: i64 where
  "default_balance_stroops = 100000 * 10000000"

definition generate_one :: "ext_lib \<Rightarrow> nat \<Rightarrow> test_account" where
  "generate_one X i =
     (let seed = sha256 X (bytes_of_str (''soroban-fork test account '' @ show_nat i))
      in \<lparr> ta_secret_seed = seed,
           ta_public_key = ed25519_public X seed,
           ta_balance_stroops = default_balance_stroops \<rparr>)"

definition generate :: "ext_lib \<Rightarrow> nat \<Rightarrow> test_account list" where
  "generate X n = map (generate_one X) [0..<n]"

section \<open>Sequence numbers\<close>

lemma initial_seq_eq: "initial_seq s = word_of_int (int (unat s) * 2 ^ 32)"
  by (simp add: initial_seq_def push_bit_eq_mult unsigned_ucast_eq)

lemma generate_nth: "i < n \<Longrightarrow> generate X n ! i = generate_one X i"
  by (simp add: generate_def)

section \<open>Properties\<close>

text \<open>
  A test account starts at sequence number \<open>ledger_seq * 2 ^ 32\<close>, Stellar's rule, as long
  as the ledger sequence fits 31 bits; above that the shift overflows the signed 64 bits and
  the sequence number is negative.
\<close>

lemma initial_seq_bounds:
  "sint (initial_seq s) =
     (if unat s < 2 ^ 31 then int (unat s) * 2 ^ 32 else (int (unat s) - 2 ^ 32) * 2 ^ 32)"
proof -
  define k where "k = int (unat s)"
  have k: "0 \<le> k" "k < 2 ^ 32" and lt: "unat s < 2 ^ 31 \<longleftrightarrow> k < 2 ^ 31"
    using uint_lt2p [of s] unfolding k_def
    by (simp, simp, metis of_nat_less_iff of_nat_numeral of_nat_power)
  have "k * 2 ^ 32 = (k - 2 ^ 32) * 2 ^ 32 + (2 ^ 64 :: int)" by (simp add: algebra_simps)
  then have w: "(word_of_int (k * 2 ^ 32) :: i64) = word_of_int ((k - 2 ^ 32) * 2 ^ 32)"
    by (simp add: word_of_int_eq_iff take_bit_eq_mod)
  show ?thesis
  proof (cases "k < 2 ^ 31")
    case True
    with k show ?thesis
      unfolding initial_seq_eq lt k_def [symmetric] by (subst sint_of_int_i64) auto
  next
    case False
    with k show ?thesis
      unfolding initial_seq_eq lt k_def [symmetric] w by (subst sint_of_int_i64) auto
  qed
qed

end
