(* ===== verification/Trace.thy ===== *)
theory Trace
  imports Sample
begin

text \<open>
  Call-tree reconstruction, \<open>src/trace.rs\<close>: \<open>from_events\<close> walks the diagnostic events of a host
  run with a stack of open frames, and the renderers print the tree. A renderer returns
  \<open>None\<close> where the code would panic (a string slice off a character boundary).
\<close>

section \<open>Frames\<close>

datatype trace_result = Returned scval | Trapped

datatype trace_frame =
  TraceFrame (tf_contract: hash) (tf_function: string) (tf_args: "scval list")
    (tf_result: trace_result) (tf_rolled_back: bool) (tf_children: "trace_frame list")

text \<open>\<open>frame.result = ..\<close>, \<open>frame.rolled_back = true\<close> and \<open>parent.children.push(..)\<close>.\<close>

fun set_result :: "trace_result \<Rightarrow> trace_frame \<Rightarrow> trace_frame" where
  "set_result r (TraceFrame c f a _ b cs) = TraceFrame c f a r b cs"

fun set_rolled_back :: "bool \<Rightarrow> trace_frame \<Rightarrow> trace_frame" where
  "set_rolled_back v (TraceFrame c f a r b cs) = TraceFrame c f a r (v \<or> b) cs"

fun push_child :: "trace_frame \<Rightarrow> trace_frame \<Rightarrow> trace_frame" where
  "push_child child (TraceFrame c f a r b cs) = TraceFrame c f a r b (cs @ [child])"

section \<open>Parser\<close>

fun scval_as_symbol_str :: "scval \<Rightarrow> string option" where
  "scval_as_symbol_str (ScSymbol s) = from_utf8 s"
| "scval_as_symbol_str _ = None"

fun scval_as_contract :: "scval \<Rightarrow> hash option" where
  "scval_as_contract (ScBytes b) = (if length b = 32 then Some b else None)"
| "scval_as_contract _ = None"

fun unwrap_args_payload :: "scval \<Rightarrow> scval list" where
  "unwrap_args_payload ScVoid = []"
| "unwrap_args_payload (ScVec (Some v)) = v"
| "unwrap_args_payload (ScVec None) = []"
| "unwrap_args_payload single = [single]"

definition parse_fn_call :: "scval list \<Rightarrow> scval \<Rightarrow> bool \<Rightarrow> trace_frame option" where
  "parse_fn_call topics data failed =
     (if length topics < 3 then None
      else case scval_as_contract (topics ! 1) of
             None \<Rightarrow> None
           | Some contract \<Rightarrow>
               (case scval_as_symbol_str (topics ! 2) of
                  None \<Rightarrow> None
                | Some fname \<Rightarrow>
                    Some (TraceFrame contract fname (unwrap_args_payload data) Trapped failed [])))"

text \<open>The stack has its top at the head; the roots are in order.\<close>

fun attach ::
  "trace_frame list \<Rightarrow> trace_frame list \<Rightarrow> trace_frame \<Rightarrow> trace_frame list \<times> trace_frame list" where
  "attach (parent # stack) roots frame = (push_child frame parent # stack, roots)"
| "attach [] roots frame = ([], roots @ [frame])"

definition event_kind :: "host_event \<Rightarrow> string option" where
  "event_kind he =
     (if ev_type (he_event he) \<noteq> EvDiagnostic then None
      else case ev_topics (he_event he) of [] \<Rightarrow> None | t # _ \<Rightarrow> scval_as_symbol_str t)"

definition trace_step ::
  "trace_frame list \<times> trace_frame list \<Rightarrow> host_event \<Rightarrow> trace_frame list \<times> trace_frame list" where
  "trace_step sr he =
     (let (stack, roots) = sr; body = he_event he in
      if event_kind he = Some ''fn_call'' then
        (case parse_fn_call (ev_topics body) (ev_data body) (he_failed_call he) of
           None \<Rightarrow> (stack, roots)
         | Some frame \<Rightarrow> (frame # stack, roots))
      else if event_kind he = Some ''fn_return'' then
        (case stack of
           [] \<Rightarrow> (stack, roots)
         | frame # rest \<Rightarrow>
             attach rest roots
               (set_rolled_back (he_failed_call he) (set_result (Returned (ev_data body)) frame)))
      else (stack, roots))"

lemma attach_length [simp]: "length (fst (attach stack roots f)) = length stack"
  by (cases stack) simp_all

function drain_stack :: "trace_frame list \<Rightarrow> trace_frame list \<Rightarrow> trace_frame list" where
  "drain_stack [] roots = roots"
| "drain_stack (frame # stack) roots =
     drain_stack (fst (attach stack roots (set_rolled_back True (set_result Trapped frame))))
       (snd (attach stack roots (set_rolled_back True (set_result Trapped frame))))"
  by pat_completeness auto
termination
  by (relation "measure (\<lambda>(stack, roots). length stack)") (simp_all add: split_beta)

definition from_events :: "host_event list \<Rightarrow> trace_frame list" where
  "from_events events = (let (stack, roots) = foldl trace_step ([], []) events in drain_stack stack roots)"

fun count_frames :: "trace_frame \<Rightarrow> nat" where
  "count_frames (TraceFrame c f a r b cs) = 1 + sum_list (map count_frames cs)"

definition frame_count :: "trace_frame list \<Rightarrow> nat" where
  "frame_count roots = sum_list (map count_frames roots)"

fun any_failure :: "trace_frame \<Rightarrow> bool" where
  "any_failure (TraceFrame c f a r b cs) \<longleftrightarrow> b \<or> r = Trapped \<or> list_ex any_failure cs"

definition had_failures :: "trace_frame list \<Rightarrow> bool" where
  "had_failures roots \<longleftrightarrow> list_ex any_failure roots"

section \<open>Display\<close>

definition indent :: "nat \<Rightarrow> string" where
  "indent depth = concat (replicate depth ''  '')"

definition newline :: string where "newline = [CHR 0x0A]"

definition utf8_ellipsis :: string where "utf8_ellipsis = map char_of [226, 128, 166 :: nat]"
definition utf8_left_arrow :: string where "utf8_left_arrow = map char_of [226, 134, 144 :: nat]"
definition utf8_em_dash :: string where "utf8_em_dash = map char_of [226, 128, 148 :: nat]"

definition abbreviate_strkey :: "string \<Rightarrow> string option" where
  "abbreviate_strkey s =
     (if length s > 12 then
        (case (slice_to s 4, slice_from s (length s - 4)) of
           (Some a, Some b) \<Rightarrow> Some (a @ utf8_ellipsis @ b)
         | _ \<Rightarrow> None)
      else Some s)"

definition u128_from_pieces :: "u64 \<Rightarrow> u64 \<Rightarrow> u128" where
  "u128_from_pieces hi lo = push_bit 64 (ucast hi) OR ucast lo"

definition i128_from_pieces :: "i64 \<Rightarrow> u64 \<Rightarrow> i128" where
  "i128_from_pieces hi lo = push_bit 64 (scast hi) OR ucast lo"

definition render_bytes :: "bytes \<Rightarrow> string" where
  "render_bytes bs =
     (if length bs \<le> 8 * 2 then ''0x'' @ concat (map byte_02x bs)
      else ''0x'' @ concat (map byte_02x (take 8 bs)) @ utf8_ellipsis
           @ ''('' @ show_nat (length bs) @ '' bytes)'')"

definition render_address :: "ext_lib \<Rightarrow> sc_address \<Rightarrow> string option" where
  "render_address X addr =
     (case addr of
        AddrAccount a \<Rightarrow> abbreviate_strkey (strkey_account X a)
      | AddrContract h \<Rightarrow> abbreviate_strkey (strkey_contract X h)
      | AddrOther b \<Rightarrow> Some (debug_address X (AddrOther b)))"

fun comma_sep :: "string list \<Rightarrow> string" where
  "comma_sep [] = []"
| "comma_sep [a] = a"
| "comma_sep (a # b # rest) = a @ '', '' @ comma_sep (b # rest)"

definition quoted :: "string \<Rightarrow> string" where
  "quoted s = [CHR 0x22] @ s @ [CHR 0x22]"

function (sequential) render_scval :: "ext_lib \<Rightarrow> scval \<Rightarrow> string option"
  and render_map :: "ext_lib \<Rightarrow> (scval \<times> scval) list \<Rightarrow> string list option"
  and render_vals :: "ext_lib \<Rightarrow> scval list \<Rightarrow> string list option" where
  "render_scval X ScVoid = Some ''()''"
| "render_scval X (ScBool b) = Some (if b then ''true'' else ''false'')"
| "render_scval X (ScU32 n) = Some (show_u n)"
| "render_scval X (ScI32 n) = Some (show_s n)"
| "render_scval X (ScU64 n) = Some (show_u n)"
| "render_scval X (ScI64 n) = Some (show_s n)"
| "render_scval X (ScU128 hi lo) = Some (show_u (u128_from_pieces hi lo))"
| "render_scval X (ScI128 hi lo) = Some (show_s (i128_from_pieces hi lo))"
| "render_scval X (ScSymbol s) = Some (unwrap_or ''Symbol(<non-utf8>)'' (from_utf8 s))"
| "render_scval X (ScString s) =
     Some (case from_utf8 s of Some text \<Rightarrow> quoted text | None \<Rightarrow> ''String(<non-utf8>)'')"
| "render_scval X (ScBytes b) = Some (render_bytes b)"
| "render_scval X (ScAddress addr) = render_address X addr"
| "render_scval X (ScVec None) = Some ''[]''"
| "render_scval X (ScVec (Some v)) =
     map_option (\<lambda>es. ''['' @ comma_sep es @ '']'') (render_vals X v)"
| "render_scval X (ScMap None) = Some ''{}''"
| "render_scval X (ScMap (Some m)) =
     map_option (\<lambda>es. ''{'' @ comma_sep es @ ''}'') (render_map X m)"
| "render_scval X (ScContractInstance e m) = Some (debug_scval X (ScContractInstance e m))"
| "render_scval X ScLedgerKeyContractInstance = Some (debug_scval X ScLedgerKeyContractInstance)"
| "render_scval X (ScOther b) = Some (debug_scval X (ScOther b))"
| "render_map X [] = Some []"
| "render_map X ((k, v) # m) =
     (case (render_scval X k, render_scval X v) of
        (Some a, Some b) \<Rightarrow> map_option (\<lambda>es. (a @ '': '' @ b) # es) (render_map X m)
      | _ \<Rightarrow> None)"
| "render_vals X [] = Some []"
| "render_vals X (v # vs) =
     (case render_scval X v of
        None \<Rightarrow> None
      | Some a \<Rightarrow> map_option (\<lambda>es. a # es) (render_vals X vs))"
  by pat_completeness auto
termination
  by (relation "measure (case_sum (\<lambda>(X, v). size v)
        (case_sum (\<lambda>(X, m). size_list (size_prod size size) m) (\<lambda>(X, vs). size_list size vs)))") auto

definition render_result :: "ext_lib \<Rightarrow> nat \<Rightarrow> trace_result \<Rightarrow> string option" where
  "render_result X depth r =
     (case r of
        Returned v \<Rightarrow>
          map_option (\<lambda>t. indent (depth + 1) @ utf8_left_arrow @ '' '' @ t @ newline) (render_scval X v)
      | Trapped \<Rightarrow> Some (indent (depth + 1) @ utf8_left_arrow @ '' TRAPPED (no fn_return)'' @ newline))"

fun render_frame :: "ext_lib \<Rightarrow> trace_frame \<Rightarrow> nat \<Rightarrow> string option"
  and render_frames :: "ext_lib \<Rightarrow> trace_frame list \<Rightarrow> nat \<Rightarrow> string option" where
  "render_frame X (TraceFrame contract fname args r rolled children) depth =
     (case (abbreviate_strkey (strkey_contract X contract), render_vals X args,
            render_frames X children (depth + 1), render_result X depth r) of
        (Some short, Some ts, Some cs, Some res) \<Rightarrow>
          Some (indent depth @ ''['' @ short @ ''] '' @ fname @ ''('' @ comma_sep ts @ '')''
                @ (if rolled then '' [rolled back]'' else []) @ newline @ cs @ res)
      | _ \<Rightarrow> None)"
| "render_frames X [] depth = Some []"
| "render_frames X (f # fs) depth =
     (case (render_frame X f depth, render_frames X fs depth) of
        (Some a, Some b) \<Rightarrow> Some (a @ b)
      | _ \<Rightarrow> None)"

definition render_trace :: "ext_lib \<Rightarrow> trace_frame list \<Rightarrow> string option" where
  "render_trace X roots =
     (if roots = [] then
        Some (''[TRACE] (empty '' @ utf8_em_dash
              @ '' was tracing(true) set on ForkConfig before invoke?)'' @ newline)
      else map_option (\<lambda>t. ''[TRACE]'' @ newline @ t) (render_frames X roots 1))"

section \<open>What the host emits for a call tree\<close>

text \<open>
  The wire format of the header of \<open>src/trace.rs\<close>: \<open>fn_call\<close> with the callee, the function
  and the packed arguments, then the events of the calls it makes, then \<open>fn_return\<close>.
\<close>

fun pack_args :: "scval list \<Rightarrow> scval" where
  "pack_args [] = ScVoid"
| "pack_args [a] = a"
| "pack_args as = ScVec (Some as)"

definition diag :: "hash option \<Rightarrow> scval list \<Rightarrow> scval \<Rightarrow> bool \<Rightarrow> host_event" where
  "diag contract topics data failed =
     \<lparr> he_event = \<lparr> ev_contract_id = contract, ev_type = EvDiagnostic, ev_topics = topics, ev_data = data \<rparr>,
       he_failed_call = failed \<rparr>"

definition sym :: "string \<Rightarrow> scval" where
  "sym s = ScSymbol (bytes_of_str s)"

definition ev_call :: "hash option \<Rightarrow> hash \<Rightarrow> string \<Rightarrow> scval list \<Rightarrow> bool \<Rightarrow> host_event" where
  "ev_call caller callee fname args failed =
     diag caller [sym ''fn_call'', ScBytes callee, sym fname] (pack_args args) failed"

definition ev_return :: "hash \<Rightarrow> string \<Rightarrow> scval \<Rightarrow> bool \<Rightarrow> host_event" where
  "ev_return callee fname v failed = diag (Some callee) [sym ''fn_return'', sym fname] v failed"

fun emit :: "hash option \<Rightarrow> trace_frame \<Rightarrow> host_event list" where
  "emit caller (TraceFrame c f args r rolled children) =
     ev_call caller c f args rolled # concat (map (emit (Some c)) children)
     @ (case r of Returned v \<Rightarrow> [ev_return c f v rolled] | Trapped \<Rightarrow> [])"

text \<open>The frames the wire format can carry: no argument list of one \<open>Void\<close> or one \<open>Vec\<close>.\<close>

fun args_unambiguous :: "scval list \<Rightarrow> bool" where
  "args_unambiguous [ScVoid] = False"
| "args_unambiguous [ScVec _] = False"
| "args_unambiguous _ = True"

fun wire_frame :: "trace_frame \<Rightarrow> bool" where
  "wire_frame (TraceFrame c f args r rolled children) \<longleftrightarrow>
     length c = 32 \<and> utf8_valid (bytes_of_str f) \<and> args_unambiguous args
     \<and> r \<noteq> Trapped \<and> list_all wire_frame children"

lemma unwrap_pack: "args_unambiguous args \<Longrightarrow> unwrap_args_payload (pack_args args) = args"
proof (cases args rule: pack_args.cases)
  case (2 a)
  moreover assume "args_unambiguous args"
  ultimately show ?thesis by (cases a) auto
qed simp_all

lemma str_of_bytes_of_str [simp]: "str_of_bytes (bytes_of_str s) = s"
  by (simp add: str_of_bytes_def bytes_of_str_def unat_of_char comp_def)

lemma symbol_str_sym: "utf8_valid (bytes_of_str f) \<Longrightarrow> scval_as_symbol_str (sym f) = Some f"
  by (simp add: sym_def from_utf8_def)

lemma keyword_valid: "utf8_valid (bytes_of_str ''fn_call'')" "utf8_valid (bytes_of_str ''fn_return'')"
  by (simp_all add: bytes_of_str_def)

lemma event_kind_emit [simp]:
  "event_kind (ev_call caller c f args b) = Some ''fn_call''"
  "event_kind (ev_return c f v b) = Some ''fn_return''"
  by (simp_all only: event_kind_def ev_call_def ev_return_def diag_def contract_event.simps
      host_event.simps list.case symbol_str_sym keyword_valid if_False not_not simp_thms)

lemma step_call:
  "length c = 32 \<Longrightarrow> utf8_valid (bytes_of_str f) \<Longrightarrow> args_unambiguous args \<Longrightarrow>
   trace_step (stack, roots) (ev_call caller c f args b) = (TraceFrame c f args Trapped b [] # stack, roots)"
  unfolding trace_step_def Let_def event_kind_emit
  by (simp add: ev_call_def diag_def parse_fn_call_def symbol_str_sym unwrap_pack)

lemma step_return:
  "trace_step (frame # stack, roots) (ev_return c f v b) =
     attach stack roots (set_rolled_back b (set_result (Returned v) frame))"
  unfolding trace_step_def Let_def event_kind_emit
  by (simp add: ev_return_def diag_def)

fun add_children :: "trace_frame list \<Rightarrow> trace_frame \<Rightarrow> trace_frame" where
  "add_children new (TraceFrame c f a r b cs) = TraceFrame c f a r b (cs @ new)"

lemma add_children_Cons: "add_children (x # xs) p = add_children xs (push_child x p)"
  by (cases p) simp

lemma foldl_emit:
  "wire_frame f \<Longrightarrow> foldl trace_step (stack, roots) (emit caller f) = attach stack roots f"
proof (induction f arbitrary: stack roots caller)
  case (TraceFrame c fn args r b cs)
  have kids: "foldl trace_step (p # stack, roots) (concat (map (emit (Some c)) ks)) = (add_children ks p # stack, roots)"
    if "set ks \<subseteq> set cs" for ks p
    using that
  proof (induction ks arbitrary: p)
    case Nil
    then show ?case by (cases p) simp
  next
    case (Cons k ks)
    then have "wire_frame k" "k \<in> set cs" using TraceFrame.prems by (auto simp: list_all_iff)
    with TraceFrame.IH have "foldl trace_step (p # stack, roots) (emit (Some c) k) = (push_child k p # stack, roots)"
      by simp
    with Cons show ?case by (simp add: add_children_Cons)
  qed
  from TraceFrame.prems obtain v where "r = Returned v" by (cases r) simp_all
  with TraceFrame.prems show ?case by (simp add: step_call step_return kids)
qed

lemma foldl_emit_roots:
  "list_all wire_frame fs \<Longrightarrow> foldl trace_step ([], roots) (concat (map (emit caller) fs)) = ([], roots @ fs)"
  by (induction fs arbitrary: roots) (simp_all add: foldl_emit)

text \<open>An event that is neither a \<open>fn_call\<close> nor a \<open>fn_return\<close> changes nothing.\<close>

definition relevant :: "host_event \<Rightarrow> bool" where
  "relevant he \<longleftrightarrow> event_kind he \<in> {Some ''fn_call'', Some ''fn_return''}"

lemma step_irrelevant: "\<not> relevant he \<Longrightarrow> trace_step sr he = sr"
  by (simp add: relevant_def trace_step_def split: prod.splits)

lemma foldl_relevant: "foldl trace_step sr (filter relevant events) = foldl trace_step sr events"
  by (induction events arbitrary: sr) (simp_all add: step_irrelevant)

section \<open>Invariants of the parser\<close>

text \<open>Parsing a stream conserves calls: each becomes one frame.\<close>

definition well_formed_call :: "host_event \<Rightarrow> bool" where
  "well_formed_call he \<longleftrightarrow> event_kind he = Some ''fn_call''
     \<and> parse_fn_call (ev_topics (he_event he)) (ev_data (he_event he)) (he_failed_call he) \<noteq> None"

definition frames_in :: "trace_frame list \<times> trace_frame list \<Rightarrow> nat" where
  "frames_in sr = frame_count (fst sr) + frame_count (snd sr)"

lemma count_set [simp]:
  "count_frames (set_result r f) = count_frames f" "count_frames (set_rolled_back b f) = count_frames f"
  "count_frames (push_child g f) = count_frames f + count_frames g"
  by (cases f; simp)+

lemma frames_in_attach: "frames_in (attach stack roots f) = frame_count stack + frame_count roots + count_frames f"
  by (cases stack) (simp_all add: frames_in_def frame_count_def)

lemma frames_in_step:
  "frames_in (trace_step sr he) = frames_in sr + (if well_formed_call he then 1 else 0)"
proof (cases "event_kind he = Some ''fn_call''")
  case True
  then show ?thesis
    by (auto simp: trace_step_def well_formed_call_def frames_in_def frame_count_def parse_fn_call_def
        split: prod.splits option.splits if_splits)
next
  case False
  then show ?thesis
    by (auto simp: trace_step_def well_formed_call_def frames_in_attach split: prod.splits list.splits)
       (simp add: frames_in_def frame_count_def)
qed

lemma frames_in_drain: "frame_count (drain_stack stack roots) = frame_count stack + frame_count roots"
proof (induction stack roots rule: drain_stack.induct)
  case (2 frame stack roots)
  let ?f = "set_rolled_back True (set_result Trapped frame)"
  from 2 frames_in_attach [of stack roots ?f] show ?case by (simp add: frames_in_def frame_count_def)
qed (simp add: frame_count_def)

text \<open>Where a trapped frame can be: last among its siblings, under a trapped parent.\<close>

fun no_trap :: "trace_frame \<Rightarrow> bool" where
  "no_trap (TraceFrame c f a r b cs) \<longleftrightarrow> r \<noteq> Trapped \<and> list_all no_trap cs"

fun spine_ok :: "trace_frame \<Rightarrow> bool" where
  "spine_ok (TraceFrame c f a r b cs) \<longleftrightarrow>
     (r = Trapped \<longrightarrow> b) \<and> list_all spine_ok cs
     \<and> (\<forall>x \<in> set (butlast cs). tf_result x \<noteq> Trapped)
     \<and> (cs \<noteq> [] \<and> tf_result (last cs) = Trapped \<longrightarrow> r = Trapped)"

definition forest_ok :: "trace_frame list \<Rightarrow> bool" where
  "forest_ok cs \<longleftrightarrow> list_all spine_ok cs \<and> (\<forall>x \<in> set (butlast cs). tf_result x \<noteq> Trapped)"

lemma no_trap_result: "no_trap f \<Longrightarrow> tf_result f \<noteq> Trapped"
  by (cases f) simp

lemma no_trap_spine: "no_trap f \<Longrightarrow> spine_ok f"
proof (induction f)
  case (TraceFrame c fn args r b cs)
  then have "\<forall>x \<in> set cs. tf_result x \<noteq> Trapped" by (auto simp: list_all_iff no_trap_result)
  with TraceFrame show ?case by (auto simp: list_all_iff dest: in_set_butlastD)
qed

lemma no_trap_forest: "list_all no_trap cs \<Longrightarrow> forest_ok cs"
  by (auto simp: forest_ok_def list_all_iff no_trap_spine dest!: in_set_butlastD no_trap_result)

lemma forest_snoc:
  "list_all no_trap cs \<Longrightarrow> spine_ok f \<Longrightarrow> forest_ok (cs @ [f])"
  by (auto simp: forest_ok_def list_all_iff no_trap_spine no_trap_result butlast_append)

definition open_ok :: "trace_frame list \<times> trace_frame list \<Rightarrow> bool" where
  \<comment> \<open>while parsing, every frame that is closed has returned\<close>
  "open_ok sr \<longleftrightarrow> (\<forall>f \<in> set (fst sr). list_all no_trap (tf_children f)) \<and> list_all no_trap (snd sr)"

lemma tf_children_set [simp]:
  "tf_children (set_result r f) = tf_children f" "tf_children (set_rolled_back b f) = tf_children f"
  "tf_children (push_child g f) = tf_children f @ [g]"
  "tf_result (set_rolled_back b f) = tf_result f" "tf_result (set_result r f) = r"
  by (cases f; simp)+

lemma no_trap_iff: "no_trap f \<longleftrightarrow> tf_result f \<noteq> Trapped \<and> list_all no_trap (tf_children f)"
  by (cases f) simp

lemma spine_iff: "spine_ok f \<longleftrightarrow>
     (tf_result f = Trapped \<longrightarrow> tf_rolled_back f) \<and> forest_ok (tf_children f)
     \<and> (tf_children f \<noteq> [] \<and> tf_result (last (tf_children f)) = Trapped \<longrightarrow> tf_result f = Trapped)"
  by (cases f) (auto simp: forest_ok_def)

lemma open_ok_attach:
  "open_ok (stack, roots) \<Longrightarrow> no_trap f \<Longrightarrow> open_ok (attach stack roots f)"
  by (cases stack) (auto simp: open_ok_def)

lemma open_ok_step: "open_ok sr \<Longrightarrow> open_ok (trace_step sr he)"
proof -
  assume ok: "open_ok sr"
  obtain stack roots where sr: "sr = (stack, roots)" by force
  show "open_ok (trace_step sr he)"
  proof (cases "event_kind he = Some ''fn_call''")
    case True
    with ok sr show ?thesis
      by (auto simp: trace_step_def Let_def parse_fn_call_def open_ok_def split: option.splits)
  next
    case False
    show ?thesis
    proof (cases stack)
      case Nil
      with ok sr False show ?thesis by (auto simp: trace_step_def Let_def)
    next
      case (Cons f rest)
      from ok sr Cons have "no_trap (set_rolled_back b (set_result (Returned v) f))" "open_ok (rest, roots)" for b v
        by (auto simp: no_trap_iff open_ok_def)
      with ok sr False Cons show ?thesis by (auto simp: trace_step_def Let_def open_ok_attach)
    qed
  qed
qed

lemma open_ok_foldl: "open_ok sr \<Longrightarrow> open_ok (foldl trace_step sr events)"
  by (induction events arbitrary: sr) (simp_all add: open_ok_step)

text \<open>Draining closes a stack whose top may have trapped frames below it, and nothing else.\<close>

lemma tf_trap [simp]: "tf_rolled_back (set_rolled_back True f)" 
  by (cases f) simp

lemma drain_forest:
  "list_all no_trap roots \<Longrightarrow> \<forall>f \<in> set rest. list_all no_trap (tf_children f) \<Longrightarrow>
     forest_ok (tf_children f) \<Longrightarrow> forest_ok (drain_stack (f # rest) roots)"
proof (induction rest arbitrary: f)
  case Nil
  then show ?case by (simp add: forest_snoc spine_iff)
next
  case (Cons g rest)
  let ?f = "set_rolled_back True (set_result Trapped f)"
  have "spine_ok ?f" using Cons.prems(3) by (simp add: spine_iff)
  then have "forest_ok (tf_children (push_child ?f g))"
    using Cons.prems(2) by (simp add: forest_snoc)
  with Cons.IH [of "push_child ?f g"] Cons.prems show ?case by simp
qed

section \<open>128-bit values\<close>

lemma pieces_or:
  fixes a :: "128 word"
  shows "push_bit 64 a OR ucast (lo :: u64) = push_bit 64 a + ucast lo"
proof -
  have "push_bit 64 a AND (ucast lo :: 128 word) = 0"
    by (rule bit_word_eqI) (auto simp: bit_simps dest: bit_imp_le_length)
  then show ?thesis by (rule disjunctive_add_eq_or [symmetric])
qed

lemma sint_of_int_i128: "- (2 ^ 127) \<le> i \<Longrightarrow> i < 2 ^ 127 \<Longrightarrow> sint (word_of_int i :: i128) = i"
  by (simp add: sint_sbintrunc' signed_take_bit_int_eq_self)

lemma uint_of_int_u128: "0 \<le> i \<Longrightarrow> i < 2 ^ 128 \<Longrightarrow> uint (word_of_int i :: u128) = i"
  by (simp add: uint_word_of_int)

lemma i128_from_pieces_int: "i128_from_pieces hi lo = word_of_int (sint hi * 2 ^ 64 + uint lo)"
proof -
  have "(scast hi :: i128) = word_of_int (sint hi)" "(ucast lo :: i128) = word_of_int (uint lo)"
    by (transfer, simp)+
  then show ?thesis
    unfolding i128_from_pieces_def pieces_or by (simp add: push_bit_eq_mult)
qed

lemma i64_range: "- (2 ^ 63) \<le> sint (x :: i64)" "sint (x :: i64) < 2 ^ 63"
  using sint_range_size [of x] by (simp_all add: word_size)

lemma u64_range: "0 \<le> uint (x :: u64)" "uint (x :: u64) < 2 ^ 64"
  using uint_lt2p [of x] by simp_all

lemma pieces_range:
  fixes h l :: int
  assumes "- (2 ^ 63) \<le> h" "h < 2 ^ 63" "0 \<le> l" "l < 2 ^ 64"
  shows "- (2 ^ 127) \<le> h * 2 ^ 64 + l \<and> h * 2 ^ 64 + l < 2 ^ 127"
  using assms by simp

section \<open>Rendering does not panic\<close>

definition strkeys_ascii :: "ext_lib \<Rightarrow> bool" where
  \<comment> \<open>a strkey is base32 text\<close>
  "strkeys_ascii X \<longleftrightarrow> (\<forall>b. ascii (strkey_contract X b)) \<and> (\<forall>b. ascii (strkey_account X b))"

lemma abbreviate_total: "ascii s \<Longrightarrow> abbreviate_strkey s \<noteq> None"
  using ascii_boundary [of s 4] ascii_boundary [of s "length s - 4"]
  by (simp add: abbreviate_strkey_def slice_to_def slice_from_def)

lemma render_address_total: "strkeys_ascii X \<Longrightarrow> render_address X a \<noteq> None"
  using abbreviate_total by (cases a) (simp_all add: render_address_def strkeys_ascii_def)

lemma render_vals_total:
  "strkeys_ascii X \<Longrightarrow> render_scval X v \<noteq> None"
  "strkeys_ascii X \<Longrightarrow> render_map X m \<noteq> None"
  "strkeys_ascii X \<Longrightarrow> render_vals X vs \<noteq> None"
  by (induction X v and X m and X vs rule: render_scval_render_map_render_vals.induct)
     (auto dest: render_address_total split: option.splits)

lemma render_result_total: "strkeys_ascii X \<Longrightarrow> render_result X d r \<noteq> None"
  using render_vals_total(1) by (cases r) (auto simp: render_result_def)

lemma render_frames_total:
  "strkeys_ascii X \<Longrightarrow> render_frame X f d \<noteq> None"
  "strkeys_ascii X \<Longrightarrow> render_frames X fs d \<noteq> None"
proof (induction X f d and X fs d rule: render_frame_render_frames.induct)
  case (1 X contract fname args r rolled children depth)
  then have "abbreviate_strkey (strkey_contract X contract) \<noteq> None"
    by (simp add: abbreviate_total strkeys_ascii_def)
  with 1 render_vals_total(3) [of X args] render_result_total [of X depth r] show ?case by auto
qed auto

section \<open>Properties\<close>


text \<open>
  No call is lost or invented, however malformed the stream: the number of frames is the
  number of well-formed \<open>fn_call\<close> diagnostic events.
\<close>

lemma from_events_frame_count:
  "frame_count (from_events events) = length (filter well_formed_call events)"
proof -
  have "frames_in (foldl trace_step sr events) = frames_in sr + length (filter well_formed_call events)" for sr
    by (induction events arbitrary: sr) (simp_all add: frames_in_step)
  from this [of "([], [])"] show ?thesis
    by (simp add: from_events_def frames_in_drain split_beta frames_in_def) (simp add: frame_count_def)
qed

text \<open>
  In every trace, of any stream, a trapped frame is marked rolled back, is the last of its
  siblings, and its parent is trapped as well: trapped frames form one path from the last root.
\<close>

lemma from_events_spine: "forest_ok (from_events events)"
proof -
  obtain stack roots where sr: "foldl trace_step ([], []) events = (stack, roots)" by force
  have ok: "open_ok (stack, roots)"
    using open_ok_foldl [of "([], [])" events] by (simp add: sr open_ok_def)
  show ?thesis
  proof (cases stack)
    case Nil
    with ok show ?thesis by (simp add: from_events_def sr open_ok_def no_trap_forest)
  next
    case (Cons f rest)
    with ok show ?thesis
      by (simp add: from_events_def sr open_ok_def drain_forest no_trap_forest del: drain_stack.simps)
  qed
qed

text \<open>
  C31: A return is matched to the innermost open frame whatever contract it names. When \<open>a\<close>
  calls \<open>b\<close>, \<open>b\<close> traps (no \<open>fn_return\<close>), and \<open>a\<close> recovers and returns \<open>v\<close>, the trace says
  that \<open>b\<close> returned \<open>v\<close> and that \<open>a\<close> trapped.
\<close>

theorem from_events_recovered_trap:
  assumes "length a = 32" "length b = 32" "utf8_valid (bytes_of_str f)" "utf8_valid (bytes_of_str g)"
    "args_unambiguous as" "args_unambiguous bs"
  shows "from_events [ev_call None a f as False, ev_call (Some a) b g bs True, ev_return a f v False]
    = [TraceFrame a f as Trapped True [TraceFrame b g bs (Returned v) True []]]"
  using assms by (simp add: from_events_def step_call step_return)

text \<open>
  The 128-bit values shown are the values carried: the high half, signed for \<open>I128\<close>,
  times \<open>2 ^ 64\<close>, plus the low half.
\<close>

lemma from_pieces_value:
  "sint (i128_from_pieces hi lo) = sint hi * 2 ^ 64 + uint lo
   \<and> uint (u128_from_pieces uhi lo) = uint uhi * 2 ^ 64 + uint lo"
proof
  show "sint (i128_from_pieces hi lo) = sint hi * 2 ^ 64 + uint lo"
    unfolding i128_from_pieces_int
    using pieces_range [OF i64_range u64_range, of hi lo] by (intro sint_of_int_i128) simp_all
  have "(ucast uhi :: u128) = word_of_int (uint uhi)" "(ucast lo :: u128) = word_of_int (uint lo)"
    by (transfer, simp)+
  then have "u128_from_pieces uhi lo = word_of_int (uint uhi * 2 ^ 64 + uint lo)"
    unfolding u128_from_pieces_def pieces_or by (simp add: push_bit_eq_mult)
  moreover have "0 \<le> uint uhi * 2 ^ 64 + uint lo" "uint uhi * 2 ^ 64 + uint lo < 2 ^ 128"
    using u64_range [of uhi] u64_range [of lo] by simp_all
  ultimately show "uint (u128_from_pieces uhi lo) = uint uhi * 2 ^ 64 + uint lo"
    by (simp only: uint_of_int_u128)
qed

text \<open>
  Printing a trace never panics, provided the strkey encodings are ASCII text (they are
  base32): every abbreviation then falls on a character boundary.
\<close>

lemma render_trace_total:
  assumes "strkeys_ascii X"
  shows "render_trace X roots \<noteq> None"
  using render_frames_total(2) [OF assms] by (simp add: render_trace_def)

section \<open>At a concrete input\<close>

definition sample_call_tree :: "trace_frame list" where
  "sample_call_tree =
     [TraceFrame (replicate 32 1) ''deposit'' [ScU32 100] (Returned (ScU32 100)) False
        [TraceFrame (replicate 32 2) ''transfer'' [ScU32 1, ScU32 2] (Returned ScVoid) False []]]"


theorem from_events_recovered_trap_witness:
  "from_events [ev_call None (replicate 32 1) ''try'' [] False,
                ev_call (Some (replicate 32 1)) (replicate 32 2) ''boom'' [] True,
                ev_return (replicate 32 1) ''try'' (ScU32 7) False]
    = [TraceFrame (replicate 32 1) ''try'' [] Trapped True
         [TraceFrame (replicate 32 2) ''boom'' [] (Returned (ScU32 7)) True []]]"
  by (rule from_events_recovered_trap) (simp_all add: bytes_of_str_def)

end
