(* ===== verification/AuthTree.thy ===== *)
theory AuthTree
  imports Trace
begin

text \<open>
  The recorded authorisations of a host run, \<open>src/auth_tree.rs\<close>: counting the invocation trees
  and printing them with the renderers of \<open>Trace\<close>.
\<close>

record auth_tree =
  at_payloads :: "auth_payload list"

definition from_payloads :: "auth_payload list \<Rightarrow> auth_tree" where
  "from_payloads ps = \<lparr> at_payloads = ps \<rparr>"

definition payload_count :: "auth_tree \<Rightarrow> nat" where
  "payload_count t = length (at_payloads t)"

fun count_invocations :: "auth_invocation \<Rightarrow> nat" where
  "count_invocations (AuthInvocation f subs) = 1 + sum_list (map count_invocations subs)"

definition invocation_count :: "auth_tree \<Rightarrow> nat" where
  "invocation_count t = sum_list (map (\<lambda>p. count_invocations (ap_invocation p)) (at_payloads t))"

definition auth_is_empty :: "auth_tree \<Rightarrow> bool" where
  "auth_is_empty t \<longleftrightarrow> at_payloads t = []"

section \<open>Display\<close>

definition render_contract_fn :: "ext_lib \<Rightarrow> string \<Rightarrow> invoke_contract_args \<Rightarrow> string option" where
  "render_contract_fn X pad args =
     (case (render_address X (ic_contract args), render_vals X (ic_args args)) of
        (Some addr, Some ts) \<Rightarrow>
          Some (pad @ ''['' @ addr @ ''] '' @ unwrap_or ''<non-utf8>'' (from_utf8 (ic_function args))
                @ ''('' @ comma_sep ts @ '')'' @ newline)
      | _ \<Rightarrow> None)"

definition render_auth_function :: "ext_lib \<Rightarrow> nat \<Rightarrow> auth_function \<Rightarrow> string option" where
  "render_auth_function X depth f =
     (let pad = indent depth in
      case f of
        AfContractFn args \<Rightarrow> render_contract_fn X pad args
      | AfCreateContract _ \<Rightarrow> Some (pad @ ''<create_contract>'' @ newline)
      | AfCreateContractV2 _ \<Rightarrow> Some (pad @ ''<create_contract_v2>'' @ newline))"

fun render_invocation :: "ext_lib \<Rightarrow> auth_invocation \<Rightarrow> nat \<Rightarrow> string option"
  and render_invocations :: "ext_lib \<Rightarrow> auth_invocation list \<Rightarrow> nat \<Rightarrow> string option" where
  "render_invocation X (AuthInvocation f subs) depth =
     (case (render_auth_function X depth f, render_invocations X subs (depth + 1)) of
        (Some a, Some b) \<Rightarrow> Some (a @ b)
      | _ \<Rightarrow> None)"
| "render_invocations X [] depth = Some []"
| "render_invocations X (i # is) depth =
     (case (render_invocation X i depth, render_invocations X is depth) of
        (Some a, Some b) \<Rightarrow> Some (a @ b)
      | _ \<Rightarrow> None)"

definition render_payload :: "ext_lib \<Rightarrow> nat \<Rightarrow> auth_payload \<Rightarrow> string option" where
  "render_payload X idx p =
     (case (case ap_address p of Some addr \<Rightarrow> render_address X addr | None \<Rightarrow> Some ''<source account>'',
            render_invocation X (ap_invocation p) 2) of
        (Some signer, Some body) \<Rightarrow>
          Some (indent 1 @ ''payload #'' @ show_nat idx @ ''  signer='' @ signer
                @ (case ap_nonce p of Some n \<Rightarrow> ''  nonce='' @ show_s n | None \<Rightarrow> [])
                @ newline @ body)
      | _ \<Rightarrow> None)"

fun render_payloads :: "ext_lib \<Rightarrow> nat \<Rightarrow> auth_payload list \<Rightarrow> string option" where
  "render_payloads X idx [] = Some []"
| "render_payloads X idx (p # ps) =
     (case (render_payload X idx p, render_payloads X (idx + 1) ps) of
        (Some a, Some b) \<Rightarrow> Some (a @ b)
      | _ \<Rightarrow> None)"

definition render_auth_tree :: "ext_lib \<Rightarrow> auth_tree \<Rightarrow> string option" where
  "render_auth_tree X t =
     (if at_payloads t = [] then
        Some (''[AUTH] (empty '' @ utf8_em_dash
              @ '' has invoke_contract run yet, and did it demand any auth?)'' @ newline)
      else map_option (\<lambda>s. ''[AUTH]'' @ newline @ s) (render_payloads X 0 (at_payloads t)))"

section \<open>The lines of a tree\<close>

text \<open>The invocations of a tree in the order they are printed, each with its depth.\<close>

fun preorder :: "nat \<Rightarrow> auth_invocation \<Rightarrow> (nat \<times> auth_function) list" where
  "preorder d (AuthInvocation f subs) = (d, f) # concat (map (preorder (d + 1)) subs)"

lemma length_preorder: "length (preorder d i) = count_invocations i"
proof (induction d i rule: preorder.induct)
  case (1 d f subs)
  then have "map (\<lambda>x. length (preorder (Suc d) x)) subs = map count_invocations subs" by simp
  then show ?case by (simp only: preorder.simps count_invocations.simps length_Cons length_concat
      map_map comp_def Suc_eq_plus1 add.commute)
qed

definition lines_of :: "ext_lib \<Rightarrow> (nat \<times> auth_function) list \<Rightarrow> string list option" where
  "lines_of X ls = those (map (\<lambda>(d, f). render_auth_function X d f) ls)"

lemma those_append:
  "those (xs @ ys) = (case (those xs, those ys) of (Some a, Some b) \<Rightarrow> Some (a @ b) | _ \<Rightarrow> None)"
  by (induction xs) (auto split: option.splits)

lemma lines_of_simps [simp]:
  "lines_of X [] = Some []"
  "lines_of X ((d, f) # ls) = (case render_auth_function X d f of None \<Rightarrow> None
     | Some a \<Rightarrow> map_option (\<lambda>as. a # as) (lines_of X ls))"
  "lines_of X (as @ bs) = (case (lines_of X as, lines_of X bs) of (Some a, Some b) \<Rightarrow> Some (a @ b) | _ \<Rightarrow> None)"
  by (auto simp: lines_of_def those_append split: option.splits)

lemma render_invocation_lines:
  "render_invocation X i d = map_option concat (lines_of X (preorder d i))"
  "render_invocations X is d = map_option concat (lines_of X (concat (map (preorder d) is)))"
  by (induction X i d and X "is" d rule: render_invocation_render_invocations.induct)
     (auto split: option.splits)

lemma render_auth_function_total: "strkeys_ascii X \<Longrightarrow> render_auth_function X d f \<noteq> None"
proof (cases f)
  case (AfContractFn args)
  assume "strkeys_ascii X"
  then obtain a ts where "render_address X (ic_contract args) = Some a" "render_vals X (ic_args args) = Some ts"
    using render_address_total [of X "ic_contract args"] render_vals_total(3) [of X "ic_args args"] by blast
  with AfContractFn show ?thesis
    by (simp add: render_auth_function_def render_contract_fn_def Let_def)
qed (simp_all add: render_auth_function_def Let_def)

lemma lines_of_total: "strkeys_ascii X \<Longrightarrow> lines_of X ls \<noteq> None"
proof (induction ls)
  case (Cons df ls)
  obtain d f where df: "df = (d, f)" by force
  with Cons obtain a as where "render_auth_function X d f = Some a" "lines_of X ls = Some as"
    using render_auth_function_total [of X d f] by blast
  with df show ?case by simp
qed simp

section \<open>Properties\<close>



end
