(* ===== verification/Fork.thy ===== *)
theory Fork
  imports Fees Cache TestAccounts AuthTree
begin

text \<open>
  The forked environment, \<open>src/lib.rs\<close>: the builder \<open>ForkConfig\<close>, \<open>build\<close>, and the operations of
  \<open>ForkedEnv\<close>. Of the SDK's \<open>Env\<close> the state carries what the code reads back from it, the
  ledger info it reports; contract calls through the \<open>Env\<close> (\<open>deal_token\<close>) take the SDK's
  \<open>invoke_contract\<close> as an argument.
\<close>

definition ledger_interval_seconds :: u64 where "ledger_interval_seconds = 5"
definition default_fork_time_buffer_seconds :: u64 where "default_fork_time_buffer_seconds = 3600"

record forked_env =
  fk_ledger :: ledger_info                 \<comment> \<open>\<open>env.ledger().get()\<close>\<close>
  fk_source :: source
  fk_world :: rpc_world
  fk_cache_path :: "path option"
  fk_ledger_sequence :: u32
  fk_timestamp :: u64
  fk_network_id :: hash
  fk_protocol_version :: u32
  fk_passphrase :: "string option"
  fk_fee_configuration :: "fee_configuration option"
  fk_test_accounts :: "test_account list"

record fork_config =
  cfg_rpc_url :: string
  cfg_cache_path :: "path option"
  cfg_network_id :: "hash option"
  cfg_fetch_mode :: "fetch_mode option"
  cfg_pinned_ledger :: "u32 option"
  cfg_pinned_timestamp :: "u64 option"
  cfg_max_protocol_version :: "u32 option"
  cfg_rpc_config :: rpc_config
  cfg_tracing :: bool
  cfg_test_account_count :: nat
  cfg_test_trustlines :: "trust_line_asset list"

section \<open>The builder\<close>

definition fork_config_new :: "ext_lib \<Rightarrow> string \<Rightarrow> fork_config option" where
  "fork_config_new X rpc_url =
     (case usdc_mainnet_trustline_asset X of
        None \<Rightarrow> None
      | Some usdc \<Rightarrow>
          Some \<lparr> cfg_rpc_url = rpc_url,
                 cfg_cache_path = None,
                 cfg_network_id = None,
                 cfg_fetch_mode = None,
                 cfg_pinned_ledger = None,
                 cfg_pinned_timestamp = None,
                 cfg_max_protocol_version = None,
                 cfg_rpc_config = rpc_config_default,
                 cfg_tracing = False,
                 cfg_test_account_count = 10,
                 cfg_test_trustlines = [usdc] \<rparr>)"

definition cache_file :: "path \<Rightarrow> fork_config \<Rightarrow> fork_config" where
  "cache_file path c = c\<lparr>cfg_cache_path := Some path\<rparr>"

definition network_id :: "hash \<Rightarrow> fork_config \<Rightarrow> fork_config" where
  "network_id i c = c\<lparr>cfg_network_id := Some i\<rparr>"

definition with_mode :: "fetch_mode \<Rightarrow> fork_config \<Rightarrow> fork_config" where
  "with_mode mode c = c\<lparr>cfg_fetch_mode := Some mode\<rparr>"

definition at_ledger :: "u32 \<Rightarrow> fork_config \<Rightarrow> fork_config" where
  "at_ledger sequence c = c\<lparr>cfg_pinned_ledger := Some sequence\<rparr>"

definition pinned_timestamp :: "u64 \<Rightarrow> fork_config \<Rightarrow> fork_config" where
  "pinned_timestamp unix_seconds c = c\<lparr>cfg_pinned_timestamp := Some unix_seconds\<rparr>"

definition max_protocol_version :: "u32 \<Rightarrow> fork_config \<Rightarrow> fork_config" where
  "max_protocol_version version c = c\<lparr>cfg_max_protocol_version := Some version\<rparr>"

definition with_rpc_config :: "rpc_config \<Rightarrow> fork_config \<Rightarrow> fork_config" where
  "with_rpc_config config c = c\<lparr>cfg_rpc_config := config\<rparr>"

definition tracing :: "bool \<Rightarrow> fork_config \<Rightarrow> fork_config" where
  "tracing enabled c = c\<lparr>cfg_tracing := enabled\<rparr>"

definition test_account_count :: "nat \<Rightarrow> fork_config \<Rightarrow> fork_config" where
  "test_account_count n c = c\<lparr>cfg_test_account_count := n\<rparr>"

definition test_account_trustlines :: "trust_line_asset list \<Rightarrow> fork_config \<Rightarrow> fork_config" where
  "test_account_trustlines assets c = c\<lparr>cfg_test_trustlines := assets\<rparr>"

section \<open>Build\<close>

definition cap_protocol_version :: "u32 \<Rightarrow> u32 option \<Rightarrow> u32 \<Rightarrow> u32" where
  "cap_protocol_version latest requested_max host_max =
     (let effective_max = (case requested_max of None \<Rightarrow> host_max | Some m \<Rightarrow> min m host_max)
      in min latest effective_max)"

text \<open>The entries minted for the test accounts, in the order they are pushed.\<close>

definition account_preloads :: "trust_line_asset list \<Rightarrow> u32 \<Rightarrow> test_account \<Rightarrow> snapshot_entry list" where
  "account_preloads trustlines sequence a =
     (let (key, entry) = account_ledger_entry a sequence
      in (key, entry, None) #
         map (\<lambda>asset. let (tl_key, tl_entry) = trustline_entry a asset sequence in (tl_key, tl_entry, None))
           trustlines)"

definition test_preloads :: "trust_line_asset list \<Rightarrow> u32 \<Rightarrow> test_account list \<Rightarrow> snapshot_entry list" where
  "test_preloads trustlines sequence accounts = concat (map (account_preloads trustlines sequence) accounts)"

text \<open>
  The source before the network is asked: an unreadable cache file is a warning and the
  source starts empty. \<open>None\<close> is a panic.
\<close>

definition build_source ::
  "ext_lib \<Rightarrow> snapshot_io \<Rightarrow> fork_config \<Rightarrow> rpc_client \<Rightarrow> fs \<Rightarrow> source option" where
  "build_source X IO cfg client files =
     (let s0 = source_new client;
          s1 = (case cfg_fetch_mode cfg of Some mode \<Rightarrow> with_fetch_mode mode s0 | None \<Rightarrow> s0)
      in case cfg_cache_path cfg of
           None \<Rightarrow> Some s1
         | Some path \<Rightarrow>
             if files path = None then Some s1
             else (case load_snapshot IO path files of
                     Inr es \<Rightarrow> preload X es s1
                   | Inl _ \<Rightarrow> Some s1))"

definition resolve_network ::
  "ext_lib \<Rightarrow> fork_config \<Rightarrow> rpc_client \<Rightarrow> rpc_world
    \<Rightarrow> ((fork_error + hash \<times> string option) \<times> rpc_world) option" where
  "resolve_network X cfg client w =
     (case cfg_network_id cfg of
        Some i \<Rightarrow> Some (Inr (i, None), w)
      | None \<Rightarrow>
          (case get_network X client w of
             None \<Rightarrow> None
           | Some (Inl e, w') \<Rightarrow> Some (Inl e, w')
           | Some (Inr meta, w') \<Rightarrow> Some (Inr (nm_network_id meta, Some (nm_passphrase meta)), w')))"

definition fork_ledger_info :: "u32 \<Rightarrow> u32 \<Rightarrow> u64 \<Rightarrow> hash \<Rightarrow> ledger_info" where
  "fork_ledger_info protocol_version sequence timestamp net_id =
     \<lparr> li_protocol_version = protocol_version,
       li_sequence_number = sequence,
       li_timestamp = timestamp,
       li_network_id = net_id,
       li_base_reserve = default_base_reserve,
       li_min_persistent_entry_ttl = default_min_persistent_entry_ttl,
       li_min_temp_entry_ttl = default_min_temp_entry_ttl,
       li_max_entry_ttl = default_max_entry_ttl \<rparr>"

text \<open>\<open>set_diag\<close> is the host's \<open>set_diagnostic_level\<close>, with its error if it has one.\<close>

definition build ::
  "ext_lib \<Rightarrow> (bool \<Rightarrow> string option) \<Rightarrow> snapshot_io \<Rightarrow> fork_config \<Rightarrow> fs \<Rightarrow> rpc_world
    \<Rightarrow> (fork_error + forked_env) option" where
  "build X set_diag IO cfg files w =
     (case rpc_client_new X (cfg_rpc_url cfg) (cfg_rpc_config cfg) of
        Inl e \<Rightarrow> Some (Inl e)
      | Inr client \<Rightarrow>
     (case build_source X IO cfg client files of
        None \<Rightarrow> None
      | Some source0 \<Rightarrow>
     (case get_latest_ledger X client w of
        None \<Rightarrow> None
      | Some (Inl e, _) \<Rightarrow> Some (Inl e)
      | Some (Inr latest, w1) \<Rightarrow>
     (case resolve_network X cfg client w1 of
        None \<Rightarrow> None
      | Some (Inl e, _) \<Rightarrow> Some (Inl e)
      | Some (Inr (net_id, phrase), w2) \<Rightarrow>
          (let sequence = unwrap_or (ll_sequence latest) (cfg_pinned_ledger cfg);
               protocol = cap_protocol_version (ll_protocol_version latest)
                            (cfg_max_protocol_version cfg) (host_max_protocol X);
               timestamp = unwrap_or (sat_add (ll_close_time latest) default_fork_time_buffer_seconds)
                             (cfg_pinned_timestamp cfg);
               label = (if cfg_tracing cfg then ''Debug'' else ''None'')
           in case set_diag (cfg_tracing cfg) of
                Some e \<Rightarrow> Some (Inl (HostError (''set_diagnostic_level('' @ label @ '') failed: '' @ e)))
              | None \<Rightarrow>
                  (let accounts = generate X (cfg_test_account_count cfg);
                       source1 = (if accounts = [] then Some source0
                                  else preload X (test_preloads (cfg_test_trustlines cfg) sequence accounts) source0)
                   in case source1 of
                        None \<Rightarrow> None
                      | Some s \<Rightarrow>
                          Some (Inr \<lparr> fk_ledger = fork_ledger_info protocol sequence timestamp net_id,
                                      fk_source = s,
                                      fk_world = w2,
                                      fk_cache_path = cfg_cache_path cfg,
                                      fk_ledger_sequence = sequence,
                                      fk_timestamp = timestamp,
                                      fk_network_id = net_id,
                                      fk_protocol_version = protocol,
                                      fk_passphrase = phrase,
                                      fk_fee_configuration = None,
                                      fk_test_accounts = accounts \<rparr>)))))))"

section \<open>The environment\<close>

definition fork_fetch_count :: "forked_env \<Rightarrow> u32" where
  "fork_fetch_count fk = fetch_count (fk_source fk)"

definition ledger_sequence :: "forked_env \<Rightarrow> u32" where
  "ledger_sequence fk = li_sequence_number (fk_ledger fk)"

definition ledger_close_time :: "forked_env \<Rightarrow> u64" where
  "ledger_close_time fk = li_timestamp (fk_ledger fk)"

definition warp :: "u32 \<Rightarrow> u64 \<Rightarrow> forked_env \<Rightarrow> forked_env" where
  "warp ledgers seconds fk =
     fk\<lparr>fk_ledger := (fk_ledger fk)
        \<lparr>li_sequence_number := sat_add (li_sequence_number (fk_ledger fk)) ledgers,
         li_timestamp := sat_add (li_timestamp (fk_ledger fk)) seconds\<rparr>\<rparr>"

definition warp_time :: "u64 \<Rightarrow> forked_env \<Rightarrow> forked_env" where
  "warp_time seconds fk = warp (ucast (seconds div ledger_interval_seconds)) seconds fk"

definition warp_ledger :: "u32 \<Rightarrow> forked_env \<Rightarrow> forked_env" where
  "warp_ledger ledgers fk = warp ledgers (ucast ledgers * ledger_interval_seconds) fk"

text \<open>Reading through the fork's source.\<close>

definition fork_get :: "ext_lib \<Rightarrow> ledger_key \<Rightarrow> forked_env \<Rightarrow> (live_entry option \<times> forked_env) option" where
  "fork_get X key fk =
     (case snapshot_get X key (fk_source fk, fk_world fk) of
        None \<Rightarrow> None
      | Some (v, s, w) \<Rightarrow> Some (v, fk\<lparr>fk_source := s, fk_world := w\<rparr>))"

definition fee_configuration ::
  "ext_lib \<Rightarrow> forked_env \<Rightarrow> ((fork_error + fee_configuration) \<times> forked_env) option" where
  "fee_configuration X fk =
     (case fk_fee_configuration fk of
        Some cfg \<Rightarrow> Some (Inr cfg, fk)
      | None \<Rightarrow>
          (case fetch_fee_configuration X (snapshot_get X) (fk_source fk, fk_world fk) of
             None \<Rightarrow> None
           | Some (Inl e, s, w) \<Rightarrow> Some (Inl e, fk\<lparr>fk_source := s, fk_world := w\<rparr>)
           | Some (Inr cfg, s, w) \<Rightarrow>
               Some (Inr cfg, fk\<lparr>fk_source := s, fk_world := w, fk_fee_configuration := Some cfg\<rparr>)))"

text \<open>What the host recorded in its last invocation, or its error: an unreadable buffer counts as
  empty, so that a failing test can still print the trace.\<close>

definition diagnostic_events :: "string + host_event list \<Rightarrow> host_event list" where
  "diagnostic_events recorded = (case recorded of Inr events \<Rightarrow> events | Inl e \<Rightarrow> [])"

definition fork_trace :: "string + host_event list \<Rightarrow> trace_frame list" where
  "fork_trace recorded = from_events (diagnostic_events recorded)"

definition auth_payloads :: "string + auth_payload list \<Rightarrow> auth_payload list" where
  "auth_payloads recorded = (case recorded of Inr payloads \<Rightarrow> payloads | Inl e \<Rightarrow> [])"

definition fork_auth_tree :: "string + auth_payload list \<Rightarrow> auth_tree" where
  "fork_auth_tree recorded = from_payloads (auth_payloads recorded)"

text \<open>The texts printed to the standard error; \<open>None\<close> is a panic of the rendering.\<close>

definition print_trace :: "ext_lib \<Rightarrow> string + host_event list \<Rightarrow> string option" where
  "print_trace X recorded = map_option (\<lambda>text. text @ newline) (render_trace X (fork_trace recorded))"

definition print_auth_tree :: "ext_lib \<Rightarrow> string + auth_payload list \<Rightarrow> string option" where
  "print_auth_tree X recorded =
     map_option (\<lambda>text. text @ newline) (render_auth_tree X (fork_auth_tree recorded))"

section \<open>Saving\<close>

definition do_save_cache ::
  "ext_lib \<Rightarrow> snapshot_io \<Rightarrow> source \<Rightarrow> path \<Rightarrow> u32 \<Rightarrow> u64 \<Rightarrow> hash \<Rightarrow> u32 \<Rightarrow> fs
    \<Rightarrow> ((fork_error + unit) \<times> fs list) option" where
  "do_save_cache X IO s path sequence timestamp net_id protocol files =
     (case entries X s of
        None \<Rightarrow> None
      | Some [] \<Rightarrow> Some (Inr (), [files])
      | Some es \<Rightarrow> Some (save_snapshot IO path es sequence timestamp net_id protocol files))"

definition save_cache ::
  "ext_lib \<Rightarrow> snapshot_io \<Rightarrow> forked_env \<Rightarrow> fs \<Rightarrow> ((fork_error + unit) \<times> fs list) option" where
  "save_cache X IO fk files =
     (case fk_cache_path fk of
        None \<Rightarrow> Some (Inr (), [files])
      | Some path \<Rightarrow>
          do_save_cache X IO (fk_source fk) path (fk_ledger_sequence fk) (fk_timestamp fk)
            (fk_network_id fk) (fk_protocol_version fk) files)"

text \<open>\<open>Drop\<close>: the result is only logged.\<close>

definition drop_fork :: "ext_lib \<Rightarrow> snapshot_io \<Rightarrow> forked_env \<Rightarrow> fs \<Rightarrow> fs list option" where
  "drop_fork X IO fk files = map_option snd (save_cache X IO fk files)"

section \<open>deal_token\<close>

text \<open>\<open>IntoVal\<close> and \<open>TryFromVal\<close> of \<open>i128\<close> and \<open>u128\<close>, as XDR values.\<close>

definition i128_val :: "i128 \<Rightarrow> scval" where
  "i128_val x = ScI128 (ucast (drop_bit 64 x)) (ucast x)"

definition u128_val :: "u128 \<Rightarrow> scval" where
  "u128_val x = ScU128 (ucast (drop_bit 64 x)) (ucast x)"

fun val_i128 :: "scval \<Rightarrow> i128 option" where
  "val_i128 (ScI128 hi lo) = Some (i128_from_pieces hi lo)"
| "val_i128 _ = None"

text \<open>\<open>amount - current\<close>: outside the range it panics, or wraps.\<close>

definition sub_i128 :: "ext_lib \<Rightarrow> i128 \<Rightarrow> i128 \<Rightarrow> i128 option" where
  "sub_i128 X a b =
     (if overflow_checks X
         \<and> \<not> (- (2 ^ 127) \<le> sint a - sint b \<and> sint a - sint b < 2 ^ 127) then None
      else Some (a - b))"

definition unsigned_abs :: "i128 \<Rightarrow> u128" where
  "unsigned_abs x = (if sint x < 0 then - x else x)"

type_synonym 'e contract_call = "sc_address \<Rightarrow> string \<Rightarrow> scval list \<Rightarrow> 'e \<Rightarrow> (scval \<times> 'e) option"

definition deal_token ::
  "ext_lib \<Rightarrow> 'e contract_call \<Rightarrow> sc_address \<Rightarrow> sc_address \<Rightarrow> i128 \<Rightarrow> 'e \<Rightarrow> 'e option" where
  "deal_token X invoke token to amount e =
     (case invoke token ''balance'' [ScAddress to] e of
        None \<Rightarrow> None
      | Some (v, e1) \<Rightarrow>
     (case val_i128 v of
        None \<Rightarrow> None
      | Some current \<Rightarrow>
     (case sub_i128 X amount current of
        None \<Rightarrow> None
      | Some delta \<Rightarrow>
          if delta = 0 then Some e1
          else if sint delta > 0 then
            (case invoke token ''mint'' [ScAddress to, i128_val delta] e1 of
               Some (ScVoid, e2) \<Rightarrow> Some e2
             | _ \<Rightarrow> None)
          else
            (case invoke token ''burn'' [ScAddress to, u128_val (unsigned_abs delta)] e1 of
               Some (ScVoid, e2) \<Rightarrow> Some e2
             | _ \<Rightarrow> None))))"

section \<open>Lemmas\<close>

lemma build_cases:
  assumes "build X set_diag IO cfg files w = Some (Inr fk)"
  obtains client s0 latest w1 where
    "build_source X IO cfg client files = Some s0"
    "get_latest_ledger X client w = Some (Inr latest, w1)"
    "resolve_network X cfg client w1 = Some (Inr (fk_network_id fk, fk_passphrase fk), fk_world fk)"
    "fk_ledger_sequence fk = unwrap_or (ll_sequence latest) (cfg_pinned_ledger cfg)"
    "fk_timestamp fk = unwrap_or (sat_add (ll_close_time latest) default_fork_time_buffer_seconds)
       (cfg_pinned_timestamp cfg)"
    "fk_protocol_version fk = cap_protocol_version (ll_protocol_version latest)
       (cfg_max_protocol_version cfg) (host_max_protocol X)"
    "fk_ledger fk = fork_ledger_info (fk_protocol_version fk) (fk_ledger_sequence fk) (fk_timestamp fk) (fk_network_id fk)"
    "fk_test_accounts fk = generate X (cfg_test_account_count cfg)"
    "preload X (test_preloads (cfg_test_trustlines cfg) (fk_ledger_sequence fk) (fk_test_accounts fk)) s0
       = Some (fk_source fk)"
    "fk_fee_configuration fk = None" "fk_cache_path fk = cfg_cache_path cfg"
proof -
  from assms obtain client s0 latest w1 net_id phrase w2 where
    c: "rpc_client_new X (cfg_rpc_url cfg) (cfg_rpc_config cfg) = Inr client"
      "build_source X IO cfg client files = Some s0"
      "get_latest_ledger X client w = Some (Inr latest, w1)"
      "resolve_network X cfg client w1 = Some (Inr (net_id, phrase), w2)"
    by (auto simp: build_def split: sum.splits option.splits prod.splits)
  with assms show thesis
    by (intro that [of client s0 latest w1])
       (auto simp: build_def Let_def test_preloads_def split: option.splits if_splits)
qed

lemma cap_protocol_version_le:
  "cap_protocol_version latest req hm \<le> hm \<and> cap_protocol_version latest req hm \<le> latest
   \<and> (\<forall>m. req = Some m \<longrightarrow> cap_protocol_version latest req hm \<le> m)"
  by (auto simp: cap_protocol_version_def Let_def min_def split: option.splits)

lemma resolve_network_cases:
  assumes "resolve_network X cfg client w = Some (Inr (net_id, phrase), w')"
  shows "(cfg_network_id cfg = Some net_id \<and> phrase = None)
    \<or> (cfg_network_id cfg = None \<and> (\<exists>p. phrase = Some p \<and> net_id = sha256 X (bytes_of_str p)))"
  using assms
  by (auto simp: resolve_network_def get_network_def split: option.splits sum.splits prod.splits)

text \<open>A key all of whose bindings agree.\<close>

lemma map_of_rev_unique:
  assumes "(k, v) \<in> set es" "\<And>v'. (k, v') \<in> set es \<Longrightarrow> v' = v"
  shows "map_of (rev es) k = Some v"
proof -
  obtain v' where "map_of (rev es) k = Some v'"
    using assms(1) by (metis map_of_eq_None_iff not_None_eq set_rev image_eqI fst_conv)
  moreover from this have "v' = v" using assms(2) map_of_SomeD by fastforce
  ultimately show ?thesis by simp
qed

lemma map_of_rev_distinct: "distinct (map fst xs) \<Longrightarrow> map_of (rev xs) = map_of xs"
proof
  fix k
  assume d: "distinct (map fst xs)"
  show "map_of (rev xs) k = map_of xs k"
  proof (cases "map_of xs k")
    case None
    then have "map_of (rev xs) k = None" by (simp add: map_of_eq_None_iff)
    with None show ?thesis by simp
  next
    case (Some v)
    with d have "(k, v') \<in> set xs \<Longrightarrow> v' = v" for v'
      by (metis map_of_is_SomeI option.inject)
    with Some map_of_rev_unique [OF map_of_SomeD [OF Some]] show ?thesis by simp
  qed
qed

lemma account_preloads_eq:
  "account_preloads trustlines sq a =
     (KeyAccount (ta_public_key a), snd (account_ledger_entry a sq), None) #
     map (\<lambda>asset. (KeyTrustline (ta_public_key a) asset, snd (trustline_entry a asset sq), None)) trustlines"
  by (simp add: account_preloads_def account_ledger_entry_def trustline_entry_def Let_def)

lemma account_preloads_iff:
  "(k, v) \<in> set (account_preloads trustlines sq a) \<longleftrightarrow>
     (k = KeyAccount (ta_public_key a) \<and> v = (snd (account_ledger_entry a sq), None))
     \<or> (\<exists>asset \<in> set trustlines. k = KeyTrustline (ta_public_key a) asset
          \<and> v = (snd (trustline_entry a asset sq), None))"
  unfolding account_preloads_eq set_simps set_map insert_iff image_iff prod.inject by blast

lemma test_preloads_iff:
  "(k, v) \<in> set (test_preloads trustlines sq accounts) \<longleftrightarrow>
     (\<exists>a \<in> set accounts.
        (k = KeyAccount (ta_public_key a) \<and> v = (snd (account_ledger_entry a sq), None))
        \<or> (\<exists>asset \<in> set trustlines. k = KeyTrustline (ta_public_key a) asset
             \<and> v = (snd (trustline_entry a asset sq), None)))"
  unfolding test_preloads_def set_concat set_map image_image UN_iff account_preloads_iff ..

lemma test_preloads_known:
  assumes "distinct (map ta_public_key accounts)" "a \<in> set accounts"
  shows "map_of (rev (test_preloads trustlines sq accounts)) (KeyAccount (ta_public_key a))
      = Some (snd (account_ledger_entry a sq), None)"
    and "asset \<in> set trustlines \<Longrightarrow>
      map_of (rev (test_preloads trustlines sq accounts)) (KeyTrustline (ta_public_key a) asset)
      = Some (snd (trustline_entry a asset sq), None)"
proof -
  have inj: "b = a" if "b \<in> set accounts" "ta_public_key b = ta_public_key a" for b
    using assms that by (auto simp: distinct_map dest: inj_onD)
  show "map_of (rev (test_preloads trustlines sq accounts)) (KeyAccount (ta_public_key a))
      = Some (snd (account_ledger_entry a sq), None)"
  proof (rule map_of_rev_unique)
    fix v
    assume "(KeyAccount (ta_public_key a), v) \<in> set (test_preloads trustlines sq accounts)"
    then obtain b where "b \<in> set accounts" "ta_public_key b = ta_public_key a"
      "v = (snd (account_ledger_entry b sq), None)"
      unfolding test_preloads_iff by fastforce
    with inj [of b] show "v = (snd (account_ledger_entry a sq), None)" by simp
  qed (use assms(2) in \<open>unfold test_preloads_iff, blast\<close>)
  assume asset: "asset \<in> set trustlines"
  show "map_of (rev (test_preloads trustlines sq accounts)) (KeyTrustline (ta_public_key a) asset)
      = Some (snd (trustline_entry a asset sq), None)"
  proof (rule map_of_rev_unique)
    fix v
    assume "(KeyTrustline (ta_public_key a) asset, v) \<in> set (test_preloads trustlines sq accounts)"
    then obtain b where "b \<in> set accounts" "ta_public_key b = ta_public_key a"
      "v = (snd (trustline_entry b asset sq), None)"
      unfolding test_preloads_iff by fastforce
    with inj [of b] show "v = (snd (trustline_entry a asset sq), None)" by simp
  qed (use assms(2) asset in \<open>unfold test_preloads_iff, blast\<close>)
qed

lemma fee_configuration_once:
  "fee_configuration X fk = Some (Inr c, fk') \<Longrightarrow> fee_configuration X fk' = Some (Inr c, fk')"
  by (auto simp: fee_configuration_def split: option.splits sum.splits prod.splits)

lemma val_i128_val [simp]: "val_i128 (i128_val x) = Some x"
proof -
  have "i128_from_pieces (ucast (drop_bit 64 x)) (ucast x) = x"
    unfolding i128_from_pieces_def
    by (rule bit_word_eqI) (auto simp: bit_simps not_less dest: bit_imp_le_length)
  then show ?thesis by (simp add: i128_val_def)
qed

section \<open>Properties\<close>

text \<open>
  C34: A built fork never reports a protocol above what the host supports or above the
  requested maximum; its clock and sequence are the pinned ones where pinned; a pinned
  network id comes with no passphrase, and otherwise the id is the hash of the passphrase.
\<close>

theorem build_reports:
  assumes "build X set_diag IO cfg files w = Some (Inr fk)"
  shows "li_protocol_version (fk_ledger fk) \<le> host_max_protocol X
    \<and> (\<forall>m. cfg_max_protocol_version cfg = Some m \<longrightarrow> li_protocol_version (fk_ledger fk) \<le> m)
    \<and> (\<forall>sq. cfg_pinned_ledger cfg = Some sq \<longrightarrow> ledger_sequence fk = sq)
    \<and> (\<forall>t. cfg_pinned_timestamp cfg = Some t \<longrightarrow> ledger_close_time fk = t)
    \<and> (\<forall>i. cfg_network_id cfg = Some i \<longrightarrow> fk_network_id fk = i \<and> fk_passphrase fk = None)
    \<and> (cfg_network_id cfg = None \<longrightarrow>
        (\<exists>p. fk_passphrase fk = Some p \<and> fk_network_id fk = sha256 X (bytes_of_str p)))
    \<and> li_network_id (fk_ledger fk) = fk_network_id fk"
  using assms
proof (cases rule: build_cases)
  case (1 client s0 latest w1)
  from resolve_network_cases [OF 1(3)] 1 cap_protocol_version_le
  show ?thesis by (auto simp: ledger_sequence_def ledger_close_time_def fork_ledger_info_def)
qed

lemma built_account_known:
  assumes "build X set_diag IO cfg files w = Some (Inr fk)" "entry_codec_ok X"
    "distinct (map ta_public_key (fk_test_accounts fk))" "a \<in> set (fk_test_accounts fk)"
  shows "known X (fk_source fk) (KeyAccount (ta_public_key a))
       = Some (Some (snd (account_ledger_entry a (fk_ledger_sequence fk)), None))"
    and "asset \<in> set (cfg_test_trustlines cfg) \<Longrightarrow> known X (fk_source fk) (KeyTrustline (ta_public_key a) asset)
         = Some (Some (snd (trustline_entry a asset (fk_ledger_sequence fk)), None))"
  using assms(1)
  by (cases rule: build_cases;
      use preload_known [OF assms(2)] test_preloads_known [OF assms(3,4)] in force)+

text \<open>
  The accounts of a built fork exist on it: each resolves from the cache, without a fetch,
  to the account entry minted for it, and so does each of its trustlines, whatever the cache
  file held.
\<close>

lemma build_accounts_known:
  assumes "build X set_diag IO cfg files w = Some (Inr fk)" "entry_codec_ok X"
    "distinct (map ta_public_key (fk_test_accounts fk))" "a \<in> set (fk_test_accounts fk)"
  shows "known X (fk_source fk) (KeyAccount (ta_public_key a))
       = Some (Some (snd (account_ledger_entry a (fk_ledger_sequence fk)), None))
    \<and> (\<forall>asset \<in> set (cfg_test_trustlines cfg).
         known X (fk_source fk) (KeyTrustline (ta_public_key a) asset)
         = Some (Some (snd (trustline_entry a asset (fk_ledger_sequence fk)), None)))"
  using built_account_known [OF assms] by blast


text \<open>
  The cache file carries the fork's state to the next run: what was saved on drop, loaded
  and preloaded into a fresh source, makes known exactly the entries that were known to exist,
  with their TTLs; absences are not carried over.
\<close>

lemma cache_persists:
  assumes "key_order_ok K X" "cache_keys s \<subseteq> K" "cache_sorted X s" "cache_decodes X s"
    "entry_codec_ok X" "write_ok IO" "entries X s \<noteq> Some []"
    "do_save_cache X IO s path sq ts nid pv files = Some (Inr (), states)"
    "load_snapshot IO path (last states) = Inr es" "preload X es (source_new c) = Some s'"
  shows "known X s' k = map_option Some (known_entry (known X s k))"
proof -
  obtain out where out: "entries X s = Some out" "distinct (map fst out)"
    "snapshot_map out = (\<lambda>k. known_entry (known X s k))"
    using entries_known [OF assms(1-4)] by blast
  with assms(7,8) have "save_snapshot IO path out sq ts nid pv files = (Inr (), states)"
    by (auto simp: do_save_cache_def split: list.splits)
  with save_then_load [OF assms(6)] assms(9) have "es = out" by fastforce
  with preload_known [OF assms(5,10)] out show ?thesis
    by (simp add: map_of_rev_distinct split: option.splits)
qed

text \<open>
  A token as SEP-41 has it, on the balance \<open>bal\<close> of the account: amounts are \<open>i128\<close> values,
  and a value of another type is rejected (the call traps).
\<close>

definition sep41_token ::
  "'e contract_call \<Rightarrow> sc_address \<Rightarrow> sc_address \<Rightarrow> ('e \<Rightarrow> int) \<Rightarrow> bool" where
  "sep41_token invoke token to bal \<longleftrightarrow>
     (\<forall>e. 0 \<le> bal e \<and> bal e < 2 ^ 127
        \<and> invoke token ''balance'' [ScAddress to] e = Some (i128_val (word_of_int (bal e)), e)
        \<and> (\<forall>d. 0 < sint d \<and> bal e + sint d < 2 ^ 127 \<longrightarrow>
             (\<exists>e'. invoke token ''mint'' [ScAddress to, i128_val d] e = Some (ScVoid, e')
                \<and> bal e' = bal e + sint d))
        \<and> (\<forall>v. val_i128 v = None \<longrightarrow> invoke token ''burn'' [ScAddress to, v] e = None))"

lemma sint_sub_i128:
  assumes "- (2 ^ 127) \<le> sint (a :: i128) - i" "sint a - i < 2 ^ 127"
  shows "sint (a - word_of_int i) = sint a - i"
proof -
  have "a - word_of_int i = word_of_int (sint a - i)" by simp
  with sint_of_int_i128 [OF assms] show ?thesis by metis
qed

text \<open>
  C33: On a SEP-41 token \<open>deal_token\<close> sets the balance to exactly the amount asked when that
  is no less than the current balance. When it is less it always panics: the amount to burn is
  passed as a \<open>u128\<close>, which a token, whose amounts are \<open>i128\<close>, rejects.
\<close>

theorem deal_token_sep41:
  assumes "sep41_token invoke token to bal" "0 \<le> sint amount"
  shows "case deal_token X invoke token to amount e of
      Some e' \<Rightarrow> bal e \<le> sint amount \<and> bal e' = sint amount
    | None \<Rightarrow> sint amount < bal e"
proof -
  let ?cur = "word_of_int (bal e) :: i128"
  have t: "0 \<le> bal e" "bal e < 2 ^ 127"
    and b: "invoke token ''balance'' [ScAddress to] e = Some (i128_val ?cur, e)"
    and m: "\<And>d. 0 < sint d \<Longrightarrow> bal e + sint d < 2 ^ 127 \<Longrightarrow>
        \<exists>e'. invoke token ''mint'' [ScAddress to, i128_val d] e = Some (ScVoid, e') \<and> bal e' = bal e + sint d"
    and u: "\<And>v. val_i128 v = None \<Longrightarrow> invoke token ''burn'' [ScAddress to, v] e = None"
    using assms(1) unfolding sep41_token_def by blast+
  have top: "sint amount < 2 ^ 127"
    using sint_range_size [of amount] by (simp add: word_size)
  have cur: "sint ?cur = bal e" using t by (intro sint_of_int_i128) simp_all
  have d: "sint (amount - ?cur) = sint amount - bal e"
    using t top assms(2) by (intro sint_sub_i128) simp_all
  have s: "sub_i128 X amount ?cur = Some (amount - ?cur)"
    using t top assms(2) by (simp add: sub_i128_def cur)
  have z: "amount - ?cur = 0 \<longleftrightarrow> sint amount = bal e"
    using d by (metis diff_eq_diff_eq sint_0 signed_word_eqI eq_iff_diff_eq_0)
  show ?thesis
  proof (cases "sint amount < bal e")
    case True
    with d z show ?thesis
      by (simp add: deal_token_def b s u [unfolded u128_val_def] u128_val_def)
  next
    case False
    with m [of "amount - ?cur"] d z top show ?thesis
      by (auto simp: deal_token_def b s)
  qed
qed

section \<open>At a concrete input\<close>

text \<open>An upstream that answers, and a codec that knows the one test account.\<close>

definition online_account :: ledger_entry where
  "online_account = snd (account_ledger_entry (generate_one sample_lib 0) 5)"

definition online_line :: ledger_entry where
  "online_line = snd (trustline_entry (generate_one sample_lib 0) (CreditAlphanum4 (bytes_of_str ''USDC'') [1]) 5)"

definition online_reply :: "json \<Rightarrow> json" where
  "online_reply request =
     (let m = json_index request ''method'' in
      if m = JString ''getLatestLedger'' then
        JObject [(''id'', JString []), (''protocolVersion'', j_u32 26), (''sequence'', j_u32 5)]
      else if m = JString ''getLedgers'' then
        JObject [(''ledgers'', JArray [JObject [(''sequence'', j_u32 5), (''ledgerCloseTime'', JString ''9'')]])]
      else JObject [(''passphrase'', JString ''net'')])"

definition online_lib :: ext_lib where
  "online_lib = sample_lib
     \<lparr>entry_to_xdr := (\<lambda>e. if e = online_account then Inr [7] else if e = online_line then Inr [8]
                            else Inl ''unsupported''),
      entry_from_xdr := (\<lambda>b. if b = [7] then Inr online_account else if b = [8] then Inr online_line
                              else Inl ''unsupported''),
      parse_strkey_account := (\<lambda>_. Inr [1]),
      upstream := (\<lambda>n q. HttpResponse 200 None (Inr (JObject [(''result'', online_reply (hq_body q))])))\<rparr>"

definition online_config :: fork_config where
  "online_config =
     \<lparr> cfg_rpc_url = ''http://rpc'', cfg_cache_path = None, cfg_network_id = None,
       cfg_fetch_mode = None, cfg_pinned_ledger = None, cfg_pinned_timestamp = Some 77,
       cfg_max_protocol_version = None, cfg_rpc_config = rpc_config_default, cfg_tracing = False,
       cfg_test_account_count = 1, cfg_test_trustlines = [] \<rparr>"

lemma online_simps:
  "entry_to_xdr online_lib e = (if e = online_account then Inr [7] else if e = online_line then Inr [8]
     else Inl ''unsupported'')"
  "entry_from_xdr online_lib b = (if b = [7] then Inr online_account else if b = [8] then Inr online_line
     else Inl ''unsupported'')"
  "parse_strkey_account online_lib s = Inr [1]"
  "upstream online_lib n q = HttpResponse 200 None (Inr (JObject [(''result'', online_reply (hq_body q))]))"
  "overflow_checks online_lib" "http_client_build online_lib = None" "host_max_protocol online_lib = 23"
  "sha256 online_lib = sha256 sample_lib" "ed25519_public online_lib = ed25519_public sample_lib"
  by (simp_all add: online_lib_def sample_lib_def)

lemma online_codec: "entry_codec_ok online_lib"
  by (simp add: entry_codec_ok_def online_simps)

lemma online_generate: "generate online_lib (Suc 0) = [generate_one sample_lib 0]"
  by (simp add: generate_def generate_one_def Let_def online_simps)

text \<open>The calls depend on the upstream only, so they succeed with every library that has this one.\<close>

lemma online_call:
  assumes up: "upstream X = upstream online_lib" and "rc_config client = rpc_config_default" "d (online_reply (rpc_request_json m p)) = Some a"
    "\<And>j. d j = Some a \<Longrightarrow> j \<noteq> JNull"
  shows "rpc_call X client d m p w = Some (Inr a, w\<lparr>w_sent := Suc (w_sent w)\<rparr>)"
proof -
  have o: "dec_opt d (online_reply (rpc_request_json m p)) = Some (Some a)"
    using assms(3,4) by (cases "online_reply (rpc_request_json m p)") auto
  show ?thesis
    by (simp add: rpc_call_def rpc_post_def total_attempts_def assms(2) rpc_config_default_def
        upt_conv_Cons try_once_def classify_response_def up online_simps status_retryable_def
        status_success_def dec_rpc_response_def fld_opt_def o into_result_def)
qed

lemma dec_structs_not_null:
  "dec_get_latest_ledger_result j = Some a \<Longrightarrow> j \<noteq> JNull"
  "dec_get_ledgers_result j = Some b \<Longrightarrow> j \<noteq> JNull"
  "dec_get_network_result j = Some c \<Longrightarrow> j \<noteq> JNull"
  by (auto simp: dec_get_latest_ledger_result_def dec_get_ledgers_result_def dec_get_network_result_def)

definition online_client :: rpc_client where
  "online_client = \<lparr> rc_url = ''http://rpc'', rc_config = rpc_config_default \<rparr>"

lemma online_ledger:
  assumes "upstream X = upstream online_lib"
  shows "get_latest_ledger X online_client w = Some (Inr \<lparr> ll_sequence = 5, ll_protocol_version = 26,
     ll_close_time = 9 \<rparr>, w\<lparr>w_sent := Suc (Suc (w_sent w))\<rparr>)"
proof -
  have l: "dec_get_latest_ledger_result (online_reply (rpc_request_json ''getLatestLedger'' p))
      = Some \<lparr> llr_protocol_version = 26, llr_sequence = 5 \<rparr>" for p
    by (simp add: online_reply_def rpc_request_json_def dec_get_latest_ledger_result_def fld_defs)
  have t: "dec_get_ledgers_result (online_reply (rpc_request_json ''getLedgers'' p)) = Some [''9'']" for p
    by (simp add: online_reply_def rpc_request_json_def dec_get_ledgers_result_def dec_ledger_info_wire_def fld_defs)
  have nine: "parse_unsigned 64 ''9'' = Inr 9"
    by (simp add: parse_unsigned_def char_digit_def)
  have "rc_config online_client = rpc_config_default" by (simp add: online_client_def)
  note call = online_call [OF assms this]
  show ?thesis
    by (simp add: get_latest_ledger_def get_ledger_close_time_def nine
        call [where d = dec_get_latest_ledger_result, OF l dec_structs_not_null(1)] call [where d = dec_get_ledgers_result, OF t dec_structs_not_null(2)])
qed

lemma online_network:
  assumes "upstream X = upstream online_lib" "cfg_network_id cfg = None"
  shows "\<exists>i w'. resolve_network X cfg online_client w = Some (Inr (i, Some ''net''), w')"
proof -
  have n: "dec_get_network_result (online_reply (rpc_request_json ''getNetwork'' p)) = Some ''net''" for p
    by (simp add: online_reply_def rpc_request_json_def dec_get_network_result_def fld_defs)
  have "rc_config online_client = rpc_config_default" by (simp add: online_client_def)
  from online_call [OF assms(1) this, where d = dec_get_network_result, OF n dec_structs_not_null(3)] assms(2) show ?thesis
    by (simp add: resolve_network_def get_network_def)
qed

lemma online_encode:
  "encode_entry online_lib online_account = Some [7]" "online_line \<noteq> online_account"
  "encode_entry online_lib online_line = Some [8]"
proof -
  show ne: "online_line \<noteq> online_account"
    by (simp add: online_account_def online_line_def account_ledger_entry_def trustline_entry_def Let_def)
  show "encode_entry online_lib online_account = Some [7]" "encode_entry online_lib online_line = Some [8]"
    using ne by (simp_all add: encode_entry_def online_simps)
qed

lemma online_config_fields:
  "cfg_rpc_url online_config = ''http://rpc''" "cfg_cache_path online_config = None"
  "cfg_network_id online_config = None" "cfg_fetch_mode online_config = None"
  "cfg_pinned_ledger online_config = None" "cfg_rpc_config online_config = rpc_config_default"
  "cfg_test_account_count online_config = 1" "cfg_test_trustlines online_config = []"
  by (simp_all add: online_config_def)

lemma build_source_fresh:
  "cfg_cache_path cfg = None \<Longrightarrow> cfg_fetch_mode cfg = None \<Longrightarrow> build_source X IO cfg client files = Some (source_new client)"
  by (simp add: build_source_def)

lemma online_build:
  "\<exists>fk. build online_lib (\<lambda>_. None) sample_io online_config (\<lambda>_. None) w = Some (Inr fk)
     \<and> fk_test_accounts fk = [generate_one sample_lib 0]"
proof -
  obtain i w' where n: "resolve_network online_lib online_config online_client (w\<lparr>w_sent := Suc (Suc (w_sent w))\<rparr>)
      = Some (Inr (i, Some ''net''), w')"
    using online_network [OF refl online_config_fields(3)] by blast
  have c: "rpc_client_new online_lib ''http://rpc'' rpc_config_default = Inr online_client"
    by (simp add: rpc_client_new_def online_simps online_client_def)
  have "encode_entry online_lib (snd (account_ledger_entry (generate_one sample_lib 0) 5)) = Some [7]"
    using online_encode(1) by (simp add: online_account_def)
  then show ?thesis
    by (simp add: build_def c build_source_fresh online_config_fields online_ledger n online_simps Let_def online_generate
        test_preloads_def account_preloads_eq)
qed

theorem build_reports_witness:
  "\<exists>fk. build online_lib (\<lambda>_. None) sample_io online_config (\<lambda>_. None) sample_world = Some (Inr fk)
     \<and> li_protocol_version (fk_ledger fk) \<le> 23 \<and> ledger_close_time fk = 77"
proof -
  obtain fk where fk: "build online_lib (\<lambda>_. None) sample_io online_config (\<lambda>_. None) sample_world = Some (Inr fk)"
    using online_build by blast
  from build_reports [OF fk] fk show ?thesis by (simp add: online_simps online_config_def)
qed

text \<open>A token whose state is its balance.\<close>

fun toy_token :: "nat contract_call" where
  "toy_token token fname [a] b = Some (i128_val (word_of_int (int b mod 2 ^ 127)), b)"
| "toy_token token fname [a, v] b =
     (case val_i128 v of
        None \<Rightarrow> None
      | Some d \<Rightarrow> if fname = ''mint'' \<and> 0 < sint d then Some (ScVoid, b + nat (sint d)) else None)"
| "toy_token token fname args b = None"

lemma toy_token_sep41: "sep41_token toy_token token to (\<lambda>b. int b mod 2 ^ 127)"
  unfolding sep41_token_def
proof (intro allI conjI impI)
  fix b :: nat and d :: i128
  assume d: "0 < sint d \<and> int b mod 2 ^ 127 + sint d < 2 ^ 127"
  then have "(int b + sint d) mod 2 ^ 127 = int b mod 2 ^ 127 + sint d"
    by (metis mod_add_left_eq mod_pos_pos_trivial add_nonneg_nonneg less_imp_le pos_mod_sign zero_less_numeral zero_less_power)
  with d show "\<exists>e'. toy_token token ''mint'' [ScAddress to, i128_val d] b = Some (ScVoid, e')
      \<and> int e' mod 2 ^ 127 = int b mod 2 ^ 127 + sint d"
    by (intro exI [of _ "b + nat (sint d)"]) simp
qed simp_all

theorem deal_token_sep41_witness:
  "case deal_token sample_lib toy_token (AddrContract [1]) (AddrAccount [2]) 9 (4 :: nat) of
     Some b \<Rightarrow> int b mod 2 ^ 127 = 9 | None \<Rightarrow> False"
  using deal_token_sep41 [OF toy_token_sep41, where amount = 9 and X = sample_lib and e = 4
      and token = "AddrContract [1]" and to = "AddrAccount [2]"]
  by (simp split: option.splits)

end
