(* ===== verification/Actor.thy ===== *)
theory Actor
  imports Fork
begin

text \<open>
  The worker of the JSON-RPC server, \<open>src/server/actor.rs\<close>: one thread owns the fork and takes
  one command at a time. \<open>worker_step\<close> is the body of \<open>worker_loop\<close>; \<open>None\<close> is a panic, after
  which the thread is gone. The one-shot sender of a command is the pairing of a command with
  the reply \<open>worker_step\<close> returns.
\<close>

section \<open>Commands and replies\<close>

datatype command =
    CmdGetNetwork
  | CmdGetLatestLedger
  | CmdGetLedgersPage
  | CmdGetLedgerEntries "ledger_key list"
  | CmdSimulateTransaction host_function account_id u32
  | CmdSendTransaction bytes host_function account_id
  | CmdSetLedgerEntry ledger_key ledger_entry "u32 option"
  | CmdCloseLedgers u32 u64
  | CmdGetTransaction hash

record network_reply =
  nr_passphrase :: string
  nr_protocol_version :: u32
  nr_network_id_hex :: string

record latest_ledger_reply =
  lr_sequence :: u32
  lr_protocol_version :: u32
  lr_id :: string

record ledgers_page_reply =
  lp_sequence :: u32
  lp_close_time :: u64

record ledger_entries_reply =
  ler_entries :: "snapshot_entry option list"
  ler_latest_ledger :: u32

record simulation_reply =
  sim_result :: "string + scval"
  sim_auth :: "bytes list"
  sim_resources :: soroban_resources
  sim_contract_events :: "contract_event list"
  sim_diagnostic_events :: "diagnostic_event list"
  sim_latest_ledger :: u32
  sim_min_resource_fee :: "i64 option"
  sim_mem_bytes :: "u64 option"

record tx_receipt =
  rcpt_result :: "string + scval"
  rcpt_envelope_bytes :: bytes
  rcpt_ledger :: u32
  rcpt_created_at :: u64
  rcpt_applied_changes :: u32

record send_reply =
  sr_hash :: hash
  sr_receipt :: tx_receipt

record close_ledgers_reply =
  cl_new_sequence :: u32
  cl_new_close_time :: u64

datatype reply =
    ReplyNetwork network_reply
  | ReplyLatestLedger latest_ledger_reply
  | ReplyLedgersPage ledgers_page_reply
  | ReplyLedgerEntries ledger_entries_reply
  | ReplySimulation simulation_reply
  | ReplySend send_reply
  | ReplySet
  | ReplyCloseLedgers close_ledgers_reply
  | ReplyTransaction "tx_receipt option"

section \<open>The worker\<close>

record worker =
  wk_env :: forked_env
  wk_receipts :: "hash \<Rightarrow> tx_receipt option"
  wk_clock :: nat                     \<comment> \<open>readings of the system clock so far\<close>

definition hex_encode :: "bytes \<Rightarrow> string" where
  "hex_encode bs = concat (map byte_02x bs)"

definition empty_soroban_resources :: soroban_resources where
  "empty_soroban_resources =
     \<lparr> res_read_only = [], res_read_write = [], res_instructions = 0,
       res_disk_read_bytes = 0, res_write_bytes = 0 \<rparr>"

text \<open>\<open>invoke_host_function_in_recording_mode\<close> on the fork's source and current ledger info.\<close>

definition host_request_of :: "forked_env \<Rightarrow> host_function \<Rightarrow> account_id \<Rightarrow> host_request" where
  "host_request_of fk hf account =
     \<lparr> hr_function = hf, hr_source = account, hr_recording_auth = False, hr_diagnostics = True,
       hr_ledger_info = fk_ledger fk, hr_prng_seed = replicate 32 0 \<rparr>"

definition invoke_recording ::
  "ext_lib \<Rightarrow> forked_env \<Rightarrow> host_function \<Rightarrow> account_id \<Rightarrow> (host_outcome \<times> forked_env) option" where
  "invoke_recording X fk hf account =
     (case run_host (host_invoke X (host_request_of fk hf account)) (snapshot_get X) (fk_source fk, fk_world fk) of
        None \<Rightarrow> None
      | Some (out, s, w) \<Rightarrow> Some (out, fk\<lparr>fk_source := s, fk_world := w\<rparr>))"

text \<open>The size of the contract events, each wrapped as a \<open>DiagnosticEvent\<close>.\<close>

fun contract_events_size :: "ext_lib \<Rightarrow> u32 \<Rightarrow> contract_event list \<Rightarrow> u32 option" where
  "contract_events_size X acc [] = Some acc"
| "contract_events_size X acc (ce # rest) =
     (case devent_to_xdr X \<lparr> de_success = True, de_event = ce \<rparr> of
        Inl _ \<Rightarrow> None
      | Inr bs \<Rightarrow> contract_events_size X (sat_add acc (word_of_nat (length bs))) rest)"

definition compute_min_resource_fee ::
  "ext_lib \<Rightarrow> forked_env \<Rightarrow> soroban_resources \<Rightarrow> contract_event list \<Rightarrow> u32
    \<Rightarrow> (i64 option \<times> forked_env) option" where
  "compute_min_resource_fee X fk resources events transaction_size_bytes =
     (case fee_configuration X fk of
        None \<Rightarrow> None
      | Some (Inl e, fk') \<Rightarrow> Some (None, fk')
      | Some (Inr fee_config, fk') \<Rightarrow>
          (case contract_events_size X 0 events of
             None \<Rightarrow> Some (None, fk')
           | Some events_size \<Rightarrow>
               (let read_only_count = (word_of_nat (length (res_read_only resources)) :: u32);
                    read_write_count = (word_of_nat (length (res_read_write resources)) :: u32);
                    tx_resources =
                      \<lparr> tr_instructions = res_instructions resources,
                        tr_disk_read_entries = sat_add read_only_count read_write_count,
                        tr_write_entries = read_write_count,
                        tr_disk_read_bytes = res_disk_read_bytes resources,
                        tr_write_bytes = res_write_bytes resources,
                        tr_contract_events_size_bytes = events_size,
                        tr_transaction_size_bytes = transaction_size_bytes \<rparr>;
                    (non_refundable, refundable) = host_fee X tx_resources fee_config
                in Some (Some (sat_add_i64 non_refundable refundable), fk'))))"

definition host_error :: "string + scval \<Rightarrow> string + scval" where
  "host_error r = map_err (\<lambda>e. ''host error: '' @ e) r"

definition simulate_transaction ::
  "ext_lib \<Rightarrow> forked_env \<Rightarrow> host_function \<Rightarrow> account_id \<Rightarrow> u32 \<Rightarrow> (simulation_reply \<times> forked_env) option" where
  "simulate_transaction X fk hf account transaction_size_bytes =
     (case invoke_recording X fk hf account of
        None \<Rightarrow> None
      | Some (out, fk1) \<Rightarrow>
          (case ho_result out of
             Inr rc \<Rightarrow>
               (case compute_min_resource_fee X fk1 (rr_resources rc) (rr_contract_events rc)
                       transaction_size_bytes of
                  None \<Rightarrow> None
                | Some (fee, fk2) \<Rightarrow>
                    Some (\<lparr> sim_result = host_error (rr_invoke_result rc),
                            sim_auth = rr_auth rc,
                            sim_resources = rr_resources rc,
                            sim_contract_events = rr_contract_events rc,
                            sim_diagnostic_events = ho_diagnostic_events out,
                            sim_latest_ledger = ledger_sequence fk1,
                            sim_min_resource_fee = fee,
                            sim_mem_bytes = ho_mem_bytes out \<rparr>, fk2))
           | Inl e \<Rightarrow>
               Some (\<lparr> sim_result = Inl (''recording-mode error: '' @ e),
                       sim_auth = [],
                       sim_resources = empty_soroban_resources,
                       sim_contract_events = [],
                       sim_diagnostic_events = ho_diagnostic_events out,
                       sim_latest_ledger = ledger_sequence fk1,
                       sim_min_resource_fee = None,
                       sim_mem_bytes = ho_mem_bytes out \<rparr>, fk1)))"

definition canonical_tx_hash :: "ext_lib \<Rightarrow> bytes \<Rightarrow> hash \<Rightarrow> string + hash" where
  "canonical_tx_hash X envelope_bytes net_id =
     res_bind (map_err (\<lambda>e. ''envelope decode for hash: '' @ e) (envelope_from_xdr X envelope_bytes))
       (\<lambda>envelope.
          res_bind
            (case envelope of
               EnvTx v1 \<Rightarrow> Inr (TaggedTx (v1_tx v1))
             | EnvTxFeeBump fb _ \<Rightarrow> Inr (TaggedTxFeeBump fb)
             | EnvTxV0 _ \<Rightarrow> Inl ''V0 envelopes do not have a Soroban-canonical hash'')
            (\<lambda>tagged.
               res_bind (map_err (\<lambda>e. ''payload encode for hash: '' @ e) (sig_payload_to_xdr X net_id tagged))
                 (\<lambda>payload_xdr. Inr (sha256 X payload_xdr))))"

text \<open>The writes of a run: applied when the invocation succeeded, else none.\<close>

definition apply_result ::
  "ext_lib \<Rightarrow> host_outcome \<Rightarrow> source \<Rightarrow> ((string + scval) \<times> u32 \<times> source) option" where
  "apply_result X out s =
     (case ho_result out of
        Inr rc \<Rightarrow>
          (let result = host_error (rr_invoke_result rc) in
           if is_ok result then
             (case apply_changes X (rr_ledger_changes rc) s of
                None \<Rightarrow> None
              | Some (applied, s') \<Rightarrow> Some (result, applied, s'))
           else Some (result, 0, s))
      | Inl e \<Rightarrow> Some (Inl (''recording-mode error: '' @ e), 0, s))"

definition unix_seconds :: "nat option \<Rightarrow> u64" where
  "unix_seconds now = word_of_nat (unwrap_or 0 now div 1000000000)"

definition tx_hash_of :: "ext_lib \<Rightarrow> bytes \<Rightarrow> hash \<Rightarrow> hash" where
  "tx_hash_of X envelope_bytes net_id =
     (case canonical_tx_hash X envelope_bytes net_id of Inr h \<Rightarrow> h | Inl _ \<Rightarrow> sha256 X envelope_bytes)"

definition send_transaction ::
  "ext_lib \<Rightarrow> forked_env \<Rightarrow> nat \<Rightarrow> bytes \<Rightarrow> host_function \<Rightarrow> account_id \<Rightarrow> (send_reply \<times> forked_env) option" where
  "send_transaction X fk clock envelope_bytes hf account =
     (case invoke_recording X fk hf account of
        None \<Rightarrow> None
      | Some (out, fk1) \<Rightarrow>
          (case apply_result X out (fk_source fk1) of
             None \<Rightarrow> None
           | Some (result, applied, s) \<Rightarrow>
               (let s' = (if is_ok result then snd (bump_account_seq X account s) else s)
                in Some (\<lparr> sr_hash = tx_hash_of X envelope_bytes (fk_network_id fk1),
                           sr_receipt = \<lparr> rcpt_result = result,
                                          rcpt_envelope_bytes = envelope_bytes,
                                          rcpt_ledger = ledger_sequence fk1,
                                          rcpt_created_at = unix_seconds (wall_clock X clock),
                                          rcpt_applied_changes = applied \<rparr> \<rparr>,
                         fk1\<lparr>fk_source := s'\<rparr>))))"

fun resolve_ledger_entries ::
  "ext_lib \<Rightarrow> ledger_key list \<Rightarrow> forked_env \<Rightarrow> (snapshot_entry option list \<times> forked_env) option" where
  "resolve_ledger_entries X [] fk = Some ([], fk)"
| "resolve_ledger_entries X (key # keys) fk =
     (case fork_get X key fk of
        None \<Rightarrow> None
      | Some (v, fk1) \<Rightarrow>
          (case resolve_ledger_entries X keys fk1 of
             None \<Rightarrow> None
           | Some (es, fk2) \<Rightarrow>
               Some (map_option (\<lambda>(entry, live_until). (key, entry, live_until)) v # es, fk2)))"

definition network_label :: string where
  "network_label = ''Forked Soroban Network (custom network_id)''"

fun worker_step :: "ext_lib \<Rightarrow> command \<Rightarrow> worker \<Rightarrow> (reply \<times> worker) option" where
  "worker_step X CmdGetNetwork wk =
     Some (ReplyNetwork \<lparr> nr_passphrase = unwrap_or network_label (fk_passphrase (wk_env wk)),
                          nr_protocol_version = fk_protocol_version (wk_env wk),
                          nr_network_id_hex = hex_encode (fk_network_id (wk_env wk)) \<rparr>, wk)"
| "worker_step X CmdGetLatestLedger wk =
     Some (ReplyLatestLedger \<lparr> lr_sequence = ledger_sequence (wk_env wk),
                               lr_protocol_version = fk_protocol_version (wk_env wk),
                               lr_id = ''forked-ledger-'' @ show_u (ledger_sequence (wk_env wk)) \<rparr>, wk)"
| "worker_step X CmdGetLedgersPage wk =
     Some (ReplyLedgersPage \<lparr> lp_sequence = ledger_sequence (wk_env wk),
                              lp_close_time = ledger_close_time (wk_env wk) \<rparr>, wk)"
| "worker_step X (CmdGetLedgerEntries keys) wk =
     (case resolve_ledger_entries X keys (wk_env wk) of
        None \<Rightarrow> None
      | Some (es, fk) \<Rightarrow>
          Some (ReplyLedgerEntries \<lparr> ler_entries = es, ler_latest_ledger = ledger_sequence fk \<rparr>,
                wk\<lparr>wk_env := fk\<rparr>))"
| "worker_step X (CmdSimulateTransaction hf account size_bytes) wk =
     (case simulate_transaction X (wk_env wk) hf account size_bytes of
        None \<Rightarrow> None
      | Some (r, fk) \<Rightarrow> Some (ReplySimulation r, wk\<lparr>wk_env := fk\<rparr>))"
| "worker_step X (CmdSendTransaction envelope_bytes hf account) wk =
     (case send_transaction X (wk_env wk) (wk_clock wk) envelope_bytes hf account of
        None \<Rightarrow> None
      | Some (r, fk) \<Rightarrow>
          Some (ReplySend r, wk\<lparr>wk_env := fk, wk_clock := Suc (wk_clock wk),
                              wk_receipts := (wk_receipts wk)(sr_hash r \<mapsto> sr_receipt r)\<rparr>))"
| "worker_step X (CmdGetTransaction h) wk = Some (ReplyTransaction (wk_receipts wk h), wk)"
| "worker_step X (CmdSetLedgerEntry key entry live_until) wk =
     (case set_entry X key entry live_until (fk_source (wk_env wk)) of
        None \<Rightarrow> None
      | Some s \<Rightarrow> Some (ReplySet, wk\<lparr>wk_env := (wk_env wk)\<lparr>fk_source := s\<rparr>\<rparr>))"
| "worker_step X (CmdCloseLedgers ledgers seconds) wk =
     (let fk = warp ledgers seconds (wk_env wk)
      in Some (ReplyCloseLedgers \<lparr> cl_new_sequence = ledger_sequence fk,
                                   cl_new_close_time = ledger_close_time fk \<rparr>, wk\<lparr>wk_env := fk\<rparr>))"

definition worker_start :: "forked_env \<Rightarrow> worker" where
  "worker_start fk = \<lparr> wk_env = fk, wk_receipts = (\<lambda>_. None), wk_clock = 0 \<rparr>"

text \<open>\<open>spawn\<close>: the thread builds the fork; a build error is what \<open>ready_rx\<close> receives.\<close>

definition spawn ::
  "ext_lib \<Rightarrow> (bool \<Rightarrow> string option) \<Rightarrow> snapshot_io \<Rightarrow> fork_config \<Rightarrow> fs \<Rightarrow> rpc_world
    \<Rightarrow> (fork_error + worker) option" where
  "spawn X set_diag IO cfg files w =
     map_option (\<lambda>r. res_bind r (\<lambda>fk. Inr (worker_start fk))) (build X set_diag IO cfg files w)"

text \<open>\<open>worker_loop\<close> over the commands received until the channel closes.\<close>

fun worker_loop :: "ext_lib \<Rightarrow> command list \<Rightarrow> worker \<Rightarrow> (reply list \<times> worker) option" where
  "worker_loop X [] wk = Some ([], wk)"
| "worker_loop X (c # cs) wk =
     (case worker_step X c wk of
        None \<Rightarrow> None
      | Some (r, wk1) \<Rightarrow>
          (case worker_loop X cs wk1 of
             None \<Rightarrow> None
           | Some (rs, wk2) \<Rightarrow> Some (r # rs, wk2)))"

text \<open>\<open>ActorHandle::send\<close>: the worker, if it is still there (\<open>None\<close> when it is gone).\<close>

datatype actor_error = WorkerGone

fun actor_send :: "ext_lib \<Rightarrow> command \<Rightarrow> worker option \<Rightarrow> (actor_error + reply) \<times> worker option" where
  "actor_send X c None = (Inl WorkerGone, None)"
| "actor_send X c (Some wk) =
     (case worker_step X c wk of
        None \<Rightarrow> (Inl WorkerGone, None)
      | Some (r, wk') \<Rightarrow> (Inr r, Some wk'))"

definition show_actor_error :: "actor_error \<Rightarrow> string" where
  "show_actor_error e = (case e of WorkerGone \<Rightarrow> ''worker thread is no longer running'')"

section \<open>What the handlers rely on\<close>

text \<open>The reply of a command has the command's type, as the type of its one-shot sender says.\<close>

fun reply_for :: "command \<Rightarrow> reply \<Rightarrow> bool" where
  "reply_for CmdGetNetwork (ReplyNetwork _) = True"
| "reply_for CmdGetLatestLedger (ReplyLatestLedger _) = True"
| "reply_for CmdGetLedgersPage (ReplyLedgersPage _) = True"
| "reply_for (CmdGetLedgerEntries keys) (ReplyLedgerEntries r) = (length (ler_entries r) = length keys)"
| "reply_for (CmdSimulateTransaction _ _ _) (ReplySimulation _) = True"
| "reply_for (CmdSendTransaction _ _ _) (ReplySend _) = True"
| "reply_for (CmdSetLedgerEntry _ _ _) ReplySet = True"
| "reply_for (CmdCloseLedgers _ _) (ReplyCloseLedgers _) = True"
| "reply_for (CmdGetTransaction _) (ReplyTransaction _) = True"
| "reply_for _ _ = False"

locale actor =
  fixes exec :: "command \<Rightarrow> 'w \<Rightarrow> (reply \<times> 'w) option"
    and const :: "'w \<Rightarrow> 'c"
    and clock :: "'w \<Rightarrow> u32 \<times> u64"
    and receipts :: "'w \<Rightarrow> hash \<Rightarrow> tx_receipt option"
  assumes exec_reply: "exec c w = Some (r, w') \<Longrightarrow> reply_for c r"
    and exec_const: "exec c w = Some (r, w') \<Longrightarrow> const w' = const w"
    and exec_clock: "exec c w = Some (r, w') \<Longrightarrow> fst (clock w) \<le> fst (clock w') \<and> snd (clock w) \<le> snd (clock w')"
    and exec_receipt: "exec c w = Some (r, w') \<Longrightarrow>
      (\<forall>sr. r = ReplySend sr \<longrightarrow> receipts w' = (receipts w)(sr_hash sr \<mapsto> sr_receipt sr))
      \<and> ((\<forall>sr. r \<noteq> ReplySend sr) \<longrightarrow> receipts w' = receipts w)"
begin

text \<open>The states a worker goes through.\<close>

inductive reaches :: "'w \<Rightarrow> 'w \<Rightarrow> bool" where
  reaches_refl: "reaches w w"
| reaches_step: "reaches w w1 \<Longrightarrow> exec c w1 = Some (r, w2) \<Longrightarrow> reaches w w2"

lemma reaches_const: "reaches w w' \<Longrightarrow> const w' = const w"
  by (induction rule: reaches.induct) (auto dest: exec_const)

lemma reaches_clock:
  "reaches w w' \<Longrightarrow> fst (clock w) \<le> fst (clock w') \<and> snd (clock w) \<le> snd (clock w')"
  by (induction rule: reaches.induct) (auto dest: exec_clock intro: order_trans)

lemma reaches_receipt: "reaches w w' \<Longrightarrow> receipts w h \<noteq> None \<Longrightarrow> receipts w' h \<noteq> None"
proof (induction rule: reaches.induct)
  case (reaches_step w w1 c r w2)
  then show ?case using exec_receipt [OF reaches_step.hyps(2)] by (cases r) auto
qed simp

end

section \<open>What every operation keeps\<close>

definition fork_const ::
  "forked_env \<Rightarrow> path option \<times> u32 \<times> u64 \<times> hash \<times> u32 \<times> string option \<times> test_account list" where
  "fork_const fk = (fk_cache_path fk, fk_ledger_sequence fk, fk_timestamp fk, fk_network_id fk,
                    fk_protocol_version fk, fk_passphrase fk, fk_test_accounts fk)"

definition fork_same :: "forked_env \<Rightarrow> forked_env \<Rightarrow> bool" where
  "fork_same fk fk' \<longleftrightarrow> fork_const fk' = fork_const fk \<and> fk_ledger fk' = fk_ledger fk"

lemma fork_same_refl [simp]: "fork_same fk fk"
  by (simp add: fork_same_def)

lemma fork_same_trans: "fork_same a b \<Longrightarrow> fork_same b c \<Longrightarrow> fork_same a c"
  by (simp add: fork_same_def)

lemma fork_same_upd [simp]:
  "fork_same fk (fk'\<lparr>fk_source := s\<rparr>) = fork_same fk fk'"
  "fork_same fk (fk'\<lparr>fk_world := w\<rparr>) = fork_same fk fk'"
  "fork_same fk (fk'\<lparr>fk_fee_configuration := c\<rparr>) = fork_same fk fk'"
  by (simp_all add: fork_same_def fork_const_def)

lemma fork_get_same: "fork_get X key fk = Some (v, fk') \<Longrightarrow> fork_same fk fk'"
  by (auto simp: fork_get_def split: option.splits)

lemma fee_configuration_same: "fee_configuration X fk = Some (r, fk') \<Longrightarrow> fork_same fk fk'"
  by (auto simp: fee_configuration_def split: option.splits sum.splits prod.splits)

lemma invoke_recording_same: "invoke_recording X fk hf a = Some (out, fk') \<Longrightarrow> fork_same fk fk'"
  by (auto simp: invoke_recording_def split: option.splits)

lemma compute_min_resource_fee_same:
  "compute_min_resource_fee X fk res evs n = Some (r, fk') \<Longrightarrow> fork_same fk fk'"
  by (auto simp: compute_min_resource_fee_def Let_def dest!: fee_configuration_same
           split: option.splits sum.splits prod.splits)

lemma simulate_transaction_same: "simulate_transaction X fk hf a n = Some (r, fk') \<Longrightarrow> fork_same fk fk'"
  by (auto simp: simulate_transaction_def dest!: invoke_recording_same compute_min_resource_fee_same
           split: option.splits sum.splits) (rule fork_same_trans)

lemma send_transaction_same: "send_transaction X fk n e hf a = Some (r, fk') \<Longrightarrow> fork_same fk fk'"
  by (auto simp: send_transaction_def Let_def dest!: invoke_recording_same split: option.splits prod.splits)

lemma resolve_ledger_entries_same:
  "resolve_ledger_entries X keys fk = Some (es, fk') \<Longrightarrow> fork_same fk fk' \<and> length es = length keys"
proof (induction X keys fk arbitrary: es rule: resolve_ledger_entries.induct)
  case (2 X key keys fk)
  then show ?case
    by (auto dest!: fork_get_same split: option.splits) (blast intro: fork_same_trans)+
qed simp

lemma worker_step_keeps:
  assumes "worker_step X c wk = Some (r, wk')"
  shows "reply_for c r \<and> fork_const (wk_env wk') = fork_const (wk_env wk)
    \<and> ledger_sequence (wk_env wk) \<le> ledger_sequence (wk_env wk')
    \<and> ledger_close_time (wk_env wk) \<le> ledger_close_time (wk_env wk')"
proof -
  have same: "ledger_sequence (wk_env wk) \<le> ledger_sequence fk
      \<and> ledger_close_time (wk_env wk) \<le> ledger_close_time fk \<and> fork_const fk = fork_const (wk_env wk)"
    if "fork_same (wk_env wk) fk" for fk
    using that by (simp add: fork_same_def ledger_sequence_def ledger_close_time_def)
  show ?thesis
  proof (cases c)
    case (CmdGetLedgerEntries keys)
    with assms show ?thesis by (auto dest!: resolve_ledger_entries_same same split: option.splits)
  next
    case (CmdSimulateTransaction hf a n)
    with assms show ?thesis by (auto dest!: simulate_transaction_same same split: option.splits)
  next
    case (CmdSendTransaction e hf a)
    with assms show ?thesis by (auto dest!: send_transaction_same same split: option.splits)
  next
    case (CmdSetLedgerEntry k e lu)
    with assms show ?thesis
      by (auto simp: fork_const_def ledger_sequence_def ledger_close_time_def split: option.splits)
  next
    case (CmdCloseLedgers n s)
    with assms show ?thesis
      by (auto simp: Let_def warp_def fork_const_def ledger_sequence_def ledger_close_time_def sat_add_ge)
  qed (use assms in auto)
qed

lemma worker_step_receipts:
  assumes "worker_step X c wk = Some (r, wk')"
  shows "(\<forall>sr. r = ReplySend sr \<longrightarrow> wk_receipts wk' = (wk_receipts wk)(sr_hash sr \<mapsto> sr_receipt sr))
    \<and> ((\<forall>sr. r \<noteq> ReplySend sr) \<longrightarrow> wk_receipts wk' = wk_receipts wk)"
  using assms by (cases c) (auto simp: Let_def split: option.splits)

interpretation wk: actor "worker_step X" "\<lambda>wk. fork_const (wk_env wk)"
  "\<lambda>wk. (ledger_sequence (wk_env wk), ledger_close_time (wk_env wk))" wk_receipts for X
  by unfold_locales (auto dest: worker_step_keeps worker_step_receipts)

section \<open>What is known only grows, but for writes\<close>

definition fork_known :: "ext_lib \<Rightarrow> forked_env \<Rightarrow> ledger_key \<Rightarrow> live_entry option option" where
  "fork_known X fk = known X (fk_source fk)"

definition fork_ok :: "ext_lib \<Rightarrow> forked_env \<Rightarrow> bool" where
  "fork_ok X fk \<longleftrightarrow> source_ok X (fk_source fk, fk_world fk)"

definition knows_more :: "ext_lib \<Rightarrow> forked_env \<Rightarrow> forked_env \<Rightarrow> bool" where
  "knows_more X fk fk' \<longleftrightarrow> (\<forall>k v. fork_known X fk k = Some v \<longrightarrow> fork_known X fk' k = Some v)"

lemma knows_more_refl [simp]: "knows_more X fk fk"
  by (simp add: knows_more_def)

lemma knows_more_trans: "knows_more X a b \<Longrightarrow> knows_more X b c \<Longrightarrow> knows_more X a c"
  by (simp add: knows_more_def)

text \<open>A step that reads: it keeps the fork well-formed and only adds to what is known.\<close>

definition reads :: "ext_lib \<Rightarrow> forked_env \<Rightarrow> forked_env \<Rightarrow> bool" where
  "reads X fk fk' \<longleftrightarrow> fork_ok X fk' \<and> knows_more X fk fk' \<and> fork_same fk fk'"

lemma reads_refl: "fork_ok X fk \<Longrightarrow> reads X fk fk"
  by (simp add: reads_def)

lemma reads_trans: "reads X a b \<Longrightarrow> reads X b c \<Longrightarrow> reads X a c"
  by (auto simp: reads_def intro: knows_more_trans fork_same_trans)

lemma fork_get_reads: "fork_ok X fk \<Longrightarrow> fork_get X key fk = Some (v, fk') \<Longrightarrow> reads X fk fk'"
  unfolding reads_def fork_ok_def knows_more_def fork_known_def
  by (auto simp: fork_get_def dest: snap.get_ok snap.get_mono split: option.splits)

lemma invoke_recording_reads:
  "fork_ok X fk \<Longrightarrow> invoke_recording X fk hf a = Some (out, fk') \<Longrightarrow> reads X fk fk'"
  unfolding reads_def fork_ok_def knows_more_def fork_known_def
  by (auto simp: invoke_recording_def dest: snap.run_ok snap.run_mono split: option.splits)

lemma fee_configuration_reads:
  "fork_ok X fk \<Longrightarrow> fee_configuration X fk = Some (r, fk') \<Longrightarrow> reads X fk fk'"
  unfolding reads_def fork_ok_def knows_more_def fork_known_def
  by (auto simp: fee_configuration_def fetch_fee_configuration_def
           dest: snap.settings_ok snap.settings_mono split: option.splits sum.splits prod.splits)

lemma compute_min_resource_fee_reads:
  "fork_ok X fk \<Longrightarrow> compute_min_resource_fee X fk res evs n = Some (r, fk') \<Longrightarrow> reads X fk fk'"
  by (auto simp: compute_min_resource_fee_def Let_def dest!: fee_configuration_reads
           split: option.splits sum.splits prod.splits)

lemma simulate_transaction_reads:
  assumes "fork_ok X fk" "simulate_transaction X fk hf a n = Some (r, fk')"
  shows "reads X fk fk'"
proof -
  from assms(2) obtain out fk1 where inv: "invoke_recording X fk hf a = Some (out, fk1)"
    by (auto simp: simulate_transaction_def split: option.splits)
  have r1: "reads X fk fk1" by (rule invoke_recording_reads [OF assms(1) inv])
  have "reads X fk1 fk'"
    using assms(2) inv r1 compute_min_resource_fee_reads [of X fk1]
    by (auto simp: simulate_transaction_def reads_def split: option.splits sum.splits)
  with r1 show ?thesis by (rule reads_trans)
qed

lemma resolve_ledger_entries_reads:
  "fork_ok X fk \<Longrightarrow> resolve_ledger_entries X keys fk = Some (es, fk') \<Longrightarrow> reads X fk fk'"
proof (induction keys arbitrary: fk es)
  case (Cons key keys)
  then obtain v fk1 es1 where g: "fork_get X key fk = Some (v, fk1)"
    and rest: "resolve_ledger_entries X keys fk1 = Some (es1, fk')"
    by (auto split: option.splits)
  have r1: "reads X fk fk1" by (rule fork_get_reads [OF Cons.prems(1) g])
  then have "fork_ok X fk1" by (simp add: reads_def)
  from reads_trans [OF r1 Cons.IH [OF this rest]] show ?case .
qed (simp add: reads_refl)

section \<open>Replays\<close>

lemma fork_get_known: "fork_known X fk key = Some v \<Longrightarrow> fork_get X key fk = Some (v, fk)"
  by (simp add: fork_get_def fork_known_def known_hit)

lemma invoke_recording_again:
  assumes "fork_ok X fk" "invoke_recording X fk hf a = Some (out, fk1)" "reads X fk1 fk2"
  shows "invoke_recording X fk2 hf a = Some (out, fk2)"
proof -
  let ?p = "host_invoke X (host_request_of fk hf a)"
  have run: "run_host ?p (snapshot_get X) (fk_source fk, fk_world fk) = Some (out, fk_source fk1, fk_world fk1)"
    using assms(2) by (auto simp: invoke_recording_def split: option.splits)
  have "fk_ledger fk2 = fk_ledger fk"
    using assms(3) invoke_recording_same [OF assms(2)] by (simp add: reads_def fork_same_def)
  then have req: "host_request_of fk2 hf a = host_request_of fk hf a"
    by (simp add: host_request_of_def)
  have "run_host ?p (snapshot_get X) (fk_source fk2, fk_world fk2) = Some (out, fk_source fk2, fk_world fk2)"
    by (rule snap.run_transfer [OF _ run])
       (use assms(1,3) in \<open>auto simp: fork_ok_def reads_def knows_more_def fork_known_def\<close>)
  then show ?thesis by (simp add: invoke_recording_def req)
qed

lemma fee_configuration_again:
  assumes "fork_ok X fk" "fee_configuration X fk = Some (r, fk')"
  shows "fee_configuration X fk' = Some (r, fk')"
proof (cases "fk_fee_configuration fk")
  case (Some c)
  with assms(2) show ?thesis by (simp add: fee_configuration_def)
next
  case None
  with assms(2) obtain s w where f: "fetch_fee_configuration X (snapshot_get X) (fk_source fk, fk_world fk)
      = Some (r, s, w)"
    by (auto simp: fee_configuration_def split: option.splits sum.splits prod.splits)
  note a = f [unfolded fetch_fee_configuration_def]
  have ok: "source_ok X (fk_source fk, fk_world fk)" using assms(1) by (simp add: fork_ok_def)
  have "fetch_fee_configuration X (snapshot_get X) (s, w) = Some (r, s, w)"
    using snap.settings_known [OF ok a snap.settings_ok [OF ok a]] by (simp add: fetch_fee_configuration_def)
  with assms(2) None f show ?thesis
    by (cases r) (auto simp: fee_configuration_def)
qed

lemma compute_min_resource_fee_again:
  assumes "fork_ok X fk" "compute_min_resource_fee X fk res evs n = Some (r, fk')"
  shows "compute_min_resource_fee X fk' res evs n = Some (r, fk')"
proof -
  from assms(2) obtain c where c: "fee_configuration X fk = Some (c, fk')"
    by (auto simp: compute_min_resource_fee_def Let_def split: option.splits sum.splits prod.splits)
  from fee_configuration_again [OF assms(1) c] assms(2) c show ?thesis
    by (auto simp: compute_min_resource_fee_def Let_def split: option.splits sum.splits prod.splits)
qed

lemma simulate_transaction_runs:
  assumes "fork_ok X fk" "simulate_transaction X fk hf a n = Some (r, fk')"
  obtains out fk1 where "invoke_recording X fk hf a = Some (out, fk1)" "reads X fk1 fk'"
    "sim_result r = (case ho_result out of Inl e \<Rightarrow> Inl (''recording-mode error: '' @ e)
       | Inr rc \<Rightarrow> host_error (rr_invoke_result rc))"
proof -
  from assms(2) obtain out fk1 where inv: "invoke_recording X fk hf a = Some (out, fk1)"
    by (auto simp: simulate_transaction_def split: option.splits)
  have ok1: "fork_ok X fk1" using invoke_recording_reads [OF assms(1) inv] by (simp add: reads_def)
  then have "reads X fk1 fk'"
    using assms(2) inv compute_min_resource_fee_reads [OF ok1]
    by (auto simp: simulate_transaction_def reads_refl split: option.splits sum.splits)
  moreover have "sim_result r = (case ho_result out of Inl e \<Rightarrow> Inl (''recording-mode error: '' @ e)
       | Inr rc \<Rightarrow> host_error (rr_invoke_result rc))"
    using assms(2) inv by (auto simp: simulate_transaction_def split: option.splits sum.splits)
  ultimately show thesis by (rule that [OF inv])
qed

lemma simulate_transaction_again:
  assumes "fork_ok X fk" "simulate_transaction X fk hf a n = Some (r, fk')"
  shows "simulate_transaction X fk' hf a n = Some (r, fk')"
proof -
  obtain out fk1 where inv: "invoke_recording X fk hf a = Some (out, fk1)" and r1: "reads X fk1 fk'"
    using simulate_transaction_runs [OF assms] by metis
  have ok1: "fork_ok X fk1" using invoke_recording_reads [OF assms(1) inv] by (simp add: reads_def)
  note again = invoke_recording_again [OF assms(1) inv r1]
  have sq: "ledger_sequence fk' = ledger_sequence fk1"
    using r1 by (simp add: reads_def fork_same_def ledger_sequence_def)
  show ?thesis
  proof (cases "ho_result out")
    case (Inl e)
    with assms(2) inv again sq show ?thesis by (auto simp: simulate_transaction_def)
  next
    case (Inr rc)
    with assms(2) inv obtain fee where fee: "compute_min_resource_fee X fk1 (rr_resources rc)
        (rr_contract_events rc) n = Some (fee, fk')"
      by (auto simp: simulate_transaction_def split: option.splits)
    from compute_min_resource_fee_again [OF ok1 fee] assms(2) inv Inr again sq fee show ?thesis
      by (auto simp: simulate_transaction_def)
  qed
qed

text \<open>What a send does to the fork's state.\<close>

lemma send_transaction_cases:
  assumes "send_transaction X fk clock envelope hf a = Some (r, fk')"
  obtains out fk1 s applied where "invoke_recording X fk hf a = Some (out, fk1)"
    "apply_result X out (fk_source fk1) = Some (rcpt_result (sr_receipt r), applied, s)"
    "rcpt_applied_changes (sr_receipt r) = applied"
    "fk' = fk1\<lparr>fk_source := if is_ok (rcpt_result (sr_receipt r))
                            then snd (bump_account_seq X a s) else s\<rparr>"
    "sr_hash r = tx_hash_of X envelope (fk_network_id fk)"
proof -
  from assms obtain out fk1 res ap s where c: "invoke_recording X fk hf a = Some (out, fk1)"
    "apply_result X out (fk_source fk1) = Some (res, ap, s)"
    by (auto simp: send_transaction_def split: option.splits prod.splits)
  have "fk_network_id fk1 = fk_network_id fk"
    using invoke_recording_same [OF c(1)] by (simp add: fork_same_def fork_const_def)
  with assms c show thesis
    by (intro that [of out fk1 ap s]) (auto simp: send_transaction_def Let_def)
qed

lemma apply_result_Inl:
  "apply_result X out s = Some (Inl e, applied, s') \<Longrightarrow> applied = 0 \<and> s' = s"
  by (auto simp: apply_result_def Let_def is_ok_def split: sum.splits option.splits if_splits)

lemma apply_result_Inr:
  assumes "apply_result X out s = Some (Inr v, applied, s')"
  obtains rc where "ho_result out = Inr rc" "rr_invoke_result rc = Inr v"
    "apply_changes X (rr_ledger_changes rc) s = Some (applied, s')"
  using assms
  by (auto simp: apply_result_def Let_def host_error_def split: sum.splits option.splits if_splits)

section \<open>Commands that do not write\<close>

fun writes :: "command \<Rightarrow> bool" where
  "writes (CmdSendTransaction _ _ _) = True"
| "writes (CmdSetLedgerEntry _ _ _) = True"
| "writes _ = False"

lemma worker_step_knows:
  assumes "worker_step X c wk = Some (r, wk')" "\<not> writes c" "fork_ok X (wk_env wk)"
  shows "fork_ok X (wk_env wk') \<and> knows_more X (wk_env wk) (wk_env wk')"
proof (cases c)
  case (CmdGetLedgerEntries keys)
  with assms show ?thesis
    by (auto dest!: resolve_ledger_entries_reads simp: reads_def split: option.splits)
next
  case (CmdSimulateTransaction hf a n)
  with assms show ?thesis
    by (auto dest!: simulate_transaction_reads simp: reads_def split: option.splits)
next
  case (CmdCloseLedgers n s)
  with assms show ?thesis
    by (auto simp: Let_def warp_def fork_ok_def knows_more_def fork_known_def)
qed (use assms in auto)

lemma worker_loop_knows:
  "worker_loop X cs wk = Some (rs, wk') \<Longrightarrow> list_all (\<lambda>c. \<not> writes c) cs \<Longrightarrow> fork_ok X (wk_env wk) \<Longrightarrow>
     fork_ok X (wk_env wk') \<and> knows_more X (wk_env wk) (wk_env wk')"
proof (induction X cs wk arbitrary: rs rule: worker_loop.induct)
  case (2 X c cs wk)
  then obtain r wk1 rs1 where s: "worker_step X c wk = Some (r, wk1)"
    and l: "worker_loop X cs wk1 = Some (rs1, wk')"
    by (auto split: option.splits)
  from worker_step_knows [OF s] 2 have "fork_ok X (wk_env wk1)" "knows_more X (wk_env wk) (wk_env wk1)" by auto
  with "2.IH" [OF s refl l] "2.prems" show ?case by (auto intro: knows_more_trans)
qed simp

lemma worker_loop_append:
  "worker_loop X (as @ bs) wk = (case worker_loop X as wk of None \<Rightarrow> None
     | Some (rs, wk1) \<Rightarrow> (case worker_loop X bs wk1 of None \<Rightarrow> None | Some (rs', wk2) \<Rightarrow> Some (rs @ rs', wk2)))"
  by (induction X as wk rule: worker_loop.induct) (auto split: option.splits)

lemma worker_loop_reaches: "worker_loop X cs wk = Some (rs, wk') \<Longrightarrow> wk.reaches X wk wk'"
proof (induction cs arbitrary: rs wk' rule: rev_induct)
  case Nil
  then show ?case by (simp add: wk.reaches_refl)
next
  case (snoc c cs)
  then obtain rs1 wk1 r where l: "worker_loop X cs wk = Some (rs1, wk1)"
    and s: "worker_step X c wk1 = Some (r, wk')"
    by (auto simp: worker_loop_append split: option.splits)
  from snoc.IH [OF l] s show ?case by (rule wk.reaches_step)
qed

lemma worker_loop_receipt:
  "worker_loop X cs wk = Some (rs, wk') \<Longrightarrow>
     (\<forall>e hf a. CmdSendTransaction e hf a \<in> set cs \<longrightarrow> tx_hash_of X e (fk_network_id (wk_env wk)) \<noteq> h) \<Longrightarrow>
     wk_receipts wk' h = wk_receipts wk h"
proof (induction X cs wk arbitrary: rs rule: worker_loop.induct)
  case (2 X c cs wk)
  then obtain r wk1 rs1 where s: "worker_step X c wk = Some (r, wk1)"
    and l: "worker_loop X cs wk1 = Some (rs1, wk')"
    by (auto split: option.splits)
  have n: "fk_network_id (wk_env wk1) = fk_network_id (wk_env wk)"
    using wk.exec_const [OF s] by (simp add: fork_const_def)
  have "wk_receipts wk1 h = wk_receipts wk h"
  proof (cases c)
    case (CmdSendTransaction e hf a)
    with "2.prems"(2) have "tx_hash_of X e (fk_network_id (wk_env wk)) \<noteq> h" by simp
    with CmdSendTransaction s show ?thesis
      by (auto elim!: send_transaction_cases split: option.splits)
  qed (use s in \<open>auto simp: Let_def split: option.splits\<close>)
  moreover have "wk_receipts wk' h = wk_receipts wk1 h"
    by (rule "2.IH" [OF s refl l]) (use "2.prems"(2) n in auto)
  ultimately show ?case by simp
qed simp

section \<open>A worker that does not panic\<close>

primrec prog_all :: "host_prog \<Rightarrow> (host_outcome \<Rightarrow> bool) \<Rightarrow> bool" where
  \<comment> \<open>every outcome the program can come to\<close>
  "prog_all (HostDone out) P = P out"
| "prog_all (HostGet key cont) P = (\<forall>v. prog_all (cont v) P)"

lemma prog_all_run: "prog_all p P \<Longrightarrow> run_host p get s = Some (out, s') \<Longrightarrow> P out"
proof (induction p arbitrary: s)
  case (HostGet key cont)
  then show ?case by (fastforce split: option.splits)
qed simp

text \<open>What the code relies on of the host: its changes carry keys and entries it has encoded.\<close>

definition outcome_ok :: "ext_lib \<Rightarrow> host_outcome \<Rightarrow> bool" where
  "outcome_ok X out \<longleftrightarrow>
     (case ho_result out of Inl _ \<Rightarrow> True | Inr rc \<Rightarrow> changes_decode X (rr_ledger_changes rc))"

definition host_ok :: "ext_lib \<Rightarrow> bool" where
  "host_ok X \<longleftrightarrow> (\<forall>rq. prog_all (host_invoke X rq) (outcome_ok X))"

definition fork_alive :: "ext_lib \<Rightarrow> forked_env \<Rightarrow> bool" where
  "fork_alive X fk \<longleftrightarrow> fork_ok X fk \<and> source_alive X (fk_source fk, fk_world fk)"

lemma fork_get_alive:
  assumes "fork_alive X fk"
  shows "\<exists>v fk'. fork_get X key fk = Some (v, fk') \<and> fork_alive X fk'"
proof -
  have a: "source_ok X (fk_source fk, fk_world fk)" "source_alive X (fk_source fk, fk_world fk)"
    using assms by (simp_all add: fork_alive_def fork_ok_def)
  obtain v s w where g: "snapshot_get X key (fk_source fk, fk_world fk) = Some (v, s, w)" "source_alive X (s, w)"
    using snapl.get_alive [OF a] by (metis prod.collapse)
  with snap.get_ok [OF a(1) g(1)] show ?thesis
    by (simp add: fork_get_def fork_alive_def fork_ok_def)
qed

lemma invoke_recording_alive:
  assumes "fork_alive X fk"
  shows "\<exists>out fk'. invoke_recording X fk hf a = Some (out, fk') \<and> fork_alive X fk'"
proof -
  have a: "source_ok X (fk_source fk, fk_world fk)" "source_alive X (fk_source fk, fk_world fk)"
    using assms by (simp_all add: fork_alive_def fork_ok_def)
  obtain out s w where g: "run_host (host_invoke X (host_request_of fk hf a)) (snapshot_get X)
      (fk_source fk, fk_world fk) = Some (out, s, w)" "source_alive X (s, w)"
    using snapl.run_alive [OF a] by (metis prod.collapse)
  with snap.run_ok [OF a(1) g(1)] show ?thesis
    by (simp add: invoke_recording_def fork_alive_def fork_ok_def)
qed

lemma fee_configuration_alive:
  assumes "fork_alive X fk"
  shows "\<exists>r fk'. fee_configuration X fk = Some (r, fk') \<and> fork_alive X fk'"
proof (cases "fk_fee_configuration fk")
  case None
  have a: "source_ok X (fk_source fk, fk_world fk)" "source_alive X (fk_source fk, fk_world fk)"
    using assms by (simp_all add: fork_alive_def fork_ok_def)
  obtain r s w where f: "apply_settings X (snapshot_get X) fee_setting_ids fee_configuration_default
      (fk_source fk, fk_world fk) = Some (r, s, w)" "source_alive X (s, w)"
    using snapl.settings_alive [OF a] by (metis prod.collapse)
  with snap.settings_ok [OF a(1) f(1)] None show ?thesis
    by (cases r) (simp_all add: fee_configuration_def fetch_fee_configuration_def fork_alive_def fork_ok_def)
qed (use assms in \<open>simp add: fee_configuration_def\<close>)

lemma compute_min_resource_fee_alive:
  assumes "fork_alive X fk"
  shows "\<exists>r fk'. compute_min_resource_fee X fk res evs n = Some (r, fk') \<and> fork_alive X fk'"
  using fee_configuration_alive [OF assms]
  by (auto simp: compute_min_resource_fee_def Let_def split: sum.splits option.splits prod.splits)

lemma simulate_transaction_alive:
  assumes "fork_alive X fk"
  shows "\<exists>r fk'. simulate_transaction X fk hf a n = Some (r, fk') \<and> fork_alive X fk'"
proof -
  obtain out fk1 where inv: "invoke_recording X fk hf a = Some (out, fk1)" "fork_alive X fk1"
    using invoke_recording_alive [OF assms] by blast
  show ?thesis
  proof (cases "ho_result out")
    case (Inr rc)
    obtain fee fk2 where "compute_min_resource_fee X fk1 (rr_resources rc) (rr_contract_events rc) n = Some (fee, fk2)"
      "fork_alive X fk2"
      using compute_min_resource_fee_alive [OF inv(2)] by blast
    with inv Inr show ?thesis by (simp add: simulate_transaction_def)
  qed (use inv in \<open>simp add: simulate_transaction_def\<close>)
qed

lemma resolve_ledger_entries_alive:
  "fork_alive X fk \<Longrightarrow> \<exists>es fk'. resolve_ledger_entries X keys fk = Some (es, fk') \<and> fork_alive X fk'"
proof (induction keys arbitrary: fk)
  case (Cons key keys)
  obtain v fk1 where "fork_get X key fk = Some (v, fk1)" "fork_alive X fk1"
    using fork_get_alive [OF Cons.prems] by blast
  with Cons.IH show ?case by fastforce
qed simp

lemma send_transaction_alive:
  assumes "fork_alive X fk" "host_ok X"
  shows "\<exists>r fk'. send_transaction X fk clock env hf a = Some (r, fk') \<and> fork_alive X fk'"
proof -
  obtain out fk1 where inv: "invoke_recording X fk hf a = Some (out, fk1)" "fork_alive X fk1"
    using invoke_recording_alive [OF assms(1)] by blast
  have "outcome_ok X out"
    using assms(2) inv(1) prog_all_run unfolding host_ok_def invoke_recording_def
    by (fastforce split: option.splits)
  then have "\<exists>res ap s. apply_result X out (fk_source fk1) = Some (res, ap, s) \<and> cache_decodes X s \<and> lenient s"
    using inv(2) apply_changes_from_total [of X _ "fk_source fk1" 0] apply_changes_lenient [of X _ "fk_source fk1"]
    by (fastforce simp: apply_result_def outcome_ok_def Let_def fork_alive_def fork_ok_def source_ok_def
        source_alive_def apply_changes_def split: sum.splits option.splits)
  then obtain res ap s where "apply_result X out (fk_source fk1) = Some (res, ap, s)" "cache_decodes X s" "lenient s"
    by blast
  with inv show ?thesis
    by (auto simp: send_transaction_def Let_def fork_alive_def fork_ok_def source_ok_def source_alive_def
        bump_account_seq_decodes bump_account_seq_lenient)
qed

text \<open>A command whose entry, if it has one, can be encoded.\<close>

fun command_ok :: "ext_lib \<Rightarrow> command \<Rightarrow> bool" where
  "command_ok X (CmdSetLedgerEntry k e lu) = (encode_entry X e \<noteq> None)"
| "command_ok X _ = True"

lemma worker_step_alive:
  assumes "fork_alive X (wk_env wk)" "host_ok X" "command_ok X c"
  shows "\<exists>r wk'. worker_step X c wk = Some (r, wk') \<and> fork_alive X (wk_env wk')"
proof (cases c)
  case (CmdGetLedgerEntries keys)
  with resolve_ledger_entries_alive [OF assms(1), of keys] show ?thesis by fastforce
next
  case (CmdSimulateTransaction hf a n)
  with simulate_transaction_alive [OF assms(1), of hf a n] show ?thesis by fastforce
next
  case (CmdSendTransaction e hf a)
  with send_transaction_alive [OF assms(1,2), of "wk_clock wk" e hf a] show ?thesis by fastforce
next
  case (CmdSetLedgerEntry k e lu)
  with assms obtain bs where bs: "encode_entry X e = Some bs" by auto
  have "decode_entry X bs = Some e"
    using assms(1) bs by (auto simp: fork_alive_def fork_ok_def source_ok_def decode_encode)
  with assms(1) CmdSetLedgerEntry bs show ?thesis
    by (auto simp: set_entry_def fork_alive_def fork_ok_def source_ok_def source_alive_def
        intro!: cache_decodes_insert)
next
  case (CmdCloseLedgers n s)
  with assms(1) show ?thesis by (simp add: Let_def warp_def fork_alive_def fork_ok_def)
qed (use assms(1) in simp_all)

section \<open>Properties\<close>

text \<open>
  C14: Simulation is idempotent: repeated on the state it left it gives the same reply, whatever
  the upstream would answer now, and leaves that state exactly as it is. It keeps everything
  that was known of the ledger, and the fork's clock.
\<close>

theorem simulate_idempotent:
  assumes "fork_ok X fk" "simulate_transaction X fk hf a n = Some (r, fk')"
  shows "simulate_transaction X fk' hf a n = Some (r, fk') \<and> knows_more X fk fk' \<and> fk_ledger fk' = fk_ledger fk"
  using simulate_transaction_again [OF assms] simulate_transaction_reads [OF assms]
  by (simp add: reads_def fork_same_def)

text \<open>
  C3: A simulation predicts the send that follows it: the receipt's result is the result the
  simulation reported.
\<close>

theorem simulate_predicts_send:
  assumes "fork_ok X fk" "simulate_transaction X fk hf a n = Some (sim, fk1)"
    "send_transaction X fk1 clock envelope hf a = Some (r, fk2)"
  shows "rcpt_result (sr_receipt r) = sim_result sim"
proof -
  obtain out fk0 where inv: "invoke_recording X fk hf a = Some (out, fk0)" and r1: "reads X fk0 fk1"
    and res: "sim_result sim = (case ho_result out of Inl e \<Rightarrow> Inl (''recording-mode error: '' @ e)
       | Inr rc \<Rightarrow> host_error (rr_invoke_result rc))"
    using simulate_transaction_runs [OF assms(1,2)] by metis
  note again = invoke_recording_again [OF assms(1) inv r1]
  from assms(3) again res show ?thesis
    by (auto simp: send_transaction_def apply_result_def Let_def split: option.splits sum.splits if_splits)
qed

text \<open>
  C27: A failed send changes nothing: no change is applied, no sequence number is used up, and
  all that was known of the ledger is known unchanged.
\<close>

theorem send_failed_keeps_state:
  assumes "fork_ok X fk" "send_transaction X fk clock envelope hf a = Some (r, fk')"
    "rcpt_result (sr_receipt r) = Inl e"
  shows "rcpt_applied_changes (sr_receipt r) = 0 \<and> knows_more X fk fk' \<and> fork_same fk fk'"
proof -
  obtain out fk1 s applied where c: "invoke_recording X fk hf a = Some (out, fk1)"
    "apply_result X out (fk_source fk1) = Some (rcpt_result (sr_receipt r), applied, s)"
    "rcpt_applied_changes (sr_receipt r) = applied"
    "fk' = fk1\<lparr>fk_source := if is_ok (rcpt_result (sr_receipt r)) then snd (bump_account_seq X a s) else s\<rparr>"
    using assms(2) by (rule send_transaction_cases)
  have "applied = 0 \<and> s = fk_source fk1"
    using c(2) assms(3) apply_result_Inl by metis
  then have "fk' = fk1" "applied = 0" using c(4) assms(3) by simp_all
  with c(3) invoke_recording_reads [OF assms(1) c(1)] show ?thesis by (simp add: reads_def)
qed


text \<open>
  An entry forced with \<open>SetLedgerEntry\<close> is what \<open>GetLedgerEntries\<close> reports for its key,
  after any number of commands that do not write.
\<close>

lemma set_then_get:
  assumes "entry_codec_ok X" "cache_decodes X (fk_source (wk_env wk))" "list_all (\<lambda>c. \<not> writes c) cs"
    "worker_loop X (CmdSetLedgerEntry k e lu # cs @ [CmdGetLedgerEntries [k]]) wk = Some (rs, wk')"
  shows "\<exists>seq_now. last rs = ReplyLedgerEntries \<lparr> ler_entries = [Some (k, e, lu)], ler_latest_ledger = seq_now \<rparr>"
proof -
  from assms(4) obtain s rs1 wk1 rs2 where s: "set_entry X k e lu (fk_source (wk_env wk)) = Some s"
    and l1: "worker_loop X cs (wk\<lparr>wk_env := (wk_env wk)\<lparr>fk_source := s\<rparr>\<rparr>) = Some (rs1, wk1)"
    and l2: "worker_loop X [CmdGetLedgerEntries [k]] wk1 = Some (rs2, wk')"
    and rs: "rs = ReplySet # rs1 @ rs2"
    by (auto simp: worker_loop_append split: option.splits)
  let ?fk = "(wk_env wk)\<lparr>fk_source := s\<rparr>"
  have ok: "fork_ok X ?fk"
    using set_entry_ok [OF _ s, of "fk_world (wk_env wk)"] assms(1,2) by (simp add: fork_ok_def source_ok_def)
  have k: "fork_known X ?fk k = Some (Some (e, lu))"
    using set_entry_known [OF assms(1) s] by (simp add: fork_known_def)
  from worker_loop_knows [OF l1 assms(3)] ok k
  have "fork_known X (wk_env wk1) k = Some (Some (e, lu))" by (simp add: knows_more_def)
  with fork_get_known [OF this] l2 rs show ?thesis by auto
qed

text \<open>
  A receipt can be polled for: after a send, \<open>GetTransaction\<close> with the hash it returned
  finds exactly its receipt, however many other commands come in between, as long as none
  sends an envelope of the same hash.
\<close>

lemma receipt_found:
  assumes "worker_step X (CmdSendTransaction envelope hf a) wk = Some (ReplySend sr, wk1)"
    "worker_loop X cs wk1 = Some (rs, wk2)"
    "\<forall>e hf a. CmdSendTransaction e hf a \<in> set cs \<longrightarrow>
       tx_hash_of X e (fk_network_id (wk_env wk)) \<noteq> sr_hash sr"
  shows "worker_step X (CmdGetTransaction (sr_hash sr)) wk2 = Some (ReplyTransaction (Some (sr_receipt sr)), wk2)
    \<and> sr_hash sr = tx_hash_of X envelope (fk_network_id (wk_env wk))"
proof -
  from assms(1) obtain fk' where st: "send_transaction X (wk_env wk) (wk_clock wk) envelope hf a = Some (sr, fk')"
    and wk1: "wk_receipts wk1 = (wk_receipts wk)(sr_hash sr \<mapsto> sr_receipt sr)"
    by (auto split: option.splits)
  have "fk_network_id (wk_env wk1) = fk_network_id (wk_env wk)"
    using wk.exec_const [OF assms(1)] by (simp add: fork_const_def)
  with worker_loop_receipt [OF assms(2)] assms(3) wk1
  have "wk_receipts wk2 (sr_hash sr) = Some (sr_receipt sr)" by simp
  moreover have "sr_hash sr = tx_hash_of X envelope (fk_network_id (wk_env wk))"
    using st by (rule send_transaction_cases)
  ultimately show ?thesis by simp
qed

text \<open>
  However long the worker runs, the network it reports, the protocol and the provenance
  its cache file will carry never change, its clock never goes back and no receipt is lost.
\<close>

lemma worker_invariants:
  assumes "worker_loop X cs wk = Some (rs, wk')"
  shows "fork_const (wk_env wk') = fork_const (wk_env wk)
    \<and> ledger_sequence (wk_env wk) \<le> ledger_sequence (wk_env wk')
    \<and> ledger_close_time (wk_env wk) \<le> ledger_close_time (wk_env wk')
    \<and> dom (wk_receipts wk) \<subseteq> dom (wk_receipts wk')"
proof -
  have r: "wk.reaches X wk wk'" by (rule worker_loop_reaches [OF assms])
  from wk.reaches_const [OF r] wk.reaches_clock [OF r] wk.reaches_receipt [OF r]
  show ?thesis by (auto simp: dom_def)
qed

text \<open>
  In lenient mode, in a build without overflow checks, the worker never panics: it answers
  every command there is, whatever the upstream does, provided the host's changes and the
  upstream's entries are ones that can be encoded and decoded.
\<close>

lemma worker_never_panics:
  assumes "fork_alive X (wk_env wk)" "host_ok X" "list_all (command_ok X) cs"
  shows "\<exists>rs wk'. worker_loop X cs wk = Some (rs, wk') \<and> list_all2 reply_for cs rs"
  using assms(1,3)
proof (induction cs arbitrary: wk)
  case (Cons c cs)
  obtain r wk1 where s: "worker_step X c wk = Some (r, wk1)" "fork_alive X (wk_env wk1)"
    using worker_step_alive [OF Cons.prems(1) assms(2), of c] Cons.prems(2) by auto
  from Cons.IH [OF s(2)] Cons.prems(2) s wk.exec_reply [OF s(1)] show ?case by auto
qed simp

text \<open>
  The hash a receipt is stored under is the network's transaction hash: it does not depend
  on the signatures, so the same transaction signed anew replaces the receipt.
\<close>

lemma tx_hash_signature_free:
  assumes "envelope_from_xdr X b1 = Inr (EnvTx \<lparr> v1_tx = tx, v1_signatures = s1 \<rparr>)"
    "envelope_from_xdr X b2 = Inr (EnvTx \<lparr> v1_tx = tx, v1_signatures = s2 \<rparr>)"
    "sig_payload_to_xdr X net_id (TaggedTx tx) = Inr payload"
  shows "tx_hash_of X b1 net_id = sha256 X payload \<and> tx_hash_of X b2 net_id = tx_hash_of X b1 net_id"
  using assms by (simp add: tx_hash_of_def canonical_tx_hash_def)

section \<open>At a concrete input\<close>

definition sample_tx :: transaction where
  "sample_tx =
     \<lparr> tx_source = MuxEd25519 [3], tx_fee = 100, tx_seq_num = 1, tx_cond = PrecondNone,
       tx_memo = MemoNone, tx_operations = [], tx_ext = ExtV0 \<rparr>"

definition sample_outcome_ok :: host_outcome where
  "sample_outcome_ok =
     \<lparr> ho_result = Inr \<lparr> rr_invoke_result = Inr ScVoid, rr_auth = [], rr_resources = empty_soroban_resources,
                        rr_contract_events = [], rr_ledger_changes = sample_changes \<rparr>,
       ho_diagnostic_events = [], ho_mem_bytes = Some 7 \<rparr>"

text \<open>A host that reads one key and then writes, in a build without overflow checks.\<close>

definition host_lib :: ext_lib where
  "host_lib = sample_lib
     \<lparr>data_from_xdr := (\<lambda>_. Inl ''unsupported''),
      envelope_from_xdr := (\<lambda>b. Inr (EnvTx \<lparr> v1_tx = sample_tx, v1_signatures = [b] \<rparr>)),
      host_invoke := (\<lambda>_. HostGet (KeyContractCode [7]) (\<lambda>_. HostDone sample_outcome_ok)),
      overflow_checks := False\<rparr>"

lemma host_lib_simps:
  "entry_to_xdr host_lib = sample_entry_to_xdr" "entry_from_xdr host_lib = sample_entry_from_xdr"
  "key_from_xdr host_lib = sample_key_from_xdr" "data_from_xdr host_lib b = Inl ''unsupported''"
  "envelope_from_xdr host_lib b = Inr (EnvTx \<lparr> v1_tx = sample_tx, v1_signatures = [b] \<rparr>)"
  "host_invoke host_lib rq = HostGet (KeyContractCode [7]) (\<lambda>_. HostDone sample_outcome_ok)"
  "\<not> overflow_checks host_lib" "sig_payload_to_xdr host_lib h tg = Inr h"
  by (simp_all add: host_lib_def sample_lib_simps)

definition sample_fork :: forked_env where
  "sample_fork =
     \<lparr> fk_ledger = fork_ledger_info 23 100 5000 [1, 2], fk_source = sample_source, fk_world = sample_world,
       fk_cache_path = None, fk_ledger_sequence = 100, fk_timestamp = 5000, fk_network_id = [1, 2],
       fk_protocol_version = 23, fk_passphrase = Some ''net'', fk_fee_configuration = None,
       fk_test_accounts = [] \<rparr>"

lemma host_lib_codec: "entry_codec_ok host_lib"
  by (rule sample_entry_codec) (simp_all add: host_lib_simps)

lemma sample_fork_alive: "fork_alive host_lib sample_fork"
  by (simp add: fork_alive_def fork_ok_def source_ok_def source_alive_def lenient_def sample_fork_def
      host_lib_codec host_lib_simps decoded_encodes_def)
     (simp add: sample_client_def rpc_config_default_def)

lemma sample_fork_ok: "fork_ok host_lib sample_fork"
  using sample_fork_alive by (simp add: fork_alive_def)

lemma sample_outcome_decodes: "outcome_ok host_lib sample_outcome_ok"
  by (simp add: outcome_ok_def sample_outcome_ok_def changes_decode_def sample_changes_def decode_entry_def
      host_lib_simps)

lemma host_lib_ok: "host_ok host_lib"
  by (simp add: host_ok_def host_lib_simps sample_outcome_decodes)

theorem simulate_idempotent_witness:
  "\<exists>r fk'. simulate_transaction host_lib sample_fork (HfOther []) [3] 10 = Some (r, fk')
     \<and> simulate_transaction host_lib fk' (HfOther []) [3] 10 = Some (r, fk')"
proof -
  obtain r fk' where s: "simulate_transaction host_lib sample_fork (HfOther []) [3] 10 = Some (r, fk')"
    using simulate_transaction_alive [OF sample_fork_alive] by blast
  from simulate_idempotent [OF sample_fork_ok s] s show ?thesis by blast
qed

theorem simulate_predicts_send_witness:
  "\<exists>sim fk1 r fk2. simulate_transaction host_lib sample_fork (HfOther []) [3] 10 = Some (sim, fk1)
     \<and> send_transaction host_lib fk1 0 [8] (HfOther []) [3] = Some (r, fk2)
     \<and> rcpt_result (sr_receipt r) = sim_result sim"
proof -
  obtain sim fk1 where s: "simulate_transaction host_lib sample_fork (HfOther []) [3] 10 = Some (sim, fk1)"
    and a: "fork_alive host_lib fk1"
    using simulate_transaction_alive [OF sample_fork_alive] by blast
  obtain r fk2 where t: "send_transaction host_lib fk1 0 [8] (HfOther []) [3] = Some (r, fk2)"
    using send_transaction_alive [OF a host_lib_ok] by blast
  from simulate_predicts_send [OF sample_fork_ok s t] s t show ?thesis by blast
qed

theorem send_failed_keeps_state_witness:
  "\<exists>r fk'. send_transaction sample_lib sample_fork 0 [8] (HfOther []) [3] = Some (r, fk')
     \<and> rcpt_result (sr_receipt r) = Inl ''recording-mode error: unsupported''
     \<and> rcpt_applied_changes (sr_receipt r) = 0"
proof -
  have ok: "fork_ok sample_lib sample_fork"
    by (simp add: fork_ok_def source_ok_def sample_fork_def)
  have inv: "invoke_recording sample_lib sample_fork (HfOther []) [3]
      = Some (\<lparr> ho_result = Inl ''unsupported'', ho_diagnostic_events = [], ho_mem_bytes = None \<rparr>, sample_fork)"
    by (simp add: invoke_recording_def) (simp add: sample_lib_def)
  obtain r fk' where s: "send_transaction sample_lib sample_fork 0 [8] (HfOther []) [3] = Some (r, fk')"
    and e: "rcpt_result (sr_receipt r) = Inl ''recording-mode error: unsupported''"
    by (simp add: send_transaction_def inv apply_result_def Let_def)
  from send_failed_keeps_state [OF ok s e] s e show ?thesis by blast
qed

lemma host_lib_outcome:
  "invoke_recording host_lib fk hf a = Some (out, fk') \<Longrightarrow> out = sample_outcome_ok"
  using prog_all_run [of "host_invoke host_lib (host_request_of fk hf a)" "\<lambda>y. y = sample_outcome_ok"]
  by (fastforce simp: invoke_recording_def host_lib_simps split: option.splits)

lemma host_lib_send:
  "\<exists>r fk'. send_transaction host_lib sample_fork 0 [8] (HfOther []) [3] = Some (r, fk')
     \<and> rcpt_result (sr_receipt r) = Inr ScVoid"
proof -
  obtain r fk' where s: "send_transaction host_lib sample_fork 0 [8] (HfOther []) [3] = Some (r, fk')"
    using send_transaction_alive [OF sample_fork_alive host_lib_ok] by blast
  then obtain out fk1 ap s' where inv: "invoke_recording host_lib sample_fork (HfOther []) [3] = Some (out, fk1)"
    and ap: "apply_result host_lib out (fk_source fk1) = Some (rcpt_result (sr_receipt r), ap, s')"
    by (rule send_transaction_cases)
  from host_lib_outcome [OF inv] ap have "rcpt_result (sr_receipt r) = Inr ScVoid"
    by (auto simp: apply_result_def sample_outcome_ok_def host_error_def Let_def split: option.splits)
  with s show ?thesis by blast
qed


definition sample_worker :: worker where
  "sample_worker = worker_start sample_fork"

text \<open>Any run of well-formed commands exists, by the lemmas above.\<close>

end
