(* ===== verification/ServerTypes.thy ===== *)
theory ServerTypes
  imports Xdr
begin

text \<open>
  The JSON shapes of the server, \<open>src/server/types.rs\<close>: what the derived \<open>Deserialize\<close> accepts
  for each \<open>...Params\<close> struct (\<open>None\<close> where serde returns an error) and the value the derived
  \<open>Serialize\<close> gives for each response, its members in the order of the struct's fields.
\<close>

section \<open>The envelope\<close>

record json_rpc_request =
  jr_jsonrpc :: string
  jr_id :: json
  jr_method :: string
  jr_params :: json

record json_rpc_error =
  je_code :: i32
  je_message :: string
  je_data :: "json option"

record json_rpc_response =
  rs_jsonrpc :: string
  rs_id :: json
  rs_result :: "json option"
  rs_error :: "json_rpc_error option"

definition dec_json_rpc_request :: "json \<Rightarrow> json_rpc_request option" where
  "dec_json_rpc_request j =
     (case struct_members [''jsonrpc'', ''id'', ''method'', ''params''] j of
        Some (_, [v, i, m, p]) \<Rightarrow>
          (case (fld_req dec_string v, fld_req dec_value i, fld_req dec_string m, fld_default JNull dec_value p) of
             (Some version, Some rid, Some name, Some params) \<Rightarrow>
               Some \<lparr> jr_jsonrpc = version, jr_id = rid, jr_method = name, jr_params = params \<rparr>
           | _ \<Rightarrow> None)
      | _ \<Rightarrow> None)"

definition method_not_found :: "string \<Rightarrow> json_rpc_error" where
  "method_not_found name =
     \<lparr> je_code = - 32601, je_message = ''method not found: '' @ name, je_data = None \<rparr>"

definition invalid_params :: "string \<Rightarrow> json_rpc_error" where
  "invalid_params detail = \<lparr> je_code = - 32602, je_message = detail, je_data = None \<rparr>"

definition internal_error :: "string \<Rightarrow> json_rpc_error" where
  "internal_error detail = \<lparr> je_code = - 32603, je_message = detail, je_data = None \<rparr>"

definition response_ok :: "json \<Rightarrow> json \<Rightarrow> json_rpc_response" where
  "response_ok rid result =
     \<lparr> rs_jsonrpc = ''2.0'', rs_id = rid, rs_result = Some result, rs_error = None \<rparr>"

definition response_err :: "json \<Rightarrow> json_rpc_error \<Rightarrow> json_rpc_response" where
  "response_err rid error =
     \<lparr> rs_jsonrpc = ''2.0'', rs_id = rid, rs_result = None, rs_error = Some error \<rparr>"

definition error_json :: "json_rpc_error \<Rightarrow> json" where
  "error_json e = JObject ([(''code'', j_i32 (je_code e)), (''message'', JString (je_message e))]
                           @ j_skip ''data'' (je_data e))"

definition response_json :: "json_rpc_response \<Rightarrow> json" where
  "response_json r =
     JObject ([(''jsonrpc'', JString (rs_jsonrpc r)), (''id'', rs_id r)]
              @ j_skip ''result'' (rs_result r)
              @ j_skip ''error'' (map_option error_json (rs_error r)))"

section \<open>Parameters\<close>

text \<open>A unit variant of an externally tagged enum: its name, or an object of it and \<open>null\<close>.\<close>

fun dec_unit_variant :: "(string \<times> 'a) list \<Rightarrow> json \<Rightarrow> 'a option" where
  "dec_unit_variant vs (JString s) = map_of vs s"
| "dec_unit_variant vs (JObject [(s, JNull)]) = map_of vs s"
| "dec_unit_variant vs _ = None"

record get_ledgers_params =
  gl_start_ledger :: "u32 option"
  gl_pagination :: "json option"

definition dec_get_ledgers_params :: "json \<Rightarrow> get_ledgers_params option" where
  "dec_get_ledgers_params j =
     (case struct_members [''startLedger'', ''pagination''] j of
        Some (obj, [a, b]) \<Rightarrow>
          (case (fld_opt obj dec_u32 a, fld_default None (dec_opt dec_value) b) of
             (Some start, Some page) \<Rightarrow> Some \<lparr> gl_start_ledger = start, gl_pagination = page \<rparr>
           | _ \<Rightarrow> None)
      | _ \<Rightarrow> None)"

definition dec_get_ledger_entries_params :: "json \<Rightarrow> string list option" where
  "dec_get_ledger_entries_params j =
     (case struct_members [''keys''] j of
        Some (_, [a]) \<Rightarrow> fld_req (dec_list dec_string) a
      | _ \<Rightarrow> None)"

record simulate_transaction_params =
  st_transaction :: string
  st_resource_config :: "json option"

definition dec_simulate_transaction_params :: "json \<Rightarrow> simulate_transaction_params option" where
  "dec_simulate_transaction_params j =
     (case struct_members [''transaction'', ''resourceConfig''] j of
        Some (_, [a, b]) \<Rightarrow>
          (case (fld_req dec_string a, fld_default None (dec_opt dec_value) b) of
             (Some tx, Some cfg) \<Rightarrow> Some \<lparr> st_transaction = tx, st_resource_config = cfg \<rparr>
           | _ \<Rightarrow> None)
      | _ \<Rightarrow> None)"

definition dec_send_transaction_params :: "json \<Rightarrow> string option" where
  "dec_send_transaction_params j =
     (case struct_members [''transaction''] j of
        Some (_, [a]) \<Rightarrow> fld_req dec_string a
      | _ \<Rightarrow> None)"

definition dec_get_transaction_params :: "json \<Rightarrow> string option" where
  "dec_get_transaction_params j =
     (case struct_members [''hash''] j of
        Some (_, [a]) \<Rightarrow> fld_req dec_string a
      | _ \<Rightarrow> None)"

record set_ledger_entry_params =
  sle_key :: string
  sle_entry :: string
  sle_live_until :: "u32 option"

definition dec_set_ledger_entry_params :: "json \<Rightarrow> set_ledger_entry_params option" where
  "dec_set_ledger_entry_params j =
     (case struct_members [''key'', ''entry'', ''liveUntilLedgerSeq''] j of
        Some (_, [a, b, c]) \<Rightarrow>
          (case (fld_req dec_string a, fld_req dec_string b, fld_default None (dec_opt dec_u32) c) of
             (Some key, Some entry, Some lu) \<Rightarrow> Some \<lparr> sle_key = key, sle_entry = entry, sle_live_until = lu \<rparr>
           | _ \<Rightarrow> None)
      | _ \<Rightarrow> None)"

record close_ledgers_params =
  cp_ledgers :: "u32 option"
  cp_timestamp_advance :: "u64 option"

definition dec_close_ledgers_params :: "json \<Rightarrow> close_ledgers_params option" where
  "dec_close_ledgers_params j =
     (case struct_members [''ledgers'', ''timestampAdvanceSeconds''] j of
        Some (_, [a, b]) \<Rightarrow>
          (case (fld_default None (dec_opt dec_u32) a, fld_default None (dec_opt dec_u64) b) of
             (Some n, Some s) \<Rightarrow> Some \<lparr> cp_ledgers = n, cp_timestamp_advance = s \<rparr>
           | _ \<Rightarrow> None)
      | _ \<Rightarrow> None)"

datatype storage_durability = StoragePersistent | StorageTemporary

definition dec_storage_durability :: "json \<Rightarrow> storage_durability option" where
  "dec_storage_durability =
     dec_unit_variant [(''persistent'', StoragePersistent), (''temporary'', StorageTemporary)]"

record set_storage_params =
  ssp_contract :: string
  ssp_key :: string
  ssp_value :: string
  ssp_durability :: "storage_durability option"
  ssp_live_until :: "u32 option"

definition dec_set_storage_params :: "json \<Rightarrow> set_storage_params option" where
  "dec_set_storage_params j =
     (case struct_members [''contract'', ''key'', ''value'', ''durability'', ''liveUntilLedgerSeq''] j of
        Some (_, [a, b, c, d, e]) \<Rightarrow>
          (case (fld_req dec_string a, fld_req dec_string b, fld_req dec_string c,
                 fld_default None (dec_opt dec_storage_durability) d, fld_default None (dec_opt dec_u32) e) of
             (Some contract, Some key, Some value, Some dur, Some lu) \<Rightarrow>
               Some \<lparr> ssp_contract = contract, ssp_key = key, ssp_value = value,
                      ssp_durability = dur, ssp_live_until = lu \<rparr>
           | _ \<Rightarrow> None)
      | _ \<Rightarrow> None)"

record set_code_params =
  scp_wasm :: string
  scp_live_until :: "u32 option"

definition dec_set_code_params :: "json \<Rightarrow> set_code_params option" where
  "dec_set_code_params j =
     (case struct_members [''wasm'', ''liveUntilLedgerSeq''] j of
        Some (_, [a, b]) \<Rightarrow>
          (case (fld_req dec_string a, fld_default None (dec_opt dec_u32) b) of
             (Some wasm, Some lu) \<Rightarrow> Some \<lparr> scp_wasm = wasm, scp_live_until = lu \<rparr>
           | _ \<Rightarrow> None)
      | _ \<Rightarrow> None)"

datatype asset_wire =
    AssetNative
  | AssetCredit string string
  | AssetContract string

text \<open>Untagged: the first variant that fits. A struct variant is read from an object only.\<close>

definition dec_native_marker :: "json \<Rightarrow> unit option" where
  "dec_native_marker = dec_unit_variant [(''native'', ())]"

fun dec_asset_wire :: "json \<Rightarrow> asset_wire option" where
  "dec_asset_wire j =
     (case dec_native_marker j of
        Some _ \<Rightarrow> Some AssetNative
      | None \<Rightarrow>
          (case j of
             JObject fs \<Rightarrow>
               (case (fld_req dec_string (map_of fs ''code''), fld_req dec_string (map_of fs ''issuer'')) of
                  (Some code, Some issuer) \<Rightarrow> Some (AssetCredit code issuer)
                | _ \<Rightarrow> map_option AssetContract (fld_req dec_string (map_of fs ''contract'')))
           | _ \<Rightarrow> None))"

record set_balance_params =
  sbp_account :: string
  sbp_amount :: string
  sbp_asset :: "asset_wire option"

definition dec_set_balance_params :: "json \<Rightarrow> set_balance_params option" where
  "dec_set_balance_params j =
     (case struct_members [''account'', ''amount'', ''asset''] j of
        Some (_, [a, b, c]) \<Rightarrow>
          (case (fld_req dec_string a, fld_req dec_string b, fld_default None (dec_opt dec_asset_wire) c) of
             (Some account, Some amount, Some asset) \<Rightarrow>
               Some \<lparr> sbp_account = account, sbp_amount = amount, sbp_asset = asset \<rparr>
           | _ \<Rightarrow> None)
      | _ \<Rightarrow> None)"

record etch_params =
  ep_contract :: string
  ep_wasm :: string
  ep_live_until :: "u32 option"

definition dec_etch_params :: "json \<Rightarrow> etch_params option" where
  "dec_etch_params j =
     (case struct_members [''contract'', ''wasm'', ''liveUntilLedgerSeq''] j of
        Some (_, [a, b, c]) \<Rightarrow>
          (case (fld_req dec_string a, fld_req dec_string b, fld_default None (dec_opt dec_u32) c) of
             (Some contract, Some wasm, Some lu) \<Rightarrow>
               Some \<lparr> ep_contract = contract, ep_wasm = wasm, ep_live_until = lu \<rparr>
           | _ \<Rightarrow> None)
      | _ \<Rightarrow> None)"

section \<open>Responses\<close>

record health_response =
  hr_status :: string
  hr_latest_ledger :: u32
  hr_oldest_ledger :: u32
  hr_ledger_retention_window :: u32

definition health_json :: "health_response \<Rightarrow> json" where
  "health_json r =
     JObject [(''status'', JString (hr_status r)), (''latestLedger'', j_u32 (hr_latest_ledger r)),
              (''oldestLedger'', j_u32 (hr_oldest_ledger r)),
              (''ledgerRetentionWindow'', j_u32 (hr_ledger_retention_window r))]"

record version_info_response =
  vi_version :: string
  vi_commit_hash :: string
  vi_build_timestamp :: string
  vi_captive_core_version :: string
  vi_protocol_version :: u32

definition version_info_json :: "version_info_response \<Rightarrow> json" where
  "version_info_json r =
     JObject [(''version'', JString (vi_version r)), (''commitHash'', JString (vi_commit_hash r)),
              (''buildTimestamp'', JString (vi_build_timestamp r)),
              (''captiveCoreVersion'', JString (vi_captive_core_version r)),
              (''protocolVersion'', j_u32 (vi_protocol_version r))]"

record network_response =
  nw_passphrase :: string
  nw_protocol_version :: u32
  nw_network_id :: string
  nw_friendbot_url :: "string option"

definition network_json :: "network_response \<Rightarrow> json" where
  "network_json r =
     JObject ([(''passphrase'', JString (nw_passphrase r)), (''protocolVersion'', j_u32 (nw_protocol_version r)),
               (''networkId'', JString (nw_network_id r))]
              @ j_skip ''friendbotUrl'' (map_option JString (nw_friendbot_url r)))"

record latest_ledger_response =
  llr_id :: string
  llr_sequence :: u32
  llr_protocol_version :: u32

definition latest_ledger_json :: "latest_ledger_response \<Rightarrow> json" where
  "latest_ledger_json r =
     JObject [(''id'', JString (llr_id r)), (''sequence'', j_u32 (llr_sequence r)),
              (''protocolVersion'', j_u32 (llr_protocol_version r))]"

record ledger_info_item =
  lii_hash :: string
  lii_sequence :: u32
  lii_ledger_close_time :: string

definition ledger_info_json :: "ledger_info_item \<Rightarrow> json" where
  "ledger_info_json r =
     JObject [(''hash'', JString (lii_hash r)), (''sequence'', j_u32 (lii_sequence r)),
              (''ledgerCloseTime'', JString (lii_ledger_close_time r))]"

record get_ledgers_response =
  glr_ledgers :: "ledger_info_item list"
  glr_latest_ledger :: u32
  glr_latest_ledger_close_time :: string
  glr_oldest_ledger :: u32
  glr_oldest_ledger_close_time :: string
  glr_cursor :: string

definition get_ledgers_json :: "get_ledgers_response \<Rightarrow> json" where
  "get_ledgers_json r =
     JObject [(''ledgers'', JArray (map ledger_info_json (glr_ledgers r))),
              (''latestLedger'', j_u32 (glr_latest_ledger r)),
              (''latestLedgerCloseTime'', JString (glr_latest_ledger_close_time r)),
              (''oldestLedger'', j_u32 (glr_oldest_ledger r)),
              (''oldestLedgerCloseTime'', JString (glr_oldest_ledger_close_time r)),
              (''cursor'', JString (glr_cursor r))]"

record ledger_entry_item =
  lei_key :: string
  lei_xdr :: string
  lei_last_modified :: u32
  lei_live_until :: "u32 option"

definition ledger_entry_item_json :: "ledger_entry_item \<Rightarrow> json" where
  "ledger_entry_item_json r =
     JObject ([(''key'', JString (lei_key r)), (''xdr'', JString (lei_xdr r)),
               (''lastModifiedLedgerSeq'', j_u32 (lei_last_modified r))]
              @ j_skip ''liveUntilLedgerSeq'' (map_option j_u32 (lei_live_until r)))"

record get_ledger_entries_response =
  ger_entries :: "ledger_entry_item list"
  ger_latest_ledger :: u32

definition get_ledger_entries_json :: "get_ledger_entries_response \<Rightarrow> json" where
  "get_ledger_entries_json r =
     JObject [(''entries'', JArray (map ledger_entry_item_json (ger_entries r))),
              (''latestLedger'', j_u32 (ger_latest_ledger r))]"

record simulate_result =
  shr_auth :: "string list"
  shr_xdr :: string

definition simulate_result_json :: "simulate_result \<Rightarrow> json" where
  "simulate_result_json r =
     JObject [(''auth'', JArray (map JString (shr_auth r))), (''xdr'', JString (shr_xdr r))]"

record simulation_cost =
  sc_cpu_insns :: string
  sc_mem_bytes :: string

definition simulation_cost_json :: "simulation_cost \<Rightarrow> json" where
  "simulation_cost_json r =
     JObject [(''cpuInsns'', JString (sc_cpu_insns r)), (''memBytes'', JString (sc_mem_bytes r))]"

record simulate_response =
  sm_transaction_data :: "string option"
  sm_min_resource_fee :: "string option"
  sm_events :: "string list option"
  sm_results :: "simulate_result list option"
  sm_cost :: "simulation_cost option"
  sm_latest_ledger :: u32
  sm_error :: "string option"

definition simulate_json :: "simulate_response \<Rightarrow> json" where
  "simulate_json r =
     JObject (j_skip ''transactionData'' (map_option JString (sm_transaction_data r))
              @ j_skip ''minResourceFee'' (map_option JString (sm_min_resource_fee r))
              @ j_skip ''events'' (map_option (\<lambda>es. JArray (map JString es)) (sm_events r))
              @ j_skip ''results'' (map_option (\<lambda>rs. JArray (map simulate_result_json rs)) (sm_results r))
              @ j_skip ''cost'' (map_option simulation_cost_json (sm_cost r))
              @ [(''latestLedger'', j_u32 (sm_latest_ledger r))]
              @ j_skip ''error'' (map_option JString (sm_error r)))"

record send_response =
  sn_status :: string
  sn_hash :: string
  sn_latest_ledger :: u32
  sn_latest_ledger_close_time :: string
  sn_envelope_xdr :: string
  sn_error_message :: "string option"
  sn_applied_changes :: u32

definition send_json :: "send_response \<Rightarrow> json" where
  "send_json r =
     JObject ([(''status'', JString (sn_status r)), (''hash'', JString (sn_hash r)),
               (''latestLedger'', j_u32 (sn_latest_ledger r)),
               (''latestLedgerCloseTime'', JString (sn_latest_ledger_close_time r)),
               (''envelopeXdr'', JString (sn_envelope_xdr r))]
              @ j_skip ''errorMessage'' (map_option JString (sn_error_message r))
              @ [(''appliedChanges'', j_u32 (sn_applied_changes r))])"

record set_entry_response =
  se_ok :: bool
  se_latest_ledger :: u32

definition set_entry_json :: "set_entry_response \<Rightarrow> json" where
  "set_entry_json r = JObject [(''ok'', JBool (se_ok r)), (''latestLedger'', j_u32 (se_latest_ledger r))]"

record set_balance_response =
  sb_ok :: bool
  sb_latest_ledger :: u32

definition set_balance_json :: "set_balance_response \<Rightarrow> json" where
  "set_balance_json r = JObject [(''ok'', JBool (sb_ok r)), (''latestLedger'', j_u32 (sb_latest_ledger r))]"

record close_ledgers_response =
  clr_new_sequence :: u32
  clr_new_close_time :: string

definition close_ledgers_json :: "close_ledgers_response \<Rightarrow> json" where
  "close_ledgers_json r =
     JObject [(''newSequence'', j_u32 (clr_new_sequence r)), (''newCloseTime'', JString (clr_new_close_time r))]"

record set_code_response =
  sco_ok :: bool
  sco_hash :: string
  sco_latest_ledger :: u32

definition set_code_json :: "set_code_response \<Rightarrow> json" where
  "set_code_json r =
     JObject [(''ok'', JBool (sco_ok r)), (''hash'', JString (sco_hash r)),
              (''latestLedger'', j_u32 (sco_latest_ledger r))]"

record get_transaction_response =
  gt_status :: string
  gt_latest_ledger :: u32
  gt_ledger :: "u32 option"
  gt_created_at :: "string option"
  gt_envelope_xdr :: "string option"
  gt_return_value_xdr :: "string option"
  gt_result_xdr :: "string option"
  gt_result_meta_xdr :: "string option"
  gt_error_message :: "string option"
  gt_applied_changes :: "u32 option"

definition get_transaction_json :: "get_transaction_response \<Rightarrow> json" where
  "get_transaction_json r =
     JObject ([(''status'', JString (gt_status r)), (''latestLedger'', j_u32 (gt_latest_ledger r))]
              @ j_skip ''ledger'' (map_option j_u32 (gt_ledger r))
              @ j_skip ''createdAt'' (map_option JString (gt_created_at r))
              @ j_skip ''envelopeXdr'' (map_option JString (gt_envelope_xdr r))
              @ j_skip ''returnValueXdr'' (map_option JString (gt_return_value_xdr r))
              @ j_skip ''resultXdr'' (map_option JString (gt_result_xdr r))
              @ j_skip ''resultMetaXdr'' (map_option JString (gt_result_meta_xdr r))
              @ j_skip ''errorMessage'' (map_option JString (gt_error_message r))
              @ j_skip ''appliedChanges'' (map_option j_u32 (gt_applied_changes r)))"

section \<open>Lemmas\<close>

text \<open>The two kinds of response; a client tells them apart by the member that is there.\<close>

lemma response_json_ok:
  "response_json (response_ok rid v)
     = JObject [(''jsonrpc'', JString ''2.0''), (''id'', rid), (''result'', v)]"
  by (simp add: response_json_def response_ok_def)

lemma response_json_err:
  "response_json (response_err rid e)
     = JObject [(''jsonrpc'', JString ''2.0''), (''id'', rid), (''error'', error_json e)]"
  by (simp add: response_json_def response_err_def)

text \<open>What the decoders take from an object with the members of their struct.\<close>

lemma dec_send_transaction_object [simp]:
  "dec_send_transaction_params (JObject [(''transaction'', JString s)]) = Some s"
  by (simp add: dec_send_transaction_params_def fld_defs)

lemma dec_get_transaction_object [simp]:
  "dec_get_transaction_params (JObject [(''hash'', JString s)]) = Some s"
  by (simp add: dec_get_transaction_params_def fld_defs)

lemma dec_get_ledger_entries_object [simp]:
  "dec_get_ledger_entries_params (JObject [(''keys'', JArray (map JString ks))]) = Some ks"
proof -
  have "those (map dec_string (map JString ks)) = Some ks"
    by (induction ks) auto
  then show ?thesis by (simp add: dec_get_ledger_entries_params_def fld_defs)
qed

end
