(* ===== verification/Handlers.thy ===== *)
theory Handlers
  imports Actor ServerTypes
begin

text \<open>
  The JSON-RPC methods, \<open>src/server/handlers.rs\<close>. A handler is a \<open>proc\<close>: it answers, or it sends
  one command to the worker and goes on with the reply, so that the handlers of several requests
  may be interleaved command by command (theory \<open>Server\<close>). \<open>run_proc\<close> is one handler that has
  the worker to itself.
\<close>

section \<open>Handlers as processes\<close>

datatype proc =
    Finish "json_rpc_error + json"
  | Ask command "reply \<Rightarrow> proc"
  | HandlerPanic

primrec run_proc ::
  "ext_lib \<Rightarrow> proc \<Rightarrow> worker option \<Rightarrow> (json_rpc_error + json) option \<times> worker option" where
  "run_proc X (Finish r) wk = (Some r, wk)"
| "run_proc X (Ask c k) wk =
     (case actor_send X c wk of
        (Inl e, wk') \<Rightarrow> (Some (Inl (internal_error (show_actor_error e))), wk')
      | (Inr r, wk') \<Rightarrow> run_proc X (k r) wk')"
| "run_proc X HandlerPanic wk = (None, wk)"

text \<open>The \<open>?\<close> operator of a handler, and the typed sends: the one-shot sender of a command
  fixes the type of its reply, so that the last branch of each is never taken.\<close>

definition try_res :: "json_rpc_error + 'a \<Rightarrow> ('a \<Rightarrow> proc) \<Rightarrow> proc" where
  "try_res r k = (case r of Inl e \<Rightarrow> Finish (Inl e) | Inr a \<Rightarrow> k a)"

lemma try_res_simps [simp]: "try_res (Inl e) k = Finish (Inl e)" "try_res (Inr a) k = k a"
  by (simp_all add: try_res_def)

definition ask_network :: "(network_reply \<Rightarrow> proc) \<Rightarrow> proc" where
  "ask_network k = Ask CmdGetNetwork (\<lambda>r. case r of ReplyNetwork n \<Rightarrow> k n | _ \<Rightarrow> HandlerPanic)"

definition ask_latest :: "(latest_ledger_reply \<Rightarrow> proc) \<Rightarrow> proc" where
  "ask_latest k = Ask CmdGetLatestLedger (\<lambda>r. case r of ReplyLatestLedger l \<Rightarrow> k l | _ \<Rightarrow> HandlerPanic)"

definition ask_page :: "(ledgers_page_reply \<Rightarrow> proc) \<Rightarrow> proc" where
  "ask_page k = Ask CmdGetLedgersPage (\<lambda>r. case r of ReplyLedgersPage p \<Rightarrow> k p | _ \<Rightarrow> HandlerPanic)"

definition ask_entries :: "ledger_key list \<Rightarrow> (ledger_entries_reply \<Rightarrow> proc) \<Rightarrow> proc" where
  "ask_entries keys k =
     Ask (CmdGetLedgerEntries keys) (\<lambda>r. case r of ReplyLedgerEntries es \<Rightarrow> k es | _ \<Rightarrow> HandlerPanic)"

definition ask_simulate :: "host_function \<Rightarrow> account_id \<Rightarrow> u32 \<Rightarrow> (simulation_reply \<Rightarrow> proc) \<Rightarrow> proc" where
  "ask_simulate hf account size_bytes k =
     Ask (CmdSimulateTransaction hf account size_bytes)
       (\<lambda>r. case r of ReplySimulation s \<Rightarrow> k s | _ \<Rightarrow> HandlerPanic)"

definition ask_send :: "bytes \<Rightarrow> host_function \<Rightarrow> account_id \<Rightarrow> (send_reply \<Rightarrow> proc) \<Rightarrow> proc" where
  "ask_send envelope_bytes hf account k =
     Ask (CmdSendTransaction envelope_bytes hf account)
       (\<lambda>r. case r of ReplySend s \<Rightarrow> k s | _ \<Rightarrow> HandlerPanic)"

definition ask_set :: "ledger_key \<Rightarrow> ledger_entry \<Rightarrow> u32 option \<Rightarrow> proc \<Rightarrow> proc" where
  "ask_set key entry live_until k =
     Ask (CmdSetLedgerEntry key entry live_until) (\<lambda>r. case r of ReplySet \<Rightarrow> k | _ \<Rightarrow> HandlerPanic)"

definition ask_close :: "u32 \<Rightarrow> u64 \<Rightarrow> (close_ledgers_reply \<Rightarrow> proc) \<Rightarrow> proc" where
  "ask_close ledgers seconds k =
     Ask (CmdCloseLedgers ledgers seconds) (\<lambda>r. case r of ReplyCloseLedgers c \<Rightarrow> k c | _ \<Rightarrow> HandlerPanic)"

definition ask_receipt :: "hash \<Rightarrow> (tx_receipt option \<Rightarrow> proc) \<Rightarrow> proc" where
  "ask_receipt h k =
     Ask (CmdGetTransaction h) (\<lambda>r. case r of ReplyTransaction t \<Rightarrow> k t | _ \<Rightarrow> HandlerPanic)"

lemmas ask_defs = ask_network_def ask_latest_def ask_page_def ask_entries_def ask_simulate_def
  ask_send_def ask_set_def ask_close_def ask_receipt_def

section \<open>Text\<close>

text \<open>\<open>Debug\<close> of a string, \<open>{:?}\<close>.\<close>

fun code_point :: "nat list \<Rightarrow> nat" where
  "code_point [a, b] = (a mod 32) * 64 + b mod 64"
| "code_point [a, b, c] = (a mod 16) * 4096 + (b mod 64) * 64 + c mod 64"
| "code_point [a, b, c, d] = (a mod 8) * 262144 + (b mod 64) * 4096 + (c mod 64) * 64 + d mod 64"
| "code_point (a # _) = a"
| "code_point [] = 0"

fun show_hex :: "nat \<Rightarrow> string" where
  "show_hex n =
     (let d = [nibble_char (word_of_nat (n mod 16))] in if n < 16 then d else show_hex (n div 16) @ d)"

declare show_hex.simps [simp del]

definition debug_char :: "ext_lib \<Rightarrow> string \<Rightarrow> string" where
  "debug_char X ch =
     (let n = code_point (map of_char ch); bs = CHR 0x5C in
      if n = 0 then [bs, CHR ''0''] else if n = 9 then [bs, CHR ''t''] else if n = 10 then [bs, CHR ''n'']
      else if n = 13 then [bs, CHR ''r''] else if n = 34 \<or> n = 92 then bs # ch
      else if n < 32 \<or> n = 127 \<or> (127 < n \<and> unicode_escaped X ch)
      then [bs, CHR ''u'', CHR 0x7B] @ show_hex n @ [CHR 0x7D]
      else ch)"

definition debug_str :: "ext_lib \<Rightarrow> string \<Rightarrow> string" where
  "debug_str X s = [CHR 0x22] @ concat (map (debug_char X) (chars_of s)) @ [CHR 0x22]"

text \<open>Lower-case hex of a hash, and its inverse.\<close>

definition hex_lower :: "bytes \<Rightarrow> string" where
  "hex_lower bs = concat (map byte_02x bs)"

definition hex_nibble :: "u8 \<Rightarrow> u8 option" where
  "hex_nibble b =
     (if 48 \<le> b \<and> b \<le> 57 then Some (b - 48)
      else if 97 \<le> b \<and> b \<le> 102 then Some (b - 97 + 10)
      else if 65 \<le> b \<and> b \<le> 70 then Some (b - 65 + 10)
      else None)"

fun parse_hex_pairs :: "bytes \<Rightarrow> bytes option" where
  "parse_hex_pairs (a # b # rest) =
     (case hex_nibble a of
        None \<Rightarrow> None
      | Some hi \<Rightarrow>
          (case hex_nibble b of
             None \<Rightarrow> None
           | Some lo \<Rightarrow> map_option (\<lambda>out. (push_bit 4 hi OR lo) # out) (parse_hex_pairs rest)))"
| "parse_hex_pairs _ = Some []"

definition parse_hex32 :: "string \<Rightarrow> bytes option" where
  "parse_hex32 s = (if length s \<noteq> 64 then None else parse_hex_pairs (bytes_of_str s))"

definition i128_to_scval :: "i128 \<Rightarrow> scval" where
  "i128_to_scval n = ScI128 (ucast (signed_drop_bit 64 n)) (ucast (n AND 0xFFFFFFFFFFFFFFFF))"

section \<open>Decoding\<close>

definition params_error :: "ext_lib \<Rightarrow> string \<Rightarrow> string \<Rightarrow> json \<Rightarrow> json_rpc_error" where
  "params_error X name ty j = invalid_params (name @ '' params: '' @ serde_error X ty j)"

definition decode_b64 :: "ext_lib \<Rightarrow> string \<Rightarrow> string \<Rightarrow> json_rpc_error + bytes" where
  "decode_b64 X label s = map_err (\<lambda>e. invalid_params (label @ '': base64 decode: '' @ e)) (b64_decode X s)"

definition decode_xdr :: "string \<Rightarrow> (bytes \<Rightarrow> string + 'a) \<Rightarrow> bytes \<Rightarrow> json_rpc_error + 'a" where
  "decode_xdr label f bs = map_err (\<lambda>e. invalid_params (label @ e)) (f bs)"

definition decode_contract :: "ext_lib \<Rightarrow> string \<Rightarrow> string \<Rightarrow> json_rpc_error + sc_address" where
  "decode_contract X label s =
     (case parse_strkey_contract X s of
        Inl e \<Rightarrow> Inl (invalid_params (label @ '': not a valid C... strkey: '' @ e))
      | Inr b \<Rightarrow> Inr (AddrContract b))"

definition decode_account :: "ext_lib \<Rightarrow> string \<Rightarrow> string \<Rightarrow> json_rpc_error + account_id" where
  "decode_account X label s =
     map_err (\<lambda>e. invalid_params (label @ '': not a valid G... strkey: '' @ e)) (parse_strkey_account X s)"

definition encode_b64 :: "ext_lib \<Rightarrow> string \<Rightarrow> string + bytes \<Rightarrow> json_rpc_error + string" where
  "encode_b64 X label r = res_bind (map_err (\<lambda>e. internal_error (label @ e)) r) (\<lambda>bs. Inr (b64_encode X bs))"

section \<open>Read methods\<close>

definition server_version :: string where "server_version = ''0.9.5''"
definition commit_hash :: string where "commit_hash = ''unknown''"
definition build_timestamp :: string where "build_timestamp = ''unknown''"
definition captive_core_version :: string where "captive_core_version = ''n/a (forked-RPC mode)''"

definition handle_get_health :: proc where
  "handle_get_health =
     ask_latest (\<lambda>reply.
       Finish (Inr (health_json
         \<lparr> hr_status = ''healthy'', hr_latest_ledger = lr_sequence reply, hr_oldest_ledger = lr_sequence reply,
           hr_ledger_retention_window = 0 \<rparr>)))"

definition handle_get_version_info :: proc where
  "handle_get_version_info =
     ask_network (\<lambda>reply.
       Finish (Inr (version_info_json
         \<lparr> vi_version = server_version, vi_commit_hash = commit_hash, vi_build_timestamp = build_timestamp,
           vi_captive_core_version = captive_core_version, vi_protocol_version = nr_protocol_version reply \<rparr>)))"

definition handle_get_network :: proc where
  "handle_get_network =
     ask_network (\<lambda>reply.
       Finish (Inr (network_json
         \<lparr> nw_passphrase = nr_passphrase reply, nw_protocol_version = nr_protocol_version reply,
           nw_network_id = nr_network_id_hex reply, nw_friendbot_url = None \<rparr>)))"

definition handle_get_latest_ledger :: proc where
  "handle_get_latest_ledger =
     ask_latest (\<lambda>reply.
       Finish (Inr (latest_ledger_json
         \<lparr> llr_id = lr_id reply, llr_sequence = lr_sequence reply,
           llr_protocol_version = lr_protocol_version reply \<rparr>)))"

definition handle_get_ledgers :: "ext_lib \<Rightarrow> json \<Rightarrow> proc" where
  "handle_get_ledgers X params =
     try_res
       (if json_is_null params then Inr \<lparr> gl_start_ledger = None, gl_pagination = None \<rparr>
        else ok_or (params_error X ''getLedgers'' ''GetLedgersParams'' params) (dec_get_ledgers_params params))
     (\<lambda>_. ask_page (\<lambda>reply.
       let close_time_str = show_u (lp_close_time reply)
       in Finish (Inr (get_ledgers_json
            \<lparr> glr_ledgers = [\<lparr> lii_hash = ''forked-ledger-hash-'' @ show_u (lp_sequence reply),
                               lii_sequence = lp_sequence reply, lii_ledger_close_time = close_time_str \<rparr>],
              glr_latest_ledger = lp_sequence reply, glr_latest_ledger_close_time = close_time_str,
              glr_oldest_ledger = lp_sequence reply, glr_oldest_ledger_close_time = close_time_str,
              glr_cursor = [] \<rparr>))))"

text \<open>The loop over \<open>keys\<close>; \<open>i\<close> is the index an error names.\<close>

fun decode_keys :: "ext_lib \<Rightarrow> nat \<Rightarrow> string list \<Rightarrow> json_rpc_error + ledger_key list" where
  "decode_keys X i [] = Inr []"
| "decode_keys X i (raw # rest) =
     res_bind (decode_b64 X (''keys['' @ show_nat i @ '']'') raw)
       (\<lambda>bytes. res_bind (decode_xdr (''keys['' @ show_nat i @ '']: XDR decode: '') (key_from_xdr X) bytes)
       (\<lambda>key. res_bind (decode_keys X (Suc i) rest)
       (\<lambda>keys. Inr (key # keys))))"

definition ledger_entry_item_of :: "ext_lib \<Rightarrow> snapshot_entry \<Rightarrow> json_rpc_error + ledger_entry_item" where
  "ledger_entry_item_of X resolved =
     (let (key, entry, live_until) = resolved in
      res_bind (encode_b64 X ''encode response LedgerKey: '' (key_to_xdr X key))
        (\<lambda>key_b64. res_bind (encode_b64 X ''encode response LedgerEntryData: '' (data_to_xdr X (le_data entry)))
        (\<lambda>data_b64. Inr \<lparr> lei_key = key_b64, lei_xdr = data_b64,
                          lei_last_modified = le_last_modified entry, lei_live_until = live_until \<rparr>)))"

definition flatten_options :: "'a option list \<Rightarrow> 'a list" where
  "flatten_options xs = concat (map (\<lambda>x. case x of None \<Rightarrow> [] | Some a \<Rightarrow> [a]) xs)"

definition handle_get_ledger_entries :: "ext_lib \<Rightarrow> json \<Rightarrow> proc" where
  "handle_get_ledger_entries X params =
     try_res (ok_or (params_error X ''getLedgerEntries'' ''GetLedgerEntriesParams'' params)
                (dec_get_ledger_entries_params params))
     (\<lambda>keys.
        if keys = [] then Finish (Inl (invalid_params ''getLedgerEntries: keys array must be non-empty''))
        else try_res (decode_keys X 0 keys)
     (\<lambda>decoded_keys. ask_entries decoded_keys
     (\<lambda>reply. try_res (collect_res (ledger_entry_item_of X) (flatten_options (ler_entries reply)))
     (\<lambda>items. Finish (Inr (get_ledger_entries_json
        \<lparr> ger_entries = items, ger_latest_ledger = ler_latest_ledger reply \<rparr>))))))"

section \<open>Transactions\<close>

definition muxed_account_id :: "muxed_account \<Rightarrow> account_id" where
  "muxed_account_id m = (case m of MuxEd25519 k \<Rightarrow> k | MuxMuxedEd25519 _ k \<Rightarrow> k)"

definition extract_invoke_op ::
  "ext_lib \<Rightarrow> transaction_envelope \<Rightarrow> json_rpc_error + host_function \<times> account_id" where
  "extract_invoke_op X env =
     res_bind
       (case env of
          EnvTxV0 _ \<Rightarrow> Inl (invalid_params
            ''simulateTransaction: V0 transaction envelopes do not support Soroban operations'')
        | EnvTx v1 \<Rightarrow> Inr (tx_operations (v1_tx v1), tx_source (v1_tx v1))
        | EnvTxFeeBump fb _ \<Rightarrow> Inr (tx_operations (v1_tx (fb_inner fb)), tx_source (v1_tx (fb_inner fb))))
       (\<lambda>(operations, source).
          if length operations \<noteq> 1 then
            Inl (invalid_params (''simulateTransaction: expected exactly 1 operation, got ''
                                 @ show_nat (length operations)))
          else
            (let op = hd operations in
             case op_body op of
               OpInvokeHostFunction hf _ \<Rightarrow>
                 Inr (hf, muxed_account_id (unwrap_or source (op_source op)))
             | other \<Rightarrow>
                 Inl (invalid_params
                   (''simulateTransaction: only InvokeHostFunction operations supported, got ''
                    @ debug_op X other))))"

definition encode_simulation_reply :: "ext_lib \<Rightarrow> simulation_reply \<Rightarrow> json_rpc_error + json" where
  "encode_simulation_reply X reply =
     (case sim_result reply of
        Inl error \<Rightarrow>
          Inr (simulate_json
            \<lparr> sm_transaction_data = None, sm_min_resource_fee = None, sm_events = None, sm_results = None,
              sm_cost = None, sm_latest_ledger = sim_latest_ledger reply, sm_error = Some error \<rparr>)
      | Inr scval \<Rightarrow>
          res_bind (map_err (\<lambda>e. internal_error (''encode result ScVal: '' @ e)) (scval_to_xdr X scval))
          (\<lambda>scval_xdr.
          res_bind (collect_res (\<lambda>a. encode_b64 X ''encode auth entry: '' (auth_to_xdr X a)) (sim_auth reply))
          (\<lambda>auth_b64.
          res_bind (map_err (\<lambda>e. internal_error (''encode SorobanTransactionData: '' @ e))
                      (txdata_to_xdr X (sim_resources reply) (unwrap_or 0 (sim_min_resource_fee reply))))
          (\<lambda>txn_data_xdr.
          res_bind (collect_res (\<lambda>ce. encode_b64 X ''encode contract event: ''
                                        (devent_to_xdr X \<lparr> de_success = True, de_event = ce \<rparr>))
                      (sim_contract_events reply))
          (\<lambda>contract_b64.
          res_bind (collect_res (\<lambda>de. encode_b64 X ''encode diagnostic event: '' (devent_to_xdr X de))
                      (sim_diagnostic_events reply))
          (\<lambda>diagnostic_b64.
          Inr (simulate_json
            \<lparr> sm_transaction_data = Some (b64_encode X txn_data_xdr),
              sm_min_resource_fee = map_option show_s (sim_min_resource_fee reply),
              sm_events = Some (contract_b64 @ diagnostic_b64),
              sm_results = Some [\<lparr> shr_auth = auth_b64, shr_xdr = b64_encode X scval_xdr \<rparr>],
              sm_cost = map_option
                (\<lambda>mem. \<lparr> sc_cpu_insns = show_u (res_instructions (sim_resources reply)), sc_mem_bytes = show_u mem \<rparr>)
                (sim_mem_bytes reply),
              sm_latest_ledger = sim_latest_ledger reply,
              sm_error = None \<rparr>)))))))"

text \<open>The two transaction methods decode their envelope alike.\<close>

definition decode_envelope :: "ext_lib \<Rightarrow> string \<Rightarrow> json_rpc_error + bytes \<times> transaction_envelope" where
  "decode_envelope X text =
     res_bind (decode_b64 X ''transaction'' text)
       (\<lambda>bytes. res_bind (decode_xdr ''transaction: XDR decode: '' (envelope_from_xdr X) bytes)
       (\<lambda>envelope. Inr (bytes, envelope)))"

definition handle_simulate_transaction :: "ext_lib \<Rightarrow> json \<Rightarrow> proc" where
  "handle_simulate_transaction X params =
     try_res (ok_or (params_error X ''simulateTransaction'' ''SimulateTransactionParams'' params)
                (dec_simulate_transaction_params params))
     (\<lambda>parsed. try_res (decode_envelope X (st_transaction parsed))
     (\<lambda>(envelope_bytes, envelope).
        if \<not> length envelope_bytes < 2 ^ 32 then
          Finish (Inl (invalid_params (''transaction: envelope too large for u32 (''
                                       @ show_nat (length envelope_bytes) @ '' bytes)'')))
        else try_res (extract_invoke_op X envelope)
     (\<lambda>(host_function, source_account).
        ask_simulate host_function source_account (word_of_nat (length envelope_bytes))
     (\<lambda>reply. Finish (encode_simulation_reply X reply)))))"

definition handle_send_transaction :: "ext_lib \<Rightarrow> json \<Rightarrow> proc" where
  "handle_send_transaction X params =
     try_res (ok_or (params_error X ''sendTransaction'' ''SendTransactionParams'' params)
                (dec_send_transaction_params params))
     (\<lambda>text. try_res (decode_envelope X text)
     (\<lambda>(envelope_bytes, envelope). try_res (extract_invoke_op X envelope)
     (\<lambda>(host_function, source_account). ask_send envelope_bytes host_function source_account
     (\<lambda>send_reply. ask_latest
     (\<lambda>latest. ask_page
     (\<lambda>page.
        let (status, error_message) =
              (case rcpt_result (sr_receipt send_reply) of
                 Inr _ \<Rightarrow> (''SUCCESS'', None)
               | Inl msg \<Rightarrow> (''ERROR'', Some msg))
        in Finish (Inr (send_json
             \<lparr> sn_status = status, sn_hash = hex_lower (sr_hash send_reply),
               sn_latest_ledger = lr_sequence latest,
               sn_latest_ledger_close_time = show_u (lp_close_time page),
               sn_envelope_xdr = text, sn_error_message = error_message,
               sn_applied_changes = rcpt_applied_changes (sr_receipt send_reply) \<rparr>))))))))"

definition build_result_xdrs :: "ext_lib \<Rightarrow> scval \<Rightarrow> bool \<Rightarrow> json_rpc_error + string \<times> string" where
  "build_result_xdrs X return_value success =
     (let meta = \<lparr> meta_changes_before = [], meta_operations = [], meta_changes_after = [],
                   meta_events = [], meta_return_value = return_value, meta_diagnostic_events = [] \<rparr>;
          op = (if success then InvokeSuccess (replicate 32 0) else InvokeTrapped);
          result = \<lparr> txr_fee_charged = 0,
                     txr_result = (if success then TxSuccess [op] else TxFailed [op]) \<rparr>
      in res_bind (encode_b64 X ''encode tx xdr: '' (meta_to_xdr X meta))
           (\<lambda>meta_xdr. res_bind (encode_b64 X ''encode tx xdr: '' (result_to_xdr X result))
           (\<lambda>result_xdr. Inr (result_xdr, meta_xdr))))"

definition get_transaction_body ::
  "ext_lib \<Rightarrow> u32 \<Rightarrow> tx_receipt option \<Rightarrow> json_rpc_error + get_transaction_response" where
  "get_transaction_body X latest receipt =
     (case receipt of
        None \<Rightarrow>
          Inr \<lparr> gt_status = ''NOT_FOUND'', gt_latest_ledger = latest, gt_ledger = None, gt_created_at = None,
                gt_envelope_xdr = None, gt_return_value_xdr = None, gt_result_xdr = None,
                gt_result_meta_xdr = None, gt_error_message = None, gt_applied_changes = None \<rparr>
      | Some r \<Rightarrow>
          (let envelope_xdr = Some (b64_encode X (rcpt_envelope_bytes r)) in
           case rcpt_result r of
             Inr scval \<Rightarrow>
               res_bind (encode_b64 X ''encode return ScVal: '' (scval_to_xdr X scval))
               (\<lambda>value_b64. res_bind (build_result_xdrs X scval True)
               (\<lambda>(result_xdr, result_meta_xdr).
                  Inr \<lparr> gt_status = ''SUCCESS'', gt_latest_ledger = latest, gt_ledger = Some (rcpt_ledger r),
                        gt_created_at = Some (show_u (rcpt_created_at r)), gt_envelope_xdr = envelope_xdr,
                        gt_return_value_xdr = Some value_b64, gt_result_xdr = Some result_xdr,
                        gt_result_meta_xdr = Some result_meta_xdr, gt_error_message = None,
                        gt_applied_changes = Some (rcpt_applied_changes r) \<rparr>))
           | Inl msg \<Rightarrow>
               res_bind (build_result_xdrs X ScVoid False)
               (\<lambda>(result_xdr, result_meta_xdr).
                  Inr \<lparr> gt_status = ''FAILED'', gt_latest_ledger = latest, gt_ledger = Some (rcpt_ledger r),
                        gt_created_at = Some (show_u (rcpt_created_at r)), gt_envelope_xdr = envelope_xdr,
                        gt_return_value_xdr = None, gt_result_xdr = Some result_xdr,
                        gt_result_meta_xdr = Some result_meta_xdr, gt_error_message = Some msg,
                        gt_applied_changes = Some (rcpt_applied_changes r) \<rparr>)))"

definition handle_get_transaction :: "ext_lib \<Rightarrow> json \<Rightarrow> proc" where
  "handle_get_transaction X params =
     try_res (ok_or (params_error X ''getTransaction'' ''GetTransactionParams'' params)
                (dec_get_transaction_params params))
     (\<lambda>text. try_res (ok_or (invalid_params ''hash: must be 64-char hex'') (parse_hex32 text))
     (\<lambda>hash. ask_receipt hash
     (\<lambda>receipt. ask_latest
     (\<lambda>latest. try_res (get_transaction_body X (lr_sequence latest) receipt)
     (\<lambda>body. Finish (Inr (get_transaction_json body)))))))"

declare handle_get_health_def [handlers]
  and handle_get_version_info_def [handlers]
  and handle_get_network_def [handlers]
  and handle_get_latest_ledger_def [handlers]
  and handle_get_ledgers_def [handlers]
  and handle_get_ledger_entries_def [handlers]
  and handle_simulate_transaction_def [handlers]
  and handle_send_transaction_def [handlers]
  and handle_get_transaction_def [handlers]

section \<open>What a process can do\<close>

text \<open>Every command sent satisfies \<open>C\<close> and every answer \<open>F\<close>, whatever replies of the right type
  come back; and there is no panic.\<close>

primrec proc_all :: "(command \<Rightarrow> bool) \<Rightarrow> (json_rpc_error + json \<Rightarrow> bool) \<Rightarrow> proc \<Rightarrow> bool" where
  "proc_all C F (Finish r) = F r"
| "proc_all C F (Ask c k) = (C c \<and> (\<forall>r. reply_for c r \<longrightarrow> proc_all C F (k r)))"
| "proc_all C F HandlerPanic = False"

lemma proc_all_mono: "proc_all C F p \<Longrightarrow> (\<And>c. C c \<Longrightarrow> D c) \<Longrightarrow> proc_all D F p"
  by (induction p) auto

definition err_ok :: "json_rpc_error \<Rightarrow> bool" where
  "err_ok e \<longleftrightarrow> je_code e \<in> {- 32601, - 32602, - 32603} \<and> je_data e = None"

definition res_ok :: "json_rpc_error + 'a \<Rightarrow> bool" where
  "res_ok r = (case r of Inl e \<Rightarrow> err_ok e | Inr _ \<Rightarrow> True)"

lemma err_ok_simps [simp]:
  "err_ok (invalid_params s)" "err_ok (internal_error s)" "err_ok (method_not_found s)"
  by (simp_all add: err_ok_def invalid_params_def internal_error_def method_not_found_def)

lemma res_ok_simps [simp]: "res_ok (Inl e) = err_ok e" "res_ok (Inr a)"
  by (simp_all add: res_ok_def)

lemma res_ok_map_err [simp]: "(\<And>e. err_ok (f e)) \<Longrightarrow> res_ok (map_err f r)"
  by (cases r) simp_all

lemma res_ok_ok_or [simp]: "err_ok e \<Longrightarrow> res_ok (ok_or e x)"
  by (cases x) simp_all

lemma res_ok_bind [simp]: "res_ok r \<Longrightarrow> (\<And>a. res_ok (k a)) \<Longrightarrow> res_ok (res_bind r k)"
  by (cases r) simp_all

lemma res_ok_collect [simp]: "(\<And>a. res_ok (f a)) \<Longrightarrow> res_ok (collect_res f xs)"
proof (induction xs)
  case (Cons x xs)
  have "res_ok (f x)" "res_ok (collect_res f xs)"
    using Cons by blast+
  then show ?case by (cases "f x"; cases "collect_res f xs") simp_all
qed simp

lemma proc_all_try [simp]:
  "proc_all C res_ok (try_res r k) \<longleftrightarrow> res_ok r \<and> (\<forall>a. r = Inr a \<longrightarrow> proc_all C res_ok (k a))"
  by (cases r) simp_all

lemma all_reply:
  "(\<forall>r. P r) \<longleftrightarrow>
     (\<forall>n. P (ReplyNetwork n)) \<and> (\<forall>l. P (ReplyLatestLedger l)) \<and> (\<forall>p. P (ReplyLedgersPage p))
     \<and> (\<forall>es. P (ReplyLedgerEntries es)) \<and> (\<forall>s. P (ReplySimulation s)) \<and> (\<forall>s. P (ReplySend s))
     \<and> P ReplySet \<and> (\<forall>c. P (ReplyCloseLedgers c)) \<and> (\<forall>t. P (ReplyTransaction t))"
proof (intro iffI allI; (elim conjE)?)
  fix r
  assume "\<forall>n. P (ReplyNetwork n)" "\<forall>l. P (ReplyLatestLedger l)" "\<forall>p. P (ReplyLedgersPage p)"
    "\<forall>es. P (ReplyLedgerEntries es)" "\<forall>s. P (ReplySimulation s)" "\<forall>s. P (ReplySend s)"
    "P ReplySet" "\<forall>c. P (ReplyCloseLedgers c)" "\<forall>t. P (ReplyTransaction t)"
  then show "P r" by (cases r) simp_all
qed simp

lemma proc_all_ask [simp]:
  "proc_all C F (ask_network kn) \<longleftrightarrow> C CmdGetNetwork \<and> (\<forall>n. proc_all C F (kn n))"
  "proc_all C F (ask_latest kl) \<longleftrightarrow> C CmdGetLatestLedger \<and> (\<forall>l. proc_all C F (kl l))"
  "proc_all C F (ask_page kp) \<longleftrightarrow> C CmdGetLedgersPage \<and> (\<forall>p. proc_all C F (kp p))"
  "proc_all C F (ask_entries keys ke) \<longleftrightarrow>
     C (CmdGetLedgerEntries keys) \<and> (\<forall>es. length (ler_entries es) = length keys \<longrightarrow> proc_all C F (ke es))"
  "proc_all C F (ask_simulate hf a n ks) \<longleftrightarrow> C (CmdSimulateTransaction hf a n) \<and> (\<forall>s. proc_all C F (ks s))"
  "proc_all C F (ask_send e hf a kd) \<longleftrightarrow> C (CmdSendTransaction e hf a) \<and> (\<forall>s. proc_all C F (kd s))"
  "proc_all C F (ask_set key entry lu p) \<longleftrightarrow> C (CmdSetLedgerEntry key entry lu) \<and> proc_all C F p"
  "proc_all C F (ask_close n s kc) \<longleftrightarrow> C (CmdCloseLedgers n s) \<and> (\<forall>c. proc_all C F (kc c))"
  "proc_all C F (ask_receipt h kt) \<longleftrightarrow> C (CmdGetTransaction h) \<and> (\<forall>t. proc_all C F (kt t))"
  by (simp_all add: ask_defs all_reply)

lemma decoders_ok [simp]:
  "err_ok (params_error X n ty j)" "res_ok (decode_b64 X l s)" "res_ok (decode_xdr l f bs)"
  "res_ok (decode_contract X l s)" "res_ok (decode_account X l s)" "res_ok (encode_b64 X l r)"
  by (simp_all add: params_error_def decode_b64_def decode_xdr_def decode_contract_def decode_account_def
      encode_b64_def split: sum.splits)

lemma decode_keys_ok [simp]: "res_ok (decode_keys X i ks)"
  by (induction X i ks rule: decode_keys.induct) simp_all

lemma tx_decoders_ok [simp]: "res_ok (decode_envelope X s)" "res_ok (extract_invoke_op X env)"
  by (auto simp: decode_envelope_def extract_invoke_op_def Let_def
      split: transaction_envelope.splits operation_body.splits)

lemma tx_encoders_ok [simp]:
  "res_ok (ledger_entry_item_of X e)" "res_ok (encode_simulation_reply X r)"
  "res_ok (build_result_xdrs X v s)" "res_ok (get_transaction_body X n t)"
  by (auto simp: ledger_entry_item_of_def encode_simulation_reply_def build_result_xdrs_def
      get_transaction_body_def Let_def split: sum.splits option.splits prod.splits)

text \<open>Commands that neither write nor move the clock.\<close>

fun reading :: "command \<Rightarrow> bool" where
  "reading (CmdCloseLedgers _ _) = False"
| "reading c = (\<not> writes c)"

lemma read_handlers:
  "proc_all reading res_ok handle_get_health"
  "proc_all reading res_ok handle_get_version_info"
  "proc_all reading res_ok handle_get_network"
  "proc_all reading res_ok handle_get_latest_ledger"
  "proc_all reading res_ok (handle_get_ledgers X params)"
  "proc_all reading res_ok (handle_get_ledger_entries X params)"
  "proc_all reading res_ok (handle_simulate_transaction X params)"
  "proc_all reading res_ok (handle_get_transaction X params)"
  by (auto simp: handlers Let_def)

lemma send_handler: "proc_all (\<lambda>_. True) res_ok (handle_send_transaction X params)"
  by (auto simp: handle_send_transaction_def Let_def split: sum.splits)

section \<open>Running a process\<close>

lemma run_proc_answers:
  "proc_all C res_ok p \<Longrightarrow> \<exists>r wk'. run_proc X p wk = (Some r, wk') \<and> res_ok r"
proof (induction p arbitrary: wk)
  case (Ask c k)
  show ?case
  proof (cases "actor_send X c wk")
    case (Pair out wk1)
    show ?thesis
    proof (cases out)
      case (Inr r)
      with Pair obtain w0 w1 where "worker_step X c w0 = Some (r, w1)"
        by (cases wk) (auto split: option.splits)
      then have "reply_for c r" by (rule wk.exec_reply)
      with Ask.prems Ask.IH [of "k r"] Pair Inr show ?thesis by simp
    qed (use Pair in simp)
  qed
qed simp_all

text \<open>A process that ends with the worker alive has run as commands, one after the other.\<close>

lemma run_proc_loop:
  assumes "run_proc X p (Some wk) = (res, Some wk')" "proc_all C F p"
  shows "\<exists>cs rs. worker_loop X cs wk = Some (rs, wk') \<and> list_all C cs"
  using assms
proof (induction p arbitrary: wk)
  case (Finish r)
  then have "worker_loop X [] wk = Some ([], wk')" by simp
  then show ?case by fastforce
next
  case (Ask c k)
  show ?case
  proof (cases "worker_step X c wk")
    case (Some rw)
    obtain r wk1 where s: "worker_step X c wk = Some (r, wk1)" using Some by (cases rw) simp
    have "reply_for c r" using s by (rule wk.exec_reply)
    with Ask.IH [of "k r" wk1] Ask.prems s obtain cs rs where
      "worker_loop X cs wk1 = Some (rs, wk')" "list_all C cs" by auto
    with s Ask.prems(2) have "worker_loop X (c # cs) wk = Some (r # rs, wk') \<and> list_all C (c # cs)" by simp
    then show ?thesis by blast
  qed (use Ask.prems in simp)
qed simp

section \<open>Hexadecimal text\<close>

lemma hex_nibble_char: "n < 16 \<Longrightarrow> hex_nibble (of_char (nibble_char n)) = Some n"
proof -
  assume "n < (16 :: u8)"
  then have "unat n < 16" by (simp add: word_less_nat_alt)
  moreover have "\<forall>k\<in>set [0..<16]. hex_nibble (of_char (nibble_char (word_of_nat k))) = Some (word_of_nat k)"
    by code_simp
  ultimately have "hex_nibble (of_char (nibble_char (word_of_nat (unat n)))) = Some (word_of_nat (unat n))"
    by (metis atLeast0LessThan lessThan_iff set_upt)
  then show ?thesis by simp
qed

lemma nibbles: "push_bit 4 (drop_bit 4 b) OR (b AND 15) = (b :: u8)" "drop_bit 4 b < 16" "b AND 15 < 16"
proof -
  have m: "(15 :: u8) = mask 4" by (simp add: mask_eq_exp_minus_1)
  show "push_bit 4 (drop_bit 4 b) OR (b AND 15) = b"
    unfolding m by (rule bit_word_eqI) (auto simp: bit_simps)
  have "unat b < 256" using unsigned_less [of b] by simp
  then show "drop_bit 4 b < 16"
    by (simp add: word_less_nat_alt drop_bit_eq_div unat_div)
  show "b AND 15 < 16"
    unfolding m take_bit_eq_mask [symmetric]
    using take_bit_nat_less_exp [of 4 "unat b"] by (simp add: word_less_nat_alt unsigned_take_bit_eq)
qed

lemma parse_hex_pairs_hex: "parse_hex_pairs (bytes_of_str (hex_lower bs)) = Some bs"
  by (induction bs) (simp_all add: hex_lower_def bytes_of_str_def byte_02x_def hex_nibble_char nibbles)

lemma length_hex_lower [simp]: "length (hex_lower bs) = 2 * length bs"
  by (induction bs) (simp_all add: hex_lower_def byte_02x_def)


section \<open>What a send does to the worker\<close>

definition worker_gone :: "json_rpc_error + json" where
  "worker_gone = Inl (internal_error (show_actor_error WorkerGone))"

lemma run_ask [simp]:
  "run_proc X (ask_network kn) (Some wk) =
     run_proc X (kn \<lparr> nr_passphrase = unwrap_or network_label (fk_passphrase (wk_env wk)),
                      nr_protocol_version = fk_protocol_version (wk_env wk),
                      nr_network_id_hex = hex_encode (fk_network_id (wk_env wk)) \<rparr>) (Some wk)"
  "run_proc X (ask_latest kl) (Some wk) =
     run_proc X (kl \<lparr> lr_sequence = ledger_sequence (wk_env wk),
                      lr_protocol_version = fk_protocol_version (wk_env wk),
                      lr_id = ''forked-ledger-'' @ show_u (ledger_sequence (wk_env wk)) \<rparr>) (Some wk)"
  "run_proc X (ask_page kp) (Some wk) =
     run_proc X (kp \<lparr> lp_sequence = ledger_sequence (wk_env wk),
                      lp_close_time = ledger_close_time (wk_env wk) \<rparr>) (Some wk)"
  "run_proc X (ask_receipt h kt) (Some wk) = run_proc X (kt (wk_receipts wk h)) (Some wk)"
  "run_proc X (ask_entries keys ke) (Some wk) =
     (case resolve_ledger_entries X keys (wk_env wk) of
        None \<Rightarrow> (Some worker_gone, None)
      | Some (es, fk) \<Rightarrow>
          run_proc X (ke \<lparr> ler_entries = es, ler_latest_ledger = ledger_sequence fk \<rparr>) (Some (wk\<lparr>wk_env := fk\<rparr>)))"
  "run_proc X (ask_simulate hf a n ks) (Some wk) =
     (case simulate_transaction X (wk_env wk) hf a n of
        None \<Rightarrow> (Some worker_gone, None)
      | Some (r, fk) \<Rightarrow> run_proc X (ks r) (Some (wk\<lparr>wk_env := fk\<rparr>)))"
  "run_proc X (ask_send envelope hf a kd) (Some wk) =
     (case send_transaction X (wk_env wk) (wk_clock wk) envelope hf a of
        None \<Rightarrow> (Some worker_gone, None)
      | Some (r, fk) \<Rightarrow>
          run_proc X (kd r) (Some (wk\<lparr>wk_env := fk, wk_clock := Suc (wk_clock wk),
                                     wk_receipts := (wk_receipts wk)(sr_hash r \<mapsto> sr_receipt r)\<rparr>)))"
  "run_proc X (ask_set key entry lu p) (Some wk) =
     (case set_entry X key entry lu (fk_source (wk_env wk)) of
        None \<Rightarrow> (Some worker_gone, None)
      | Some s \<Rightarrow> run_proc X p (Some (wk\<lparr>wk_env := (wk_env wk)\<lparr>fk_source := s\<rparr>\<rparr>)))"
  "run_proc X (ask_close n s kc) (Some wk) =
     run_proc X (kc \<lparr> cl_new_sequence = ledger_sequence (warp n s (wk_env wk)),
                      cl_new_close_time = ledger_close_time (warp n s (wk_env wk)) \<rparr>)
       (Some (wk\<lparr>wk_env := warp n s (wk_env wk)\<rparr>))"
  by (simp_all add: ask_defs worker_gone_def Let_def split: option.splits prod.splits)

lemma run_try [simp]:
  "run_proc X (try_res r k) wk = (case r of Inl e \<Rightarrow> (Some (Inl e), wk) | Inr a \<Rightarrow> run_proc X (k a) wk)"
  by (cases r) simp_all

lemma send_handler_cases:
  assumes "run_proc X (handle_send_transaction X params) (Some wk) = (Some (Inr body), wk1)"
  obtains s envelope_bytes envelope hf a sr fk where
    "dec_send_transaction_params params = Some s" "decode_envelope X s = Inr (envelope_bytes, envelope)"
    "extract_invoke_op X envelope = Inr (hf, a)"
    "send_transaction X (wk_env wk) (wk_clock wk) envelope_bytes hf a = Some (sr, fk)"
    "wk1 = Some (wk\<lparr>wk_env := fk, wk_clock := Suc (wk_clock wk),
                  wk_receipts := (wk_receipts wk)(sr_hash sr \<mapsto> sr_receipt sr)\<rparr>)"
    "body = send_json \<lparr> sn_status = (if is_ok (rcpt_result (sr_receipt sr)) then ''SUCCESS'' else ''ERROR''),
       sn_hash = hex_lower (sr_hash sr), sn_latest_ledger = ledger_sequence fk,
       sn_latest_ledger_close_time = show_u (ledger_close_time fk), sn_envelope_xdr = s,
       sn_error_message = (case rcpt_result (sr_receipt sr) of Inl msg \<Rightarrow> Some msg | Inr _ \<Rightarrow> None),
       sn_applied_changes = rcpt_applied_changes (sr_receipt sr) \<rparr>"
proof -
  from assms obtain s envelope_bytes envelope hf a where d: "dec_send_transaction_params params = Some s"
    "decode_envelope X s = Inr (envelope_bytes, envelope)" "extract_invoke_op X envelope = Inr (hf, a)"
    by (auto simp: handle_send_transaction_def ok_or_def split: sum.splits option.splits)
  with assms obtain sr fk where st: "send_transaction X (wk_env wk) (wk_clock wk) envelope_bytes hf a = Some (sr, fk)"
    by (cases "send_transaction X (wk_env wk) (wk_clock wk) envelope_bytes hf a")
       (auto simp: handle_send_transaction_def worker_gone_def)
  show thesis
    by (rule that [OF d st])
       (use assms d st in \<open>auto simp: handle_send_transaction_def Let_def split: sum.splits\<close>)
qed

section \<open>Properties\<close>

text \<open>
  The hexadecimal hash of a response is the hash: \<open>parse_hex32\<close> reads back what \<open>hex_lower\<close>
  wrote, and accepts nothing that is not the hexadecimal text of 32 bytes.
\<close>

lemma parse_hex32_roundtrip:
  "(length h = 32 \<longrightarrow> parse_hex32 (hex_lower h) = Some h)
   \<and> (\<forall>s b. parse_hex32 s = Some b \<longrightarrow> length s = 64 \<and> length b = 32)"
proof -
  have pairs: "parse_hex_pairs bs = Some b \<Longrightarrow> length b = length bs div 2" for bs b
    by (induction bs arbitrary: b rule: parse_hex_pairs.induct) (auto split: option.splits)
  have "parse_hex32 s = Some b \<longrightarrow> length s = 64 \<and> length b = 32" for s b
  proof
    assume s: "parse_hex32 s = Some b"
    then have "length s = 64" by (simp add: parse_hex32_def split: if_splits)
    moreover from s this have "parse_hex_pairs (bytes_of_str s) = Some b" by (simp add: parse_hex32_def)
    then have "length b = length s div 2" using pairs by fastforce
    ultimately show "length s = 64 \<and> length b = 32" by simp
  qed
  moreover have "parse_hex32 (hex_lower h) = Some h" if "length h = 32"
    by (simp add: parse_hex32_def that parse_hex_pairs_hex)
  ultimately show ?thesis by blast
qed

text \<open>What the code relies on of XDR and SHA-256: a value in memory can be encoded, a digest is
  32 bytes long.\<close>

definition receipts_encode :: "ext_lib \<Rightarrow> bool" where
  "receipts_encode X \<longleftrightarrow> (\<forall>v. is_ok (scval_to_xdr X v)) \<and> (\<forall>m. is_ok (meta_to_xdr X m))
     \<and> (\<forall>r. is_ok (result_to_xdr X r)) \<and> (\<forall>b. length (sha256 X b) = 32)"

lemma encode_b64_ok: "is_ok r \<Longrightarrow> \<exists>s. encode_b64 X l r = Inr s"
  by (cases r) (simp_all add: encode_b64_def)

lemma res_bind_total: "\<exists>a. r = Inr a \<Longrightarrow> (\<And>a. \<exists>b. k a = Inr b) \<Longrightarrow> \<exists>b. res_bind r k = Inr b"
  by auto

lemma build_result_xdrs_ok: "receipts_encode X \<Longrightarrow> \<exists>p. build_result_xdrs X v s = Inr p"
  unfolding build_result_xdrs_def Let_def
  by (intro res_bind_total encode_b64_ok) (simp_all add: receipts_encode_def)

lemma get_transaction_body_found:
  assumes "receipts_encode X"
  obtains body where "get_transaction_body X n (Some r) = Inr body"
    "gt_status body = (if is_ok (rcpt_result r) then ''SUCCESS'' else ''FAILED'')"
    "gt_error_message body = (case rcpt_result r of Inl msg \<Rightarrow> Some msg | Inr _ \<Rightarrow> None)"
    "gt_applied_changes body = Some (rcpt_applied_changes r)"
    "gt_envelope_xdr body = Some (b64_encode X (rcpt_envelope_bytes r))"
proof (cases "rcpt_result r")
  case (Inl msg)
  obtain p where "build_result_xdrs X ScVoid False = Inr p" using build_result_xdrs_ok [OF assms] by blast
  with Inl show thesis by (cases p) (auto simp: get_transaction_body_def intro: that)
next
  case (Inr v)
  obtain p where "build_result_xdrs X v True = Inr p" using build_result_xdrs_ok [OF assms] by blast
  moreover have "is_ok (scval_to_xdr X v)" using assms by (simp add: receipts_encode_def)
  then obtain s where "encode_b64 X ''encode return ScVal: '' (scval_to_xdr X v) = Inr s"
    using encode_b64_ok by blast
  ultimately show thesis using Inr by (cases p) (auto simp: get_transaction_body_def intro: that)
qed

lemma tx_hash_length: "(\<And>b. length (sha256 X b) = 32) \<Longrightarrow> length (tx_hash_of X e n) = 32"
  by (auto simp: tx_hash_of_def canonical_tx_hash_def res_bind_def split: sum.splits)

lemma json_index_send [simp]:
  "json_index (send_json r) ''status'' = JString (sn_status r)"
  "json_index (send_json r) ''hash'' = JString (sn_hash r)"
  "json_index (send_json r) ''appliedChanges'' = j_u32 (sn_applied_changes r)"
  "json_index (send_json r) ''envelopeXdr'' = JString (sn_envelope_xdr r)"
  "json_index (send_json r) ''errorMessage'' = (case sn_error_message r of None \<Rightarrow> JNull | Some m \<Rightarrow> JString m)"
  by (simp_all add: send_json_def map_of_append map_add_def j_skip_def split: option.splits)

lemma json_index_get [simp]:
  "json_index (get_transaction_json r) ''status'' = JString (gt_status r)"
  "json_index (get_transaction_json r) ''appliedChanges''
     = (case gt_applied_changes r of None \<Rightarrow> JNull | Some n \<Rightarrow> j_u32 n)"
  "json_index (get_transaction_json r) ''envelopeXdr''
     = (case gt_envelope_xdr r of None \<Rightarrow> JNull | Some m \<Rightarrow> JString m)"
  "json_index (get_transaction_json r) ''errorMessage''
     = (case gt_error_message r of None \<Rightarrow> JNull | Some m \<Rightarrow> JString m)"
  by (simp_all add: get_transaction_json_def map_of_append map_add_def j_skip_def split: option.splits)

text \<open>
  C6: What \<open>sendTransaction\<close> answered can be polled: asked for the hash of the answer, after any
  commands that send no transaction of the same hash, \<open>getTransaction\<close> finds the receipt. It
  reports the same outcome, with \<open>FAILED\<close> for the send's \<open>ERROR\<close>, the same number of changes
  and the same error message, and it changes nothing.
\<close>

theorem send_then_get_transaction:
  assumes "receipts_encode X"
    "run_proc X (handle_send_transaction X params) (Some wk) = (Some (Inr sent), Some wk1)"
    "worker_loop X cs wk1 = Some (rs, wk2)"
    "\<forall>e hf a. CmdSendTransaction e hf a \<in> set cs \<longrightarrow>
       json_index sent ''hash'' \<noteq> JString (hex_lower (tx_hash_of X e (fk_network_id (wk_env wk))))"
  shows "\<exists>got. run_proc X (handle_get_transaction X (JObject [(''hash'', json_index sent ''hash'')])) (Some wk2)
        = (Some (Inr got), Some wk2)
    \<and> (json_index sent ''status'', json_index got ''status'')
        \<in> {(JString ''SUCCESS'', JString ''SUCCESS''), (JString ''ERROR'', JString ''FAILED'')}
    \<and> json_index got ''appliedChanges'' = json_index sent ''appliedChanges''
    \<and> json_index got ''errorMessage'' = json_index sent ''errorMessage''"
proof -
  have sha: "\<And>b. length (sha256 X b) = 32" using assms(1) by (simp add: receipts_encode_def)
  obtain s envelope_bytes envelope hf a sr fk where
    st: "send_transaction X (wk_env wk) (wk_clock wk) envelope_bytes hf a = Some (sr, fk)"
    and wk1: "wk1 = wk\<lparr>wk_env := fk, wk_clock := Suc (wk_clock wk),
                  wk_receipts := (wk_receipts wk)(sr_hash sr \<mapsto> sr_receipt sr)\<rparr>"
    and body: "sent = send_json \<lparr> sn_status = (if is_ok (rcpt_result (sr_receipt sr)) then ''SUCCESS'' else ''ERROR''),
       sn_hash = hex_lower (sr_hash sr), sn_latest_ledger = ledger_sequence fk,
       sn_latest_ledger_close_time = show_u (ledger_close_time fk), sn_envelope_xdr = s,
       sn_error_message = (case rcpt_result (sr_receipt sr) of Inl msg \<Rightarrow> Some msg | Inr _ \<Rightarrow> None),
       sn_applied_changes = rcpt_applied_changes (sr_receipt sr) \<rparr>"
    using assms(2) by (auto elim!: send_handler_cases)
  have h: "sr_hash sr = tx_hash_of X envelope_bytes (fk_network_id (wk_env wk))"
    using st by (rule send_transaction_cases)
  have n: "fk_network_id (wk_env wk1) = fk_network_id (wk_env wk)"
    using send_transaction_same [OF st] wk1 by (simp add: fork_same_def fork_const_def)
  have other: "\<forall>e hf a. CmdSendTransaction e hf a \<in> set cs \<longrightarrow> tx_hash_of X e (fk_network_id (wk_env wk)) \<noteq> sr_hash sr"
    using assms(4) by (simp add: body) metis
  have "wk_receipts wk2 (sr_hash sr) = Some (sr_receipt sr)"
    using worker_loop_receipt [OF assms(3), of "sr_hash sr"] other n wk1 by simp
  moreover have "parse_hex32 (hex_lower (sr_hash sr)) = Some (sr_hash sr)"
    using tx_hash_length [of X envelope_bytes, OF sha] by (simp add: h parse_hex32_def parse_hex_pairs_hex)
  moreover obtain b where "get_transaction_body X (ledger_sequence (wk_env wk2)) (Some (sr_receipt sr)) = Inr b"
    "gt_status b = (if is_ok (rcpt_result (sr_receipt sr)) then ''SUCCESS'' else ''FAILED'')"
    "gt_error_message b = (case rcpt_result (sr_receipt sr) of Inl msg \<Rightarrow> Some msg | Inr _ \<Rightarrow> None)"
    "gt_applied_changes b = Some (rcpt_applied_changes (sr_receipt sr))"
    using get_transaction_body_found [OF assms(1)] by metis
  ultimately show ?thesis
    by (simp add: handle_get_transaction_def body split: sum.splits)
qed

section \<open>At a concrete input\<close>

text \<open>The host library of the worker's witnesses, with envelopes that carry one invocation and
  an encoding for every value.\<close>

definition serve_tx :: transaction where
  "serve_tx = sample_tx\<lparr>tx_operations := [\<lparr> op_source = None, op_body = OpInvokeHostFunction (HfOther []) [] \<rparr>]\<rparr>"

definition serve_lib :: ext_lib where
  "serve_lib = host_lib\<lparr>envelope_from_xdr := (\<lambda>b. Inr (EnvTx \<lparr> v1_tx = serve_tx, v1_signatures = [b] \<rparr>)),
                        scval_to_xdr := (\<lambda>_. Inr [])\<rparr>"

lemma serve_lib_simps:
  "entry_to_xdr serve_lib = sample_entry_to_xdr" "entry_from_xdr serve_lib = sample_entry_from_xdr"
  "key_to_xdr serve_lib = sample_key_to_xdr" "key_from_xdr serve_lib = sample_key_from_xdr"
  "data_from_xdr serve_lib b = Inl ''unsupported''"
  "envelope_from_xdr serve_lib b = Inr (EnvTx \<lparr> v1_tx = serve_tx, v1_signatures = [b] \<rparr>)"
  "host_invoke serve_lib rq = HostGet (KeyContractCode [7]) (\<lambda>_. HostDone sample_outcome_ok)"
  "\<not> overflow_checks serve_lib" "sig_payload_to_xdr serve_lib h tg = Inr h"
  "b64_decode serve_lib s = Inr (bytes_of_str s)" "scval_to_xdr serve_lib v = Inr []"
  "sha256 serve_lib b = take 32 (b @ replicate 32 0)"
  by (simp_all add: serve_lib_def host_lib_def sample_lib_simps)

lemma serve_lib_codec: "entry_codec_ok serve_lib"
  by (rule sample_entry_codec) (simp_all add: serve_lib_simps)

lemma serve_decode: "decode_entry serve_lib = decode_entry host_lib"
  by (rule ext) (simp add: decode_entry_def serve_lib_simps host_lib_simps)

lemma serve_lib_ok: "host_ok serve_lib"
  using sample_outcome_decodes
  by (simp add: serve_decode host_ok_def serve_lib_simps outcome_ok_def sample_outcome_ok_def changes_decode_def
      host_lib_simps cong: option.case_cong)

lemma serve_lib_encodes: "receipts_encode serve_lib"
  by (auto simp: receipts_encode_def serve_lib_simps min_def) (simp_all add: serve_lib_def host_lib_def sample_lib_def)

lemma serve_fork_alive: "fork_alive serve_lib (wk_env sample_worker)"
  using sample_fork_alive
  by (simp add: sample_worker_def worker_start_def fork_alive_def fork_ok_def source_ok_def source_alive_def
      lenient_def decoded_encodes_def serve_lib_codec serve_lib_simps host_lib_simps sample_fork_def)

definition serve_send_params :: json where
  "serve_send_params = JObject [(''transaction'', JString ''AAAA'')]"

lemma serve_send:
  "\<exists>sent wk1. run_proc serve_lib (handle_send_transaction serve_lib serve_send_params) (Some sample_worker)
     = (Some (Inr sent), Some wk1)"
proof -
  obtain r fk where st: "send_transaction serve_lib (wk_env sample_worker) (wk_clock sample_worker)
      (bytes_of_str ''AAAA'') (HfOther []) [3] = Some (r, fk)"
    using send_transaction_alive [OF serve_fork_alive serve_lib_ok] by blast
  have env: "decode_envelope serve_lib ''AAAA''
      = Inr (bytes_of_str ''AAAA'', EnvTx \<lparr> v1_tx = serve_tx, v1_signatures = [bytes_of_str ''AAAA''] \<rparr>)"
    by (simp add: decode_envelope_def decode_b64_def decode_xdr_def serve_lib_simps)
  have op: "extract_invoke_op serve_lib (EnvTx \<lparr> v1_tx = serve_tx, v1_signatures = sigs \<rparr>) = Inr (HfOther [], [3])" for sigs
    by (simp add: extract_invoke_op_def serve_tx_def sample_tx_def muxed_account_id_def)
  show ?thesis
    by (simp add: handle_send_transaction_def serve_send_params_def env op st split: sum.splits)
qed

theorem send_then_get_transaction_witness:
  "\<exists>sent wk1 got. run_proc serve_lib (handle_send_transaction serve_lib serve_send_params) (Some sample_worker)
      = (Some (Inr sent), Some wk1)
    \<and> run_proc serve_lib (handle_get_transaction serve_lib (JObject [(''hash'', json_index sent ''hash'')])) (Some wk1)
      = (Some (Inr got), Some wk1)
    \<and> json_index got ''appliedChanges'' = json_index sent ''appliedChanges''"
proof -
  obtain sent wk1 where s: "run_proc serve_lib (handle_send_transaction serve_lib serve_send_params) (Some sample_worker)
      = (Some (Inr sent), Some wk1)"
    using serve_send by blast
  have "worker_loop serve_lib [] wk1 = Some ([], wk1)" by simp
  from send_then_get_transaction [OF serve_lib_encodes s this] s show ?thesis by auto
qed

end
