(* ===== verification/ForkMethods.thy ===== *)
theory ForkMethods
  imports Handlers
begin

text \<open>
  The \<open>fork_\<close> methods of \<open>src/server/handlers.rs\<close>, which write the fork's ledger directly:
  \<open>fork_setLedgerEntry\<close> and the wrappers that build its key and entry, the read-modify-write
  methods \<open>fork_setBalance\<close> and \<open>fork_etch\<close>, and \<open>fork_closeLedgers\<close>.
\<close>

section \<open>Writing one entry\<close>

definition set_entry_done :: proc where
  "set_entry_done =
     ask_latest (\<lambda>latest.
       Finish (Inr (set_entry_json \<lparr> se_ok = True, se_latest_ledger = lr_sequence latest \<rparr>)))"

definition handle_fork_set_ledger_entry :: "ext_lib \<Rightarrow> json \<Rightarrow> proc" where
  "handle_fork_set_ledger_entry X params =
     try_res (ok_or (params_error X ''fork_setLedgerEntry'' ''SetLedgerEntryParams'' params)
                (dec_set_ledger_entry_params params))
     (\<lambda>parsed. try_res (decode_b64 X ''key'' (sle_key parsed))
     (\<lambda>key_bytes. try_res (decode_xdr ''key: XDR decode: '' (key_from_xdr X) key_bytes)
     (\<lambda>key. try_res (decode_b64 X ''entry'' (sle_entry parsed))
     (\<lambda>entry_bytes. try_res (decode_xdr ''entry: XDR decode: '' (entry_from_xdr X) entry_bytes)
     (\<lambda>entry. ask_set key entry (sle_live_until parsed) set_entry_done)))))"

definition storage_durability_of :: "storage_durability option \<Rightarrow> durability" where
  "storage_durability_of d =
     (case unwrap_or StoragePersistent d of StoragePersistent \<Rightarrow> Persistent | StorageTemporary \<Rightarrow> Temporary)"

definition contract_data_of :: "sc_address \<Rightarrow> scval \<Rightarrow> durability \<Rightarrow> scval \<Rightarrow> ledger_entry" where
  "contract_data_of contract key dur val =
     \<lparr> le_last_modified = 0,
       le_data = DataContractData \<lparr> cd_contract = contract, cd_key = key, cd_durability = dur, cd_val = val \<rparr>,
       le_ext = ExtV0 \<rparr>"

definition handle_fork_set_storage :: "ext_lib \<Rightarrow> json \<Rightarrow> proc" where
  "handle_fork_set_storage X params =
     try_res (ok_or (params_error X ''fork_setStorage'' ''SetStorageParams'' params)
                (dec_set_storage_params params))
     (\<lambda>parsed. try_res (decode_contract X ''contract'' (ssp_contract parsed))
     (\<lambda>contract_address. try_res (decode_b64 X ''key'' (ssp_key parsed))
     (\<lambda>key_bytes. try_res (decode_xdr ''key: ScVal XDR decode: '' (scval_from_xdr X) key_bytes)
     (\<lambda>key_scval. try_res (decode_b64 X ''value'' (ssp_value parsed))
     (\<lambda>value_bytes. try_res (decode_xdr ''value: ScVal XDR decode: '' (scval_from_xdr X) value_bytes)
     (\<lambda>value_scval.
        let dur = storage_durability_of (ssp_durability parsed)
        in ask_set (KeyContractData contract_address key_scval dur)
             (contract_data_of contract_address key_scval dur value_scval)
             (ssp_live_until parsed) set_entry_done))))))"

text \<open>A code entry; its bytes have to fit a \<open>BytesM<u32::MAX>\<close>.\<close>

definition contract_code_of :: "hash \<Rightarrow> bytes \<Rightarrow> json_rpc_error + ledger_entry" where
  "contract_code_of hash wasm =
     (if length wasm < 2 ^ 32 then
        Inr \<lparr> le_last_modified = 0,
              le_data = DataContractCode \<lparr> cc_ext = ExtV0, cc_hash = hash, cc_code = wasm \<rparr>,
              le_ext = ExtV0 \<rparr>
      else Inl (invalid_params ''wasm: bytes exceed XDR BytesM<u32::MAX> capacity''))"

definition set_code_done :: "hash \<Rightarrow> proc" where
  "set_code_done hash =
     ask_latest (\<lambda>latest.
       Finish (Inr (set_code_json
         \<lparr> sco_ok = True, sco_hash = hex_lower hash, sco_latest_ledger = lr_sequence latest \<rparr>)))"

definition handle_fork_set_code :: "ext_lib \<Rightarrow> json \<Rightarrow> proc" where
  "handle_fork_set_code X params =
     try_res (ok_or (params_error X ''fork_setCode'' ''SetCodeParams'' params) (dec_set_code_params params))
     (\<lambda>parsed. try_res (decode_b64 X ''wasm'' (scp_wasm parsed))
     (\<lambda>wasm. let hash = sha256 X wasm in
        try_res (contract_code_of hash wasm)
     (\<lambda>entry. ask_set (KeyContractCode hash) entry (scp_live_until parsed) (set_code_done hash))))"

section \<open>\<open>fork_setBalance\<close>\<close>

definition zero_key :: bytes where
  "zero_key = replicate 32 0"

definition balance_value ::
  "ext_lib \<Rightarrow> string + scval \<Rightarrow> json_rpc_error + i128" where
  "balance_value X result =
     (case result of
        Inr (ScI128 hi lo) \<Rightarrow> Inr (i128_from_pieces hi lo)
      | Inr v \<Rightarrow>
          Inl (invalid_params
            (if (case v of ScU64 _ \<Rightarrow> True | ScU32 _ \<Rightarrow> True | ScI32 _ \<Rightarrow> True | ScI64 _ \<Rightarrow> True | _ \<Rightarrow> False)
             then ''asset.contract: token's balance() returned a non-i128 ScVal ''
                  @ utf8_em_dash @ '' not a SEP-41-shaped token. Got: Ok('' @ debug_scval X v @ '')''
             else ''asset.contract: token's balance() returned unexpected ScVal type: '' @ debug_scval X v))
      | Inl e \<Rightarrow>
          Inl (invalid_params
            (''asset.contract: token's balance() simulation failed: '' @ e
             @ ''. Is the contract a SEP-41-shaped token? Does the account exist?'')))"

definition token_call :: "sc_address \<Rightarrow> string \<Rightarrow> scval list \<Rightarrow> host_function" where
  "token_call contract_address fn_name args =
     HfInvokeContract \<lparr> ic_contract = contract_address, ic_function = bytes_of_str fn_name, ic_args = args \<rparr>"

definition synthetic_envelope :: "host_function \<Rightarrow> transaction_envelope" where
  "synthetic_envelope hf =
     EnvTx \<lparr> v1_tx = \<lparr> tx_source = MuxEd25519 zero_key, tx_fee = 0, tx_seq_num = 0, tx_cond = PrecondNone,
                       tx_memo = MemoNone,
                       tx_operations = [\<lparr> op_source = None, op_body = OpInvokeHostFunction hf [] \<rparr>],
                       tx_ext = ExtV0 \<rparr>,
             v1_signatures = [] \<rparr>"

definition set_balance_done :: "u32 \<Rightarrow> proc" where
  "set_balance_done latest =
     Finish (Inr (set_balance_json \<lparr> sb_ok = True, sb_latest_ledger = latest \<rparr>))"

text \<open>The call that moves a balance by \<open>delta\<close>: \<open>mint\<close> or \<open>burn\<close> of its absolute value.\<close>

definition delta_call :: "sc_address \<Rightarrow> i128 \<Rightarrow> json_rpc_error + string \<times> scval list" where
  "delta_call to_address delta =
     (if sint delta > 0 then Inr (''mint'', [ScAddress to_address, i128_to_scval delta])
      else if sint delta = - (2 ^ 127) then Inl (invalid_params ''amount: i128::MIN delta unreachable'')
      else Inr (''burn'', [ScAddress to_address, i128_to_scval (- delta)]))"

definition send_delta :: "ext_lib \<Rightarrow> sc_address \<Rightarrow> string \<Rightarrow> scval list \<Rightarrow> i128 \<Rightarrow> proc" where
  "send_delta X contract_address fn_name args delta =
     (let mutate_fn = token_call contract_address fn_name args in
      try_res (map_err (\<lambda>e. internal_error (''encode synthetic envelope: '' @ e))
                 (envelope_to_xdr X (synthetic_envelope mutate_fn)))
      (\<lambda>envelope_bytes. ask_send envelope_bytes mutate_fn zero_key
      (\<lambda>send_reply.
         case rcpt_result (sr_receipt send_reply) of
           Inl msg \<Rightarrow>
             Finish (Inl (invalid_params
               (''token '' @ fn_name @ ''('' @ show_s delta @ '') failed: '' @ msg
                @ ''. Is the contract SEP-41-shaped with public mint/burn? Trust-mode auth bypasses admin ''
                @ ''checks but the function must still exist and accept (Address, i128).'')))
         | Inr _ \<Rightarrow> ask_latest (\<lambda>latest. set_balance_done (lr_sequence latest)))))"

definition handle_set_token_balance :: "ext_lib \<Rightarrow> account_id \<Rightarrow> string \<Rightarrow> string \<Rightarrow> proc" where
  "handle_set_token_balance X to_account amount_str contract_strkey =
     try_res (map_err (\<lambda>e. invalid_params (''amount: not a valid i128 decimal string (''
                          @ show_parse_int_error e @ ''): '' @ debug_str X amount_str))
                (parse_signed 128 amount_str))
     (\<lambda>target_amount.
        if target_amount < 0 then
          Finish (Inl (invalid_params (''amount: must be >= 0, got '' @ show_int target_amount)))
        else try_res (decode_contract X ''asset.contract'' contract_strkey)
     (\<lambda>contract_address.
        let to_address = AddrAccount to_account in
        ask_simulate (token_call contract_address ''balance'' [ScAddress to_address]) zero_key 0
     (\<lambda>sim_reply. try_res (balance_value X (sim_result sim_reply))
     (\<lambda>current_balance.
        case sub_i128 X (word_of_int target_amount) current_balance of
          None \<Rightarrow> HandlerPanic
        | Some delta \<Rightarrow>
            if delta = 0 then set_balance_done (sim_latest_ledger sim_reply)
            else try_res (delta_call to_address delta)
              (\<lambda>(fn_name, args). send_delta X contract_address fn_name args delta)))))"

text \<open>A classic asset's key; a credit asset also has the \<open>TrustLineAsset\<close> of a new trust line.\<close>

definition credit_asset :: "string \<Rightarrow> account_id \<Rightarrow> json_rpc_error + trust_line_asset" where
  "credit_asset code issuer =
     (let n = length code in
      if n = 0 then Inl (invalid_params ''asset.code: must be 1-12 chars, got empty'')
      else if n \<le> 4 then Inr (CreditAlphanum4 (bytes_of_str code @ replicate (4 - n) 0) issuer)
      else if n \<le> 12 then Inr (CreditAlphanum12 (bytes_of_str code @ replicate (12 - n) 0) issuer)
      else Inl (invalid_params (''asset.code: must be 1-12 chars, got '' @ show_nat n)))"

text \<open>The classic assets of \<open>AssetWire\<close>; a contract was dispatched before.\<close>

datatype classic_asset = ClassicNative | ClassicCredit string string

definition classic_key ::
  "ext_lib \<Rightarrow> account_id \<Rightarrow> classic_asset \<Rightarrow> json_rpc_error + ledger_key \<times> trust_line_asset option" where
  "classic_key X account asset =
     (case asset of
        ClassicNative \<Rightarrow> Inr (KeyAccount account, None)
      | ClassicCredit code issuer \<Rightarrow>
          res_bind (decode_account X ''asset.issuer'' issuer)
            (\<lambda>issuer_id. res_bind (credit_asset code issuer_id)
            (\<lambda>line. Inr (KeyTrustline account line, Some line))))"

definition new_account :: "account_id \<Rightarrow> i64 \<Rightarrow> u32 \<Rightarrow> ledger_entry" where
  "new_account account amount latest =
     \<lparr> le_last_modified = latest,
       le_data = DataAccount
         \<lparr> ae_account_id = account, ae_balance = amount, ae_seq_num = push_bit 32 (ucast latest),
           ae_num_sub_entries = 0, ae_inflation_dest = None, ae_flags = 0, ae_home_domain = [],
           ae_thresholds = [1, 0, 0, 0], ae_signers = [], ae_ext = ExtV0 \<rparr>,
       le_ext = ExtV0 \<rparr>"

definition new_trustline :: "account_id \<Rightarrow> trust_line_asset \<Rightarrow> i64 \<Rightarrow> u32 \<Rightarrow> ledger_entry" where
  "new_trustline account asset amount latest =
     \<lparr> le_last_modified = latest,
       le_data = DataTrustline
         \<lparr> tl_account_id = account, tl_asset = asset, tl_balance = amount, tl_limit = 0x7FFFFFFFFFFFFFFF,
           tl_flags = 1, tl_ext = ExtV0 \<rparr>,
       le_ext = ExtV0 \<rparr>"

definition shape_error :: "ext_lib \<Rightarrow> string \<Rightarrow> ledger_entry_data \<Rightarrow> json_rpc_error" where
  "shape_error X kind other =
     internal_error (''expected '' @ kind @ '' entry under '' @ kind @ '' key, got '' @ debug_data X other
       @ '' (cache corruption or LedgerKey/LedgerEntry shape mismatch)'')"

definition balance_entry ::
  "ext_lib \<Rightarrow> classic_asset \<Rightarrow> account_id \<Rightarrow> i64 \<Rightarrow> u32 \<Rightarrow> ledger_entry option \<Rightarrow> trust_line_asset option
    \<Rightarrow> json_rpc_error + ledger_entry" where
  "balance_entry X asset account amount latest existing for_create =
     (case (asset, existing, for_create) of
        (ClassicNative, Some entry, _) \<Rightarrow>
          (case le_data entry of
             DataAccount a \<Rightarrow>
               Inr (entry\<lparr>le_data := DataAccount (a\<lparr>ae_balance := amount\<rparr>), le_last_modified := latest\<rparr>)
           | other \<Rightarrow> Inl (shape_error X ''Account'' other))
      | (ClassicNative, None, _) \<Rightarrow> Inr (new_account account amount latest)
      | (ClassicCredit _ _, Some entry, _) \<Rightarrow>
          (case le_data entry of
             DataTrustline line \<Rightarrow>
               Inr (entry\<lparr>le_data := DataTrustline (line\<lparr>tl_balance := amount\<rparr>), le_last_modified := latest\<rparr>)
           | other \<Rightarrow> Inl (shape_error X ''Trustline'' other))
      | (ClassicCredit _ _, None, Some line) \<Rightarrow> Inr (new_trustline account line amount latest)
      | (ClassicCredit _ _, None, None) \<Rightarrow>
          Inl (internal_error ''internal: credit asset without trustline-asset construction (bug)''))"

text \<open>\<open>entries.into_iter().next().flatten()\<close>.\<close>

definition first_entry :: "ledger_entries_reply \<Rightarrow> snapshot_entry option" where
  "first_entry reply = (case ler_entries reply of [] \<Rightarrow> None | e # _ \<Rightarrow> e)"

definition set_classic_balance :: "ext_lib \<Rightarrow> account_id \<Rightarrow> string \<Rightarrow> classic_asset \<Rightarrow> proc" where
  "set_classic_balance X account amount_str asset =
     try_res (map_err (\<lambda>e. invalid_params (''amount: not a valid i64 decimal string (''
                          @ show_parse_int_error e @ ''): '' @ debug_str X amount_str))
                (parse_signed 64 amount_str))
     (\<lambda>amount.
        if amount < 0 then Finish (Inl (invalid_params (''amount: must be >= 0, got '' @ show_int amount)))
        else try_res (classic_key X account asset)
     (\<lambda>(lookup_key, for_create). ask_entries [lookup_key]
     (\<lambda>existing.
        try_res (balance_entry X asset account (word_of_int amount) (ler_latest_ledger existing)
                   (map_option (\<lambda>(_, e, _). e) (first_entry existing)) for_create)
     (\<lambda>new_entry. ask_set lookup_key new_entry None (set_balance_done (ler_latest_ledger existing))))))"

definition handle_fork_set_balance :: "ext_lib \<Rightarrow> json \<Rightarrow> proc" where
  "handle_fork_set_balance X params =
     try_res (ok_or (params_error X ''fork_setBalance'' ''SetBalanceParams'' params)
                (dec_set_balance_params params))
     (\<lambda>parsed. try_res (decode_account X ''account'' (sbp_account parsed))
     (\<lambda>account_id.
        case unwrap_or AssetNative (sbp_asset parsed) of
          AssetContract contract \<Rightarrow> handle_set_token_balance X account_id (sbp_amount parsed) contract
        | AssetNative \<Rightarrow> set_classic_balance X account_id (sbp_amount parsed) ClassicNative
        | AssetCredit code issuer \<Rightarrow>
            set_classic_balance X account_id (sbp_amount parsed) (ClassicCredit code issuer)))"

section \<open>\<open>fork_etch\<close> and \<open>fork_closeLedgers\<close>\<close>

definition instance_key :: "sc_address \<Rightarrow> ledger_key" where
  "instance_key contract_address = KeyContractData contract_address ScLedgerKeyContractInstance Persistent"

definition preserved_storage ::
  "ext_lib \<Rightarrow> snapshot_entry option \<Rightarrow> json_rpc_error + (scval \<times> scval) list option" where
  "preserved_storage X existing =
     (case existing of
        None \<Rightarrow> Inr None
      | Some (_, entry, _) \<Rightarrow>
          (case le_data entry of
             DataContractData cd \<Rightarrow>
               (case cd_val cd of
                  ScContractInstance _ storage \<Rightarrow> Inr storage
                | other \<Rightarrow>
                    Inl (internal_error
                      (''instance entry's val is not ContractInstance: '' @ debug_scval X other
                       @ '' (host invariant violation; refusing to overwrite)'')))
           | other \<Rightarrow>
               Inl (internal_error
                 (''instance LedgerKey resolved to non-ContractData entry: '' @ debug_data X other))))"

definition instance_entry :: "sc_address \<Rightarrow> hash \<Rightarrow> (scval \<times> scval) list option \<Rightarrow> ledger_entry" where
  "instance_entry contract_address hash storage =
     contract_data_of contract_address ScLedgerKeyContractInstance Persistent
       (ScContractInstance (ExecWasm hash) storage)"

definition handle_fork_etch :: "ext_lib \<Rightarrow> json \<Rightarrow> proc" where
  "handle_fork_etch X params =
     try_res (ok_or (params_error X ''fork_etch'' ''EtchParams'' params) (dec_etch_params params))
     (\<lambda>parsed. try_res (decode_contract X ''contract'' (ep_contract parsed))
     (\<lambda>contract_address. try_res (decode_b64 X ''wasm'' (ep_wasm parsed))
     (\<lambda>wasm. let new_hash = sha256 X wasm in
        try_res (contract_code_of new_hash wasm)
     (\<lambda>code_entry. ask_set (KeyContractCode new_hash) code_entry (ep_live_until parsed)
     (ask_entries [instance_key contract_address]
     (\<lambda>existing. try_res (preserved_storage X (first_entry existing))
     (\<lambda>storage. ask_set (instance_key contract_address) (instance_entry contract_address new_hash storage)
                  (ep_live_until parsed) (set_code_done new_hash))))))))"

definition handle_fork_close_ledgers :: "ext_lib \<Rightarrow> json \<Rightarrow> proc" where
  "handle_fork_close_ledgers X params =
     try_res
       (if json_is_null params then Inr \<lparr> cp_ledgers = None, cp_timestamp_advance = None \<rparr>
        else ok_or (params_error X ''fork_closeLedgers'' ''CloseLedgersParams'' params)
               (dec_close_ledgers_params params))
     (\<lambda>parsed.
        let ledgers = unwrap_or 1 (cp_ledgers parsed);
            seconds = unwrap_or (ucast ledgers * 5) (cp_timestamp_advance parsed)
        in ask_close ledgers seconds
     (\<lambda>reply. Finish (Inr (close_ledgers_json
        \<lparr> clr_new_sequence = cl_new_sequence reply, clr_new_close_time = show_u (cl_new_close_time reply) \<rparr>))))"

declare handle_fork_set_ledger_entry_def [handlers]
  and handle_fork_set_storage_def [handlers]
  and handle_fork_set_code_def [handlers]
  and handle_fork_etch_def [handlers]
  and handle_fork_close_ledgers_def [handlers]

section \<open>What the methods can do\<close>

lemma fork_decoders_ok [simp]:
  "res_ok (contract_code_of h w)" "res_ok (balance_value X r)" "res_ok (delta_call to_address d)"
  "res_ok (credit_asset c i)" "res_ok (classic_key X a asset)" "res_ok (preserved_storage X e)"
  "res_ok (balance_entry X asset a n latest existing tla)"
  by (auto simp: contract_code_of_def balance_value_def delta_call_def credit_asset_def classic_key_def
      preserved_storage_def balance_entry_def shape_error_def Let_def
      split: sum.splits scval.splits classic_asset.splits option.splits ledger_entry_data.splits prod.splits)

lemma done_all [simp]:
  "proc_all (\<lambda>_. True) res_ok set_entry_done" "proc_all (\<lambda>_. True) res_ok (set_code_done h)"
  "proc_all (\<lambda>_. True) res_ok (set_balance_done n)"
  by (simp_all add: set_entry_done_def set_code_done_def set_balance_done_def)

lemma send_delta_all [simp]: "proc_all (\<lambda>_. True) res_ok (send_delta X c f args d)"
  by (auto simp: send_delta_def Let_def split: sum.splits)

lemma fork_handlers:
  "proc_all (\<lambda>_. True) res_ok (handle_fork_set_ledger_entry X params)"
  "proc_all (\<lambda>_. True) res_ok (handle_fork_set_storage X params)"
  "proc_all (\<lambda>_. True) res_ok (handle_fork_set_code X params)"
  "proc_all (\<lambda>_. True) res_ok (handle_fork_etch X params)"
  "proc_all (\<lambda>_. True) res_ok (handle_fork_close_ledgers X params)"
  by (auto simp: handle_fork_set_ledger_entry_def handle_fork_set_storage_def handle_fork_set_code_def
      handle_fork_etch_def handle_fork_close_ledgers_def Let_def)

lemma classic_balance_all [simp]: "proc_all (\<lambda>_. True) res_ok (set_classic_balance X a s asset)"
  by (auto simp: set_classic_balance_def)

lemma token_balance_all:
  "\<not> overflow_checks X \<Longrightarrow> proc_all (\<lambda>_. True) res_ok (handle_set_token_balance X a s c)"
  by (auto simp: handle_set_token_balance_def sub_i128_def Let_def split: option.splits)

lemma set_balance_all:
  "\<not> overflow_checks X \<Longrightarrow> proc_all (\<lambda>_. True) res_ok (handle_fork_set_balance X params)"
  by (auto simp: handle_fork_set_balance_def token_balance_all split: asset_wire.splits)


section \<open>What a forced entry does to the fork\<close>

lemma fork_ok_codec: "fork_ok X fk \<Longrightarrow> entry_codec_ok X"
  by (simp add: fork_ok_def source_ok_def)

lemma set_fork:
  assumes "fork_ok X fk" "set_entry X k e lu (fk_source fk) = Some s"
  shows "fork_ok X (fk\<lparr>fk_source := s\<rparr>)" "fork_known X (fk\<lparr>fk_source := s\<rparr>) = (fork_known X fk)(k \<mapsto> Some (e, lu))"
  using set_entry_ok [OF _ assms(2), of "fk_world fk"] set_entry_known [OF fork_ok_codec [OF assms(1)] assms(2)] assms(1)
  by (simp_all add: fork_ok_def fork_known_def)

lemma run_set_entry_done [simp]:
  "run_proc X set_entry_done (Some wk) =
     (Some (Inr (set_entry_json \<lparr> se_ok = True, se_latest_ledger = ledger_sequence (wk_env wk) \<rparr>)), Some wk)"
  by (simp add: set_entry_done_def)

lemma run_set_code_done [simp]:
  "run_proc X (set_code_done h) (Some wk) =
     (Some (Inr (set_code_json \<lparr> sco_ok = True, sco_hash = hex_lower h,
                                 sco_latest_ledger = ledger_sequence (wk_env wk) \<rparr>)), Some wk)"
  by (simp add: set_code_done_def)

lemma run_set_balance_done [simp]:
  "run_proc X (set_balance_done n) wk = (Some (Inr (set_balance_json \<lparr> sb_ok = True, sb_latest_ledger = n \<rparr>)), wk)"
  by (simp add: set_balance_done_def)

text \<open>A known entry is what \<open>getLedgerEntries\<close> reports, with no change to the worker.\<close>

lemma get_ledger_entries_known:
  assumes "fork_known X (wk_env wk) k = Some (Some (e, lu))" "decode_keys X 0 [raw] = Inr [k]"
  shows "run_proc X (handle_get_ledger_entries X (JObject [(''keys'', JArray [JString raw])])) (Some wk)
    = (Some (res_bind (ledger_entry_item_of X (k, e, lu))
         (\<lambda>item. Inr (get_ledger_entries_json
            \<lparr> ger_entries = [item], ger_latest_ledger = ledger_sequence (wk_env wk) \<rparr>))), Some wk)"
proof -
  have "dec_get_ledger_entries_params (JObject [(''keys'', JArray [JString raw])]) = Some [raw]"
    using dec_get_ledger_entries_object [of "[raw]"] by simp
  with assms(2) fork_get_known [OF assms(1)] show ?thesis
    by (simp add: handle_get_ledger_entries_def flatten_options_def del: decode_keys.simps split: sum.splits)
qed

section \<open>Read-modify-write of a balance\<close>

text \<open>The balance of an entry, and the entry with its balance and its last-modified ledger forgotten.\<close>

fun entry_balance :: "ledger_entry_data \<Rightarrow> i64 option" where
  "entry_balance (DataAccount a) = Some (ae_balance a)"
| "entry_balance (DataTrustline line) = Some (tl_balance line)"
| "entry_balance _ = None"

fun without_balance :: "ledger_entry_data \<Rightarrow> ledger_entry_data" where
  "without_balance (DataAccount a) = DataAccount (a\<lparr>ae_balance := 0\<rparr>)"
| "without_balance (DataTrustline line) = DataTrustline (line\<lparr>tl_balance := 0\<rparr>)"
| "without_balance d = d"

lemma balance_entry_spec:
  assumes "balance_entry X asset a amount latest existing tla = Inr e"
  shows "entry_balance (le_data e) = Some amount \<and> le_last_modified e = latest
    \<and> (\<forall>e0. existing = Some e0 \<longrightarrow> without_balance (le_data e) = without_balance (le_data e0) \<and> le_ext e = le_ext e0)
    \<and> (existing = None \<longrightarrow> e = (case asset of ClassicNative \<Rightarrow> new_account a amount latest
         | ClassicCredit _ _ \<Rightarrow> new_trustline a (the tla) amount latest))"
  using assms
  by (auto simp: balance_entry_def new_account_def new_trustline_def
      split: classic_asset.splits option.splits ledger_entry_data.splits)

lemma sint_amount:
  assumes "parse_signed 64 s = Inr n"
  shows "sint (word_of_int n :: i64) = n"
  using parse_signed_range [OF assms] by (intro sint_of_int_i64) simp_all



section \<open>Writing storage and code\<close>



section \<open>The token path\<close>

text \<open>What a process sends and answers when these replies come back, one for each command.\<close>

fun talk :: "proc \<Rightarrow> reply list \<Rightarrow> command list \<times> (json_rpc_error + json) option" where
  "talk (Finish r) rs = ([], Some r)"
| "talk HandlerPanic rs = ([], None)"
| "talk (Ask c k) [] = ([c], None)"
| "talk (Ask c k) (r # rs) = (let (cs, out) = talk (k r) rs in (c # cs, out))"

lemma i128_to_scval_val: "i128_to_scval n = i128_val n"
  unfolding i128_to_scval_def i128_val_def
proof -
  have m: "(0xFFFFFFFFFFFFFFFF :: i128) = mask 64" by (simp add: mask_eq_exp_minus_1)
  have "ucast (n AND 0xFFFFFFFFFFFFFFFF) = (ucast n :: u64)"
    unfolding m by (rule bit_word_eqI) (simp add: bit_simps)
  moreover have "ucast (signed_drop_bit 64 n) = (ucast (drop_bit 64 n) :: i64)"
    by (rule bit_word_eqI) (simp add: bit_simps)
  ultimately show "ScI128 (ucast (signed_drop_bit 64 n)) (ucast (n AND 0xFFFFFFFFFFFFFFFF))
      = ScI128 (ucast (drop_bit 64 n)) (ucast n)" by simp
qed


text \<open>The subtraction itself is not guarded: a token that reports a negative balance can make it panic.\<close>

lemma set_token_balance_panics:
  assumes "overflow_checks X" "parse_signed 128 s = Inr n" "0 \<le> n" "parse_strkey_contract X c = Inr b"
    "sim_result sim = Inr (i128_val (word_of_int cur))" "- (2 ^ 127) \<le> cur" "2 ^ 127 \<le> n - cur"
  shows "\<exists>command. \<exists>k. handle_set_token_balance X a s c = Ask command k \<and> k (ReplySimulation sim) = HandlerPanic"
proof -
  have n: "n < 2 ^ 127" using parse_signed_range [OF assms(2)] by simp
  have "sint (word_of_int n :: i128) = n" "sint (word_of_int cur :: i128) = cur"
    using n assms(3,6,7) by (intro sint_of_int_i128; simp)+
  then have "sub_i128 X (word_of_int n) (word_of_int cur) = None"
    using assms(1,7) by (simp add: sub_i128_def)
  moreover have "balance_value X (sim_result sim) = Inr (word_of_int cur)"
    using assms(5) val_i128_val [of "word_of_int cur"] by (simp add: balance_value_def i128_val_def)
  ultimately show ?thesis
    using assms(2-4) by (simp add: handle_set_token_balance_def decode_contract_def ask_defs Let_def)
qed

section \<open>At a concrete input\<close>

text \<open>A library that encodes three entries, and a fork that knows the first.\<close>

definition three_lib :: "ledger_entry \<Rightarrow> ledger_entry \<Rightarrow> ledger_entry \<Rightarrow> ext_lib" where
  "three_lib a b c = serve_lib
     \<lparr>entry_to_xdr := (\<lambda>e. if e = a then Inr [0] else if e = b then Inr [1] else if e = c then Inr [2]
                            else Inl ''unsupported''),
      entry_from_xdr := (\<lambda>bs. if bs = [0] then Inr a else if bs = [1] then Inr b else if bs = [2] then Inr c
                              else Inl ''unsupported''),
      scval_from_xdr := (\<lambda>bs. Inr (ScOther bs)),
      envelope_to_xdr := (\<lambda>_. Inr []),
      parse_strkey_contract := (\<lambda>s. Inr (bytes_of_str s))\<rparr>"

definition three_worker :: "ledger_key \<Rightarrow> worker" where
  "three_worker k = sample_worker\<lparr>wk_env := sample_fork\<lparr>fk_source := sample_source\<lparr>src_cache := [(k, Some ([0], None))]\<rparr>\<rparr>\<rparr>"

lemma three_codec: "entry_codec_ok (three_lib a b c)"
  by (auto simp: entry_codec_ok_def three_lib_def)

lemma three_encode:
  "encode_entry (three_lib a b c) e =
     (if e = a then Some [0] else if e = b then Some [1] else if e = c then Some [2] else None)"
  by (simp add: encode_entry_def three_lib_def)

lemma three_ok: "fork_ok (three_lib a b c) (wk_env (three_worker k))"
  using three_codec by (simp add: fork_ok_def source_ok_def cache_decodes_def three_worker_def decode_entry_def)
    (simp add: three_lib_def)

lemma three_known: "fork_known (three_lib a b c) (wk_env (three_worker k)) k = Some (Some (a, None))"
  by (simp add: fork_known_def known_def three_worker_def decode_entry_def) (simp add: three_lib_def)

definition sample_balance :: "i64 \<Rightarrow> ledger_entry" where
  "sample_balance n = \<lparr> le_last_modified = 100, le_data = DataAccount ((sample_account [3] 5)\<lparr>ae_balance := n\<rparr>),
                        le_ext = ExtV0 \<rparr>"


text \<open>A contract instance before and after an etch, and its new code.\<close>

definition etch_wasm :: bytes where "etch_wasm = bytes_of_str ''AA''"

definition etch_hash :: hash where "etch_hash = take 32 (etch_wasm @ replicate 32 0)"

definition etch_lib :: ext_lib where
  "etch_lib = three_lib (instance_entry (AddrContract (bytes_of_str ''C'')) [1] (Some []))
     (instance_entry (AddrContract (bytes_of_str ''C'')) etch_hash (Some []))
     \<lparr> le_last_modified = 0, le_data = DataContractCode \<lparr> cc_ext = ExtV0, cc_hash = etch_hash, cc_code = etch_wasm \<rparr>,
       le_ext = ExtV0 \<rparr>"

definition etch_worker :: worker where
  "etch_worker = three_worker (instance_key (AddrContract (bytes_of_str ''C'')))"

definition etch_request :: json where
  "etch_request = JObject [(''contract'', JString ''C''), (''wasm'', JString ''AA'')]"

lemma etch_lib_simps:
  "parse_strkey_contract etch_lib s = Inr (bytes_of_str s)" "b64_decode etch_lib s = Inr (bytes_of_str s)"
  "sha256 etch_lib etch_wasm = etch_hash"
  by (simp_all add: etch_lib_def three_lib_def serve_lib_def host_lib_def sample_lib_simps etch_hash_def)

lemma etch_params: "dec_etch_params etch_request = Some \<lparr> ep_contract = ''C'', ep_wasm = ''AA'', ep_live_until = None \<rparr>"
  by (simp add: dec_etch_params_def etch_request_def fld_defs)

lemma etch_runs:
  "\<exists>body wk'. run_proc etch_lib (handle_fork_etch etch_lib etch_request) (Some etch_worker) = (Some (Inr body), Some wk')"
proof -
  have code: "contract_code_of etch_hash etch_wasm = Inr \<lparr> le_last_modified = 0,
      le_data = DataContractCode \<lparr> cc_ext = ExtV0, cc_hash = etch_hash, cc_code = etch_wasm \<rparr>, le_ext = ExtV0 \<rparr>"
    by (simp add: contract_code_of_def etch_wasm_def)
  let ?k = "instance_key (AddrContract (bytes_of_str ''C''))"
  have ok: "fork_ok etch_lib (wk_env etch_worker)" unfolding etch_lib_def etch_worker_def by (rule three_ok)
  have before: "fork_known etch_lib (wk_env etch_worker) ?k
      = Some (Some (instance_entry (AddrContract (bytes_of_str ''C'')) [1] (Some []), None))"
    unfolding etch_lib_def etch_worker_def by (rule three_known)
  have enc: "\<exists>s'. set_entry etch_lib k e lu s = Some s'"
    if "e = instance_entry (AddrContract (bytes_of_str ''C'')) etch_hash (Some [])
      \<or> e = \<lparr> le_last_modified = 0, le_data = DataContractCode \<lparr> cc_ext = ExtV0, cc_hash = etch_hash, cc_code = etch_wasm \<rparr>,
             le_ext = ExtV0 \<rparr>" for k e lu s
    using that by (auto simp: set_entry_def etch_lib_def three_encode)
  let ?code = "\<lparr> le_last_modified = 0,
      le_data = DataContractCode \<lparr> cc_ext = ExtV0, cc_hash = etch_hash, cc_code = etch_wasm \<rparr>, le_ext = ExtV0 \<rparr>"
  obtain s1 where s1: "set_entry etch_lib (KeyContractCode etch_hash) ?code None (fk_source (wk_env etch_worker)) = Some s1"
    using enc by blast
  have "fork_known etch_lib ((wk_env etch_worker)\<lparr>fk_source := s1\<rparr>) ?k
      = Some (Some (instance_entry (AddrContract (bytes_of_str ''C'')) [1] (Some []), None))"
    using set_fork(2) [OF ok s1] before by (simp add: instance_key_def)
  note get = fork_get_known [OF this]
  obtain s2 where s2: "set_entry etch_lib ?k (instance_entry (AddrContract (bytes_of_str ''C'')) etch_hash (Some [])) None s1
      = Some s2"
    using enc by blast
  have st: "preserved_storage etch_lib (Some (?k, instance_entry (AddrContract (bytes_of_str ''C'')) [1] (Some []), None))
      = Inr (Some [])"
    by (simp add: preserved_storage_def instance_entry_def contract_data_of_def)
  show ?thesis
    by (simp add: handle_fork_etch_def etch_params decode_contract_def decode_b64_def etch_lib_simps
        etch_wasm_def [symmetric] code Let_def s1 get first_entry_def st s2)
qed


definition storage_request :: json where
  "storage_request = JObject [(''contract'', JString ''C''), (''key'', JString ''k''), (''value'', JString ''v'')]"

definition storage_lib :: ext_lib where
  "storage_lib = (let e = contract_data_of (AddrContract (bytes_of_str ''C'')) (ScOther (bytes_of_str ''k'')) Persistent
                            (ScOther (bytes_of_str ''v'')) in three_lib e e e)"


definition sample_simulation :: simulation_reply where
  "sample_simulation =
     \<lparr> sim_result = Inr (i128_val 5), sim_auth = [], sim_resources = empty_soroban_resources, sim_contract_events = [],
       sim_diagnostic_events = [], sim_latest_ledger = 100, sim_min_resource_fee = None, sim_mem_bytes = None \<rparr>"



end
