(* ===== verification/Dispatch.thy ===== *)
theory Dispatch
  imports ForkMethods
begin

text \<open>
  \<open>dispatch\<close> and \<open>jsonrpc_handler\<close> of \<open>src/server/handlers.rs\<close>: the one POST route, from a decoded
  JSON-RPC envelope to the HTTP status and body.
\<close>

record http_response =
  ht_status :: nat
  ht_body :: json

definition dispatch :: "ext_lib \<Rightarrow> json_rpc_request \<Rightarrow> proc" where
  "dispatch X req =
     (let m = jr_method req; params = jr_params req in
      if m = ''getHealth'' then handle_get_health
      else if m = ''getVersionInfo'' then handle_get_version_info
      else if m = ''getNetwork'' then handle_get_network
      else if m = ''getLatestLedger'' then handle_get_latest_ledger
      else if m = ''getLedgers'' then handle_get_ledgers X params
      else if m = ''getLedgerEntries'' then handle_get_ledger_entries X params
      else if m = ''simulateTransaction'' then handle_simulate_transaction X params
      else if m = ''sendTransaction'' then handle_send_transaction X params
      else if m = ''getTransaction'' then handle_get_transaction X params
      else if m = ''fork_setLedgerEntry'' then handle_fork_set_ledger_entry X params
      else if m = ''fork_setStorage'' then handle_fork_set_storage X params
      else if m = ''fork_setCode'' then handle_fork_set_code X params
      else if m = ''fork_setBalance'' then handle_fork_set_balance X params
      else if m = ''fork_etch'' then handle_fork_etch X params
      else if m = ''fork_closeLedgers'' then handle_fork_close_ledgers X params
      else Finish (Inl (method_not_found m)))"

text \<open>The two halves of the handler: what it does with an envelope, and with an answer.\<close>

definition unsupported_version :: "json_rpc_request \<Rightarrow> http_response" where
  "unsupported_version req =
     \<lparr> ht_status = 400,
       ht_body = JObject [(''error'', JString (''unsupported jsonrpc version: '' @ jr_jsonrpc req))] \<rparr>"

definition wrap_response :: "json \<Rightarrow> json_rpc_error + json \<Rightarrow> http_response" where
  "wrap_response rid r =
     \<lparr> ht_status = 200,
       ht_body = response_json (case r of Inr v \<Rightarrow> response_ok rid v | Inl e \<Rightarrow> response_err rid e) \<rparr>"

definition jsonrpc_handler ::
  "ext_lib \<Rightarrow> json_rpc_request \<Rightarrow> worker option \<Rightarrow> http_response option \<times> worker option" where
  "jsonrpc_handler X req wk =
     (if jr_jsonrpc req \<noteq> ''2.0'' then (Some (unsupported_version req), wk)
      else (case run_proc X (dispatch X req) wk of
              (None, wk') \<Rightarrow> (None, wk')
            | (Some r, wk') \<Rightarrow> (Some (wrap_response (jr_id req) r), wk')))"

section \<open>Lemmas\<close>

definition read_methods :: "string list" where
  "read_methods = [''getHealth'', ''getVersionInfo'', ''getNetwork'', ''getLatestLedger'', ''getLedgers'',
                   ''getLedgerEntries'', ''simulateTransaction'', ''getTransaction'']"

lemma dispatch_reading: "jr_method req \<in> set read_methods \<Longrightarrow> proc_all reading res_ok (dispatch X req)"
  by (auto simp: read_methods_def dispatch_def Let_def read_handlers)

lemma dispatch_all:
  assumes "overflow_checks X \<longrightarrow> jr_method req \<noteq> ''fork_setBalance''"
  shows "proc_all (\<lambda>_. True) res_ok (dispatch X req)"
proof -
  have r: "proc_all reading res_ok p \<Longrightarrow> proc_all (\<lambda>_. True) res_ok p" for p
    by (erule proc_all_mono) simp
  show ?thesis
    using assms set_balance_all [of X "jr_params req"]
    by (auto simp: dispatch_def Let_def r read_handlers send_handler fork_handlers)
qed

lemma worker_step_reads:
  assumes "worker_step X c wk = Some (r, wk')" "reading c" "fork_ok X (wk_env wk)"
  shows "reads X (wk_env wk) (wk_env wk') \<and> wk_receipts wk' = wk_receipts wk \<and> wk_clock wk' = wk_clock wk"
proof (cases c)
  case (CmdGetLedgerEntries keys)
  with assms show ?thesis by (auto dest!: resolve_ledger_entries_reads split: option.splits)
next
  case (CmdSimulateTransaction hf a n)
  with assms show ?thesis by (auto dest!: simulate_transaction_reads split: option.splits)
qed (use assms in \<open>auto simp: reads_refl\<close>)

lemma worker_loop_reads:
  "worker_loop X cs wk = Some (rs, wk') \<Longrightarrow> list_all reading cs \<Longrightarrow> fork_ok X (wk_env wk) \<Longrightarrow>
     reads X (wk_env wk) (wk_env wk') \<and> wk_receipts wk' = wk_receipts wk \<and> wk_clock wk' = wk_clock wk"
proof (induction X cs wk arbitrary: rs rule: worker_loop.induct)
  case (2 X c cs wk)
  then obtain r wk1 rs1 where s: "worker_step X c wk = Some (r, wk1)"
    and l: "worker_loop X cs wk1 = Some (rs1, wk')"
    by (auto split: option.splits)
  have r1: "reads X (wk_env wk) (wk_env wk1) \<and> wk_receipts wk1 = wk_receipts wk \<and> wk_clock wk1 = wk_clock wk"
    using worker_step_reads [OF s] "2.prems" by simp
  then have "fork_ok X (wk_env wk1)" by (simp add: reads_def)
  with "2.IH" [OF s refl l] "2.prems"(2) r1 show ?case by (auto intro: reads_trans)
qed (simp add: reads_refl)

section \<open>Properties\<close>

text \<open>
  C7: Every request is answered, whatever the worker does and even when it is gone. A request of
  another JSON-RPC version gets HTTP 400; any other gets HTTP 200 with the id of the request and
  either a result or an error with one of the three codes of JSON-RPC, never both. The one
  exception is \<open>fork_setBalance\<close> in a build with overflow checks, whose subtraction may panic.
\<close>

theorem every_request_answered:
  assumes "overflow_checks X \<longrightarrow> jr_method req \<noteq> ''fork_setBalance''"
  shows "\<exists>resp wk'. jsonrpc_handler X req wk = (Some resp, wk')
    \<and> (jr_jsonrpc req \<noteq> ''2.0'' \<longrightarrow> ht_status resp = 400 \<and> wk' = wk)
    \<and> (jr_jsonrpc req = ''2.0'' \<longrightarrow> ht_status resp = 200
        \<and> json_index (ht_body resp) ''id'' = jr_id req
        \<and> ((\<exists>v. ht_body resp = JObject [(''jsonrpc'', JString ''2.0''), (''id'', jr_id req), (''result'', v)])
         \<or> (\<exists>e. ht_body resp = JObject [(''jsonrpc'', JString ''2.0''), (''id'', jr_id req), (''error'', error_json e)]
              \<and> je_code e \<in> {- 32601, - 32602, - 32603})))"
proof -
  obtain r wk' where run: "run_proc X (dispatch X req) wk = (Some r, wk')" and r: "res_ok r"
    using run_proc_answers [OF dispatch_all [OF assms]] by blast
  show ?thesis
  proof (cases "jr_jsonrpc req = ''2.0''")
    case True
    with run r show ?thesis
      by (cases r) (auto simp: jsonrpc_handler_def wrap_response_def response_json_ok response_json_err err_ok_def)
  qed (simp add: jsonrpc_handler_def unsupported_version_def)
qed

text \<open>
  C23: The eight read methods read: when one has been answered and the worker is still there, the
  fork's clock, its constants, the receipts and everything that was known of the ledger are as
  they were.
\<close>

theorem read_methods_read:
  assumes "jr_method req \<in> set read_methods" "fork_ok X (wk_env wk)"
    "jsonrpc_handler X req (Some wk) = (resp, Some wk')"
  shows "knows_more X (wk_env wk) (wk_env wk') \<and> fork_same (wk_env wk) (wk_env wk')
    \<and> wk_receipts wk' = wk_receipts wk"
proof (cases "jr_jsonrpc req = ''2.0''")
  case True
  with assms(3) obtain r where run: "run_proc X (dispatch X req) (Some wk) = (r, Some wk')"
    by (auto simp: jsonrpc_handler_def split: prod.splits option.splits)
  obtain cs rs where "worker_loop X cs wk = Some (rs, wk')" "list_all reading cs"
    using run_proc_loop [OF run dispatch_reading [OF assms(1)]] by blast
  from worker_loop_reads [OF this assms(2)] show ?thesis by (simp add: reads_def)
qed (use assms(3) in \<open>simp add: jsonrpc_handler_def\<close>)

section \<open>At a concrete input\<close>

definition sample_request :: "string \<Rightarrow> json_rpc_request" where
  "sample_request m = \<lparr> jr_jsonrpc = ''2.0'', jr_id = JString ''7'', jr_method = m, jr_params = JNull \<rparr>"

theorem every_request_answered_witness:
  "\<exists>resp wk'. jsonrpc_handler serve_lib (sample_request ''fork_etch'') None = (Some resp, wk')
     \<and> ht_status resp = 200 \<and> json_index (ht_body resp) ''id'' = JString ''7''"
proof -
  have "overflow_checks serve_lib \<longrightarrow> jr_method (sample_request ''fork_etch'') \<noteq> ''fork_setBalance''"
    by (simp add: sample_request_def)
  from every_request_answered [OF this, of None] show ?thesis by (auto simp: sample_request_def)
qed

theorem read_methods_read_witness:
  "\<exists>resp wk'. jsonrpc_handler serve_lib (sample_request ''getLedgers'') (Some sample_worker) = (resp, Some wk')
     \<and> wk_receipts wk' = wk_receipts sample_worker"
proof -
  have run: "\<exists>resp wk'. jsonrpc_handler serve_lib (sample_request ''getLedgers'') (Some sample_worker) = (resp, Some wk')"
    by (simp add: jsonrpc_handler_def sample_request_def dispatch_def handle_get_ledgers_def Let_def)
  have m: "jr_method (sample_request ''getLedgers'') \<in> set read_methods"
    by (simp add: sample_request_def read_methods_def)
  have ok: "fork_ok serve_lib (wk_env sample_worker)"
    using serve_fork_alive by (simp add: fork_alive_def)
  from run read_methods_read [OF m ok] show ?thesis by blast
qed


end
