(* ===== verification/Server.thy ===== *)
theory Server
  imports Dispatch
begin

text \<open>
  The server as a whole, \<open>src/server/mod.rs\<close> and the channel of \<open>src/server/actor.rs\<close>: how it
  starts, and what it does once it runs. Requests are in flight at the same time; the bounded
  channel hands their commands to the one worker thread in some order, one at a time. A step of
  \<open>server_step\<close> is one request accepted, one command executed, or one response sent.
\<close>

section \<open>Starting\<close>

datatype serve_error =
    ServeFork fork_error
  | ServeIo string
  | ServeWorkerAborted

fun show_serve_error :: "serve_error \<Rightarrow> string" where
  "show_serve_error (ServeFork e) = ''fork build failed: '' @ show_fork_error e"
| "show_serve_error (ServeIo e) = ''listener I/O error: '' @ e"
| "show_serve_error ServeWorkerAborted = ''worker thread aborted before reporting build status''"

record server_builder =
  sb_config :: fork_config
  sb_listen :: "string option"

definition server_builder_of :: "fork_config \<Rightarrow> server_builder" where
  "server_builder_of config = \<lparr> sb_config = config, sb_listen = None \<rparr>"

definition listen :: "string \<Rightarrow> server_builder \<Rightarrow> server_builder" where
  "listen addr b = b\<lparr>sb_listen := Some addr\<rparr>"

record logged =
  lg_request :: nat
  lg_command :: command
  lg_reply :: reply

record server_state =
  sv_worker :: "worker option"
  sv_open :: bool                                \<comment> \<open>no shutdown signal so far\<close>
  sv_next :: nat                                 \<comment> \<open>the number of the next request\<close>
  sv_flight :: "nat \<Rightarrow> (json \<times> proc) option"     \<comment> \<open>requests in flight: the id and what is left to do\<close>
  sv_log :: "logged list"                        \<comment> \<open>the commands executed, the latest first\<close>
  sv_answers :: "(nat \<times> http_response) list"

definition server_running :: "worker \<Rightarrow> server_state" where
  "server_running wk =
     \<lparr> sv_worker = Some wk, sv_open = True, sv_next = 0, sv_flight = (\<lambda>_. None), sv_log = [], sv_answers = [] \<rparr>"

text \<open>\<open>ServerBuilder::start\<close>: \<open>bind\<close> is \<open>TcpListener::bind\<close> with \<open>local_addr\<close>, the address it got.\<close>

definition start ::
  "ext_lib \<Rightarrow> (bool \<Rightarrow> string option) \<Rightarrow> snapshot_io \<Rightarrow> (string \<Rightarrow> string + string) \<Rightarrow> server_builder \<Rightarrow> fs
    \<Rightarrow> rpc_world \<Rightarrow> serve_error + string \<times> server_state" where
  "start X set_diag IO bind b files w =
     (case spawn X set_diag IO (sb_config b) files w of
        None \<Rightarrow> Inl ServeWorkerAborted
      | Some (Inl e) \<Rightarrow> Inl (ServeFork e)
      | Some (Inr wk) \<Rightarrow>
          (case bind (unwrap_or ''127.0.0.1:8000'' (sb_listen b)) of
             Inl e \<Rightarrow> Inl (ServeIo e)
           | Inr local_addr \<Rightarrow> Inr (local_addr, server_running wk)))"

text \<open>\<open>shutdown\<close> and \<open>run_until_signal\<close> wait for the serve task: a join error, or the task's own
  result.\<close>

definition join_server :: "string + (string + unit) \<Rightarrow> serve_error + unit" where
  "join_server joined =
     res_bind (map_err ServeIo joined) (\<lambda>served. map_err ServeIo served)"

section \<open>Running\<close>

inductive server_step :: "ext_lib \<Rightarrow> server_state \<Rightarrow> server_state \<Rightarrow> bool" for X where
  accept:
    "sv_open s \<Longrightarrow> dec_json_rpc_request body = Some req \<Longrightarrow> jr_jsonrpc req = ''2.0'' \<Longrightarrow>
     server_step X s (s\<lparr>sv_next := Suc (sv_next s),
                        sv_flight := (sv_flight s)(sv_next s \<mapsto> (jr_id req, dispatch X req))\<rparr>)"
| reject:
    "sv_open s \<Longrightarrow> dec_json_rpc_request body = Some req \<Longrightarrow> jr_jsonrpc req \<noteq> ''2.0'' \<Longrightarrow>
     server_step X s (s\<lparr>sv_next := Suc (sv_next s),
                        sv_answers := (sv_next s, unsupported_version req) # sv_answers s\<rparr>)"
| command:
    "sv_flight s n = Some (rid, Ask c k) \<Longrightarrow> actor_send X c (sv_worker s) = (Inr r, wk') \<Longrightarrow>
     server_step X s (s\<lparr>sv_worker := wk', sv_flight := (sv_flight s)(n \<mapsto> (rid, k r)),
                        sv_log := \<lparr> lg_request = n, lg_command = c, lg_reply = r \<rparr> # sv_log s\<rparr>)"
| gone:
    "sv_flight s n = Some (rid, Ask c k) \<Longrightarrow> actor_send X c (sv_worker s) = (Inl e, wk') \<Longrightarrow>
     server_step X s (s\<lparr>sv_worker := wk',
                        sv_flight := (sv_flight s)(n \<mapsto> (rid, Finish (Inl (internal_error (show_actor_error e)))))\<rparr>)"
| answer:
    "sv_flight s n = Some (rid, Finish r) \<Longrightarrow>
     server_step X s (s\<lparr>sv_flight := (sv_flight s)(n := None),
                        sv_answers := (n, wrap_response rid r) # sv_answers s\<rparr>)"
| crash:
    "sv_flight s n = Some (rid, HandlerPanic) \<Longrightarrow>
     server_step X s (s\<lparr>sv_flight := (sv_flight s)(n := None)\<rparr>)"
| shutdown:
    "sv_open s \<Longrightarrow> server_step X s (s\<lparr>sv_open := False\<rparr>)"

inductive server_reaches :: "ext_lib \<Rightarrow> server_state \<Rightarrow> server_state \<Rightarrow> bool" for X where
  server_refl: "server_reaches X s s"
| server_next: "server_reaches X s s1 \<Longrightarrow> server_step X s1 s2 \<Longrightarrow> server_reaches X s s2"

inductive_cases server_stepE: "server_step X s s'"

section \<open>Lemmas\<close>

text \<open>The commands executed, in order, and the commands of one request.\<close>

definition executed :: "server_state \<Rightarrow> command list" where
  "executed s = rev (map lg_command (sv_log s))"

definition commands_of :: "nat \<Rightarrow> server_state \<Rightarrow> nat" where
  "commands_of n s = length (filter (\<lambda>l. lg_request l = n) (sv_log s))"

lemma actor_send_Inr:
  assumes "actor_send X c w = (Inr r, w')"
  obtains wk wk' where "w = Some wk" "w' = Some wk'" "worker_step X c wk = Some (r, wk')"
  using assms by (cases w) (auto split: option.splits)

lemma actor_send_Inl: "actor_send X c w = (Inl e, w') \<Longrightarrow> w' = None"
  by (cases w) (auto split: option.splits)

lemma actor_send_total: "\<exists>out w'. actor_send X c w = (out, w')"
  by (cases "actor_send X c w") blast

text \<open>Interleaving does not matter to the worker: it has run the executed commands one by one.\<close>

definition linear :: "ext_lib \<Rightarrow> worker \<Rightarrow> server_state \<Rightarrow> bool" where
  "linear X wk0 s \<longleftrightarrow>
     (\<forall>wk. sv_worker s = Some wk \<longrightarrow> worker_loop X (executed s) wk0 = Some (rev (map lg_reply (sv_log s)), wk))"

lemma worker_loop_snoc:
  "worker_loop X cs wk = Some (rs, wk1) \<Longrightarrow> worker_step X c wk1 = Some (r, wk2) \<Longrightarrow>
     worker_loop X (cs @ [c]) wk = Some (rs @ [r], wk2)"
  by (simp add: worker_loop_append)

lemma linear_step: "server_step X s s' \<Longrightarrow> linear X wk0 s \<Longrightarrow> linear X wk0 s'"
proof (induction rule: server_step.induct)
  case (command s n rid c k r wk')
  from command.hyps(2) obtain wk wk1 where "sv_worker s = Some wk" "wk' = Some wk1" "worker_step X c wk = Some (r, wk1)"
    by (rule actor_send_Inr)
  with command.prems show ?case by (auto simp: linear_def executed_def intro: worker_loop_snoc)
next
  case (gone s n rid c k e wk')
  then show ?case by (auto simp: linear_def dest: actor_send_Inl)
qed (auto simp: linear_def executed_def)

lemma linear_reaches: "server_reaches X s s' \<Longrightarrow> linear X wk0 s \<Longrightarrow> linear X wk0 s'"
  by (induction rule: server_reaches.induct) (auto intro: linear_step)

lemma linear_running: "linear X wk (server_running wk)"
  by (simp add: linear_def server_running_def executed_def)

text \<open>No handler sends more than four commands.\<close>

primrec at_most :: "proc \<Rightarrow> nat \<Rightarrow> bool" where
  "at_most (Finish r) n = True"
| "at_most HandlerPanic n = True"
| "at_most (Ask c k) n = (n > 0 \<and> (\<forall>r. at_most (k r) (n - 1)))"

lemma at_most_try [simp]: "at_most (try_res r k) n = (\<forall>a. r = Inr a \<longrightarrow> at_most (k a) n)"
  by (cases r) simp_all

lemma at_most_ask [simp]:
  "at_most (ask_network kn) m = (m > 0 \<and> (\<forall>n. at_most (kn n) (m - 1)))"
  "at_most (ask_latest kl) m = (m > 0 \<and> (\<forall>l. at_most (kl l) (m - 1)))"
  "at_most (ask_page kp) m = (m > 0 \<and> (\<forall>p. at_most (kp p) (m - 1)))"
  "at_most (ask_entries keys ke) m = (m > 0 \<and> (\<forall>es. at_most (ke es) (m - 1)))"
  "at_most (ask_simulate hf a sz ks) m = (m > 0 \<and> (\<forall>r. at_most (ks r) (m - 1)))"
  "at_most (ask_send e hf a kd) m = (m > 0 \<and> (\<forall>r. at_most (kd r) (m - 1)))"
  "at_most (ask_set key entry lu p) m = (m > 0 \<and> at_most p (m - 1))"
  "at_most (ask_close n sec kc) m = (m > 0 \<and> (\<forall>c. at_most (kc c) (m - 1)))"
  "at_most (ask_receipt h kt) m = (m > 0 \<and> (\<forall>t. at_most (kt t) (m - 1)))"
  by (auto simp: ask_defs all_reply)

lemma at_most_done [simp]:
  "at_most set_entry_done m = (m > 0)" "at_most (set_code_done h) m = (m > 0)" "at_most (set_balance_done n) m"
  by (simp_all add: set_entry_done_def set_code_done_def set_balance_done_def)

lemma at_most_set_balance: "at_most (handle_fork_set_balance X params) 4"
  by (auto simp: handle_fork_set_balance_def handle_set_token_balance_def set_classic_balance_def send_delta_def Let_def
      split: asset_wire.splits option.splits sum.splits)

lemma at_most_dispatch: "at_most (dispatch X req) 4"
  by (auto simp: dispatch_def Let_def at_most_set_balance handlers split: sum.splits)

text \<open>What holds of the requests in flight: a request that has sent \<open>i\<close> commands has at most
  \<open>4 - i\<close> left, and a number not yet given out has sent none.\<close>

definition flight_ok :: "server_state \<Rightarrow> bool" where
  "flight_ok s \<longleftrightarrow>
     (\<forall>n rid p. sv_flight s n = Some (rid, p) \<longrightarrow> at_most p (4 - commands_of n s) \<and> n < sv_next s)
     \<and> (\<forall>n. commands_of n s \<le> 4) \<and> (\<forall>n. sv_next s \<le> n \<longrightarrow> commands_of n s = 0)"

lemma commands_of_simps [simp]:
  "commands_of n (s\<lparr>sv_flight := f\<rparr>) = commands_of n s" "commands_of n (s\<lparr>sv_next := m\<rparr>) = commands_of n s"
  "commands_of n (s\<lparr>sv_answers := a\<rparr>) = commands_of n s" "commands_of n (s\<lparr>sv_worker := w\<rparr>) = commands_of n s"
  "commands_of n (s\<lparr>sv_open := b\<rparr>) = commands_of n s"
  "commands_of n (s\<lparr>sv_log := l # sv_log s\<rparr>) = (if lg_request l = n then Suc (commands_of n s) else commands_of n s)"
  by (simp_all add: commands_of_def)

lemma flight_ok_step: "server_step X s s' \<Longrightarrow> flight_ok s \<Longrightarrow> flight_ok s'"
proof (induction rule: server_step.induct)
  case (accept s body req)
  then show ?case by (auto simp: flight_ok_def at_most_dispatch intro: less_SucI)
next
  case (command s n rid c k r wk')
  from command.prems command.hyps(1) have "at_most (Ask c k) (4 - commands_of n s)" "n < sv_next s"
    unfolding flight_ok_def by blast+
  then have "at_most (k r) (4 - Suc (commands_of n s))" "Suc (commands_of n s) \<le> 4" by auto
  with command.prems \<open>n < sv_next s\<close> show ?case
    by (auto simp: flight_ok_def commands_of_def)
qed (auto simp: flight_ok_def less_Suc_eq)

lemma flight_ok_reaches: "server_reaches X s s' \<Longrightarrow> flight_ok s \<Longrightarrow> flight_ok s'"
  by (induction rule: server_reaches.induct) (auto intro: flight_ok_step)

lemma flight_ok_running: "flight_ok (server_running wk)"
  by (simp add: flight_ok_def server_running_def commands_of_def)

text \<open>Each number given out is in flight or answered, not both, and answered once.\<close>

definition accounted :: "server_state \<Rightarrow> bool" where
  "accounted s \<longleftrightarrow>
     (\<forall>n rid p. sv_flight s n = Some (rid, p) \<longrightarrow> proc_all (\<lambda>_. True) res_ok p)
     \<and> distinct (map fst (sv_answers s))
     \<and> (\<forall>n. (n < sv_next s) = (sv_flight s n \<noteq> None \<or> n \<in> fst ` set (sv_answers s)))
     \<and> (\<forall>n. \<not> (sv_flight s n \<noteq> None \<and> n \<in> fst ` set (sv_answers s)))"

lemma dispatch_no_panic: "\<not> overflow_checks X \<Longrightarrow> proc_all (\<lambda>_. True) res_ok (dispatch X req)"
  by (rule dispatch_all) simp

lemma accounted_step: "server_step X s s' \<Longrightarrow> \<not> overflow_checks X \<Longrightarrow> accounted s \<Longrightarrow> accounted s'"
proof (induction rule: server_step.induct)
  case (accept s body req)
  have "sv_flight s (sv_next s) = None" "sv_next s \<notin> fst ` set (sv_answers s)"
    using accept.prems(2) unfolding accounted_def by blast+
  with accept.prems show ?case
    unfolding accounted_def by (auto simp: dispatch_no_panic less_Suc_eq)
next
  case (reject s body req)
  have "sv_flight s (sv_next s) = None" "sv_next s \<notin> fst ` set (sv_answers s)"
    using reject.prems(2) unfolding accounted_def by blast+
  with reject.prems show ?case
    unfolding accounted_def by (auto simp: less_Suc_eq) force
next
  case (command s n rid c k r wk')
  have "proc_all (\<lambda>_. True) res_ok (Ask c k)"
    using command.prems(2) command.hyps(1) unfolding accounted_def by blast
  moreover have "reply_for c r"
    using command.hyps(2) by (auto elim!: actor_send_Inr intro: wk.exec_reply)
  ultimately have p: "proc_all (\<lambda>_. True) res_ok (k r)" by simp
  have "n \<notin> fst ` set (sv_answers s)" using command.prems(2) command.hyps(1) unfolding accounted_def by blast
  then show ?case
    using command.prems(2) command.hyps(1) p unfolding accounted_def by auto
next
  case (gone s n rid c k e wk')
  have "n \<notin> fst ` set (sv_answers s)" using gone.prems(2) gone.hyps(1) unfolding accounted_def by blast
  with gone show ?case unfolding accounted_def by auto
next
  case (answer s n rid r)
  have "n \<notin> fst ` set (sv_answers s)" using answer.prems(2) answer.hyps unfolding accounted_def by blast
  then show ?case
    using answer.prems(2) answer.hyps unfolding accounted_def by auto
next
  case (crash s n rid)
  then have "proc_all (\<lambda>_. True) res_ok HandlerPanic" unfolding accounted_def by blast
  then show ?case by simp
qed (simp add: accounted_def)

lemma accounted_reaches:
  "server_reaches X s s' \<Longrightarrow> \<not> overflow_checks X \<Longrightarrow> accounted s \<Longrightarrow> accounted s'"
  by (induction rule: server_reaches.induct) (auto intro: accounted_step)

lemma accounted_running: "accounted (server_running wk)"
  by (simp add: accounted_def server_running_def)

text \<open>A receipt that a send was answered with is never lost.\<close>

lemma worker_loop_sent:
  "worker_loop X cs wk = Some (rs, wk') \<Longrightarrow> ReplySend sr \<in> set rs \<Longrightarrow> wk_receipts wk' (sr_hash sr) \<noteq> None"
proof (induction X cs wk arbitrary: rs rule: worker_loop.induct)
  case (2 X c cs wk)
  then obtain r wk1 rs1 where s: "worker_step X c wk = Some (r, wk1)"
    and l: "worker_loop X cs wk1 = Some (rs1, wk')" and rs: "rs = r # rs1"
    by (auto split: option.splits)
  show ?case
  proof (cases "r = ReplySend sr")
    case True
    then have "wk_receipts wk1 (sr_hash sr) \<noteq> None" using worker_step_receipts [OF s] by simp
    with wk.reaches_receipt [OF worker_loop_reaches [OF l]] show ?thesis .
  next
    case False
    with "2.prems"(2) rs have "ReplySend sr \<in> set rs1" by simp
    with "2.IH" [OF s refl l] show ?thesis .
  qed
qed simp

section \<open>Properties\<close>

text \<open>
  C5: However the commands of concurrent requests interleave, the worker has run exactly the
  commands executed so far, in that order, each answered as logged; and in that time the fork's
  network, protocol and provenance stayed what they were and its clock did not go back.
\<close>

theorem interleaving_linear:
  assumes "server_reaches X (server_running wk) s" "sv_worker s = Some wk'"
  shows "worker_loop X (executed s) wk = Some (rev (map lg_reply (sv_log s)), wk')
    \<and> fork_const (wk_env wk') = fork_const (wk_env wk)
    \<and> ledger_sequence (wk_env wk) \<le> ledger_sequence (wk_env wk')
    \<and> ledger_close_time (wk_env wk) \<le> ledger_close_time (wk_env wk')"
proof -
  have l: "worker_loop X (executed s) wk = Some (rev (map lg_reply (sv_log s)), wk')"
    using linear_reaches [OF assms(1) linear_running] assms(2) by (simp add: linear_def)
  note r = worker_loop_reaches [OF l]
  from l wk.reaches_const [OF r] wk.reaches_clock [OF r] show ?thesis by simp
qed

text \<open>
  Every request ends: it sends at most four commands, and while it is in flight there is a
  step that takes it further, by one command, to its answer, or out of flight.
\<close>

lemma requests_terminate:
  assumes "server_reaches X (server_running wk) s"
  shows "commands_of n s \<le> 4
    \<and> (sv_flight s n \<noteq> None \<longrightarrow>
        (\<exists>s'. server_step X s s' \<and> (commands_of n s' = Suc (commands_of n s)
           \<or> (\<exists>rid r. sv_flight s' n = Some (rid, Finish r)) \<or> sv_flight s' n = None)))"
proof (intro conjI impI)
  show "commands_of n s \<le> 4"
    using flight_ok_reaches [OF assms flight_ok_running] by (simp add: flight_ok_def)
next
  assume "sv_flight s n \<noteq> None"
  then obtain rid p where f: "sv_flight s n = Some (rid, p)" by auto
  show "\<exists>s'. server_step X s s' \<and> (commands_of n s' = Suc (commands_of n s)
           \<or> (\<exists>rid r. sv_flight s' n = Some (rid, Finish r)) \<or> sv_flight s' n = None)"
  proof (cases p)
    case (Finish r)
    from server_step.answer [OF f [unfolded Finish]] show ?thesis by fastforce
  next
    case HandlerPanic
    from server_step.crash [OF f [unfolded HandlerPanic]] show ?thesis by fastforce
  next
    case (Ask c k)
    obtain out w' where a: "actor_send X c (sv_worker s) = (out, w')" using actor_send_total by blast
    show ?thesis
    proof (cases out)
      case (Inl e)
      from server_step.gone [OF f [unfolded Ask] a [unfolded Inl]] show ?thesis by fastforce
    next
      case (Inr r)
      from server_step.command [OF f [unfolded Ask] a [unfolded Inr]] show ?thesis
        by (force simp: commands_of_def)
    qed
  qed
qed

text \<open>
  C25: In a build without overflow checks no request is lost: each one received is either in
  flight or answered, never both, and answered once, also while the server shuts down.
\<close>

theorem no_request_lost:
  assumes "\<not> overflow_checks X" "server_reaches X (server_running wk) s"
  shows "distinct (map fst (sv_answers s))
    \<and> (\<forall>n. (n < sv_next s) = (sv_flight s n \<noteq> None \<or> n \<in> fst ` set (sv_answers s)))
    \<and> (\<forall>n. \<not> (sv_flight s n \<noteq> None \<and> n \<in> fst ` set (sv_answers s)))"
  using accounted_reaches [OF assms(2,1) accounted_running] unfolding accounted_def by blast

text \<open>
  Once a send has been answered, its receipt is there for as long as the worker lives,
  whatever the other clients do.
\<close>

lemma receipt_survives:
  assumes "server_reaches X (server_running wk) s" "sv_worker s = Some wk'"
    "l \<in> set (sv_log s)" "lg_reply l = ReplySend sr"
  shows "wk_receipts wk' (sr_hash sr) \<noteq> None"
proof -
  have "worker_loop X (executed s) wk = Some (rev (map lg_reply (sv_log s)), wk')"
    using linear_reaches [OF assms(1) linear_running] assms(2) by (simp add: linear_def)
  then show ?thesis
    by (rule worker_loop_sent) (use assms(3,4) in force)
qed

section \<open>A lost update\<close>

text \<open>
  Two clients, one account: one sets its balance while the other sends a transaction from it.
  The account has sequence number 5; its entries in this run, by sequence number and balance.
\<close>

definition race_entry :: "i64 \<Rightarrow> i64 \<Rightarrow> ledger_entry" where
  "race_entry sequence balance =
     \<lparr> le_last_modified = 100, le_data = DataAccount ((sample_account [3] sequence)\<lparr>ae_balance := balance\<rparr>),
       le_ext = ExtV0 \<rparr>"

definition race_outcome :: host_outcome where
  "race_outcome =
     \<lparr> ho_result = Inr \<lparr> rr_invoke_result = Inr ScVoid, rr_auth = [], rr_resources = empty_soroban_resources,
                        rr_contract_events = [], rr_ledger_changes = [] \<rparr>,
       ho_diagnostic_events = [], ho_mem_bytes = None \<rparr>"

definition race_lib :: ext_lib where
  "race_lib = (three_lib (race_entry 5 1) (race_entry 6 1) (race_entry 5 7))
     \<lparr>parse_strkey_account := (\<lambda>_. Inr [3]), host_invoke := (\<lambda>_. HostDone race_outcome)\<rparr>"

definition race_worker :: worker where
  "race_worker = three_worker (KeyAccount [3])"

definition race_request :: "string \<Rightarrow> json \<Rightarrow> json" where
  "race_request name params =
     JObject [(''jsonrpc'', JString ''2.0''), (''id'', JNull), (''method'', JString name), (''params'', params)]"

definition balance_request :: json where
  "balance_request = race_request ''fork_setBalance'' (JObject [(''account'', JString ''G''), (''amount'', JString ''7'')])"

definition send_request :: json where
  "send_request = race_request ''sendTransaction'' serve_send_params"

text \<open>The sequence number the fork knows for an account.\<close>

definition known_seq :: "ext_lib \<Rightarrow> worker \<Rightarrow> account_id \<Rightarrow> int option" where
  "known_seq X wk a =
     (case fork_known X (wk_env wk) (KeyAccount a) of
        Some (Some (e, _)) \<Rightarrow> (case le_data e of DataAccount acc \<Rightarrow> Some (sint (ae_seq_num acc)) | _ \<Rightarrow> None)
      | _ \<Rightarrow> None)"

lemma race_neq: "race_entry a b = race_entry c d \<longleftrightarrow> a = c \<and> b = d"
  by (auto simp: race_entry_def sample_account_def)

lemma race_lib_simps:
  "encode_entry race_lib e = (if e = race_entry 5 1 then Some [0] else if e = race_entry 6 1 then Some [1]
     else if e = race_entry 5 7 then Some [2] else None)"
  "entry_to_xdr race_lib e = (if e = race_entry 5 1 then Inr [0] else if e = race_entry 6 1 then Inr [1]
     else if e = race_entry 5 7 then Inr [2] else Inl ''unsupported'')"
  "entry_from_xdr race_lib [0] = Inr (race_entry 5 1)" "entry_from_xdr race_lib [1] = Inr (race_entry 6 1)"
  "entry_from_xdr race_lib [2] = Inr (race_entry 5 7)"
  "parse_strkey_account race_lib str = Inr [3]" "host_invoke race_lib rq = HostDone race_outcome"
  "b64_decode race_lib str = Inr (bytes_of_str str)"
  "envelope_from_xdr race_lib b = Inr (EnvTx \<lparr> v1_tx = serve_tx, v1_signatures = [b] \<rparr>)"
  by (simp_all add: race_lib_def encode_entry_def three_lib_def serve_lib_def host_lib_def sample_lib_simps)

definition race_source :: "bytes \<Rightarrow> source" where
  "race_source b = sample_source\<lparr>src_cache := [(KeyAccount [3], Some (b, None))]\<rparr>"

lemma race_worker_source: "wk_env race_worker = sample_fork\<lparr>fk_source := race_source [0]\<rparr>"
  by (simp add: race_worker_def three_worker_def race_source_def)

lemma race_known:
  "entry_from_xdr race_lib b = Inr e \<Longrightarrow>
     fork_known race_lib (fk\<lparr>fk_source := race_source b\<rparr>) (KeyAccount [3]) = Some (Some (e, None))"
  by (simp add: fork_known_def known_def race_source_def decode_entry_def)

lemma race_set: "encode_entry race_lib e = Some b \<Longrightarrow>
    set_entry race_lib (KeyAccount [3]) e None (race_source b0) = Some (race_source b)"
  by (simp add: set_entry_def race_source_def cache_insert_def)

lemma race_bump: "snd (bump_account_seq race_lib [3] (race_source [0])) = race_source [1]"
proof -
  have d: "le_data (race_entry 5 1) = DataAccount ((sample_account [3] 5)\<lparr>ae_balance := 1\<rparr>)"
    and q: "ae_seq_num (sample_account [3] 5) + 1 = 6"
    and e: "(race_entry 5 1)\<lparr>le_data := DataAccount ((sample_account [3] 5)\<lparr>ae_balance := 1, ae_seq_num := 6\<rparr>)\<rparr> = race_entry 6 1"
    by (simp_all add: race_entry_def sample_account_def)
  have s: "bt_get (src_cache (race_source [0])) (KeyAccount [3]) = Some (Some ([0], None))"
    by (simp add: race_source_def)
  have i: "cache_insert race_lib (KeyAccount [3]) (Some ([1], None)) (race_source [0]) = race_source [1]"
    by (simp add: race_source_def cache_insert_def)
  show ?thesis
    by (simp add: bump_account_seq_def s race_lib_simps(2,3) d q e i race_neq Let_def)
qed

lemma race_seq:
  "wk_env wk = sample_fork\<lparr>fk_source := race_source b\<rparr> \<Longrightarrow> entry_from_xdr race_lib b = Inr (race_entry q n) \<Longrightarrow>
     known_seq race_lib wk [3] = Some (sint q)"
  by (simp add: known_seq_def race_known) (simp add: race_entry_def sample_account_def)

lemma race_send:
  "\<exists>r. worker_step race_lib (CmdSendTransaction e (HfOther []) [3]) race_worker
       = Some (ReplySend r, race_worker\<lparr>wk_env := sample_fork\<lparr>fk_source := race_source [1]\<rparr>, wk_clock := 1,
                              wk_receipts := [sr_hash r \<mapsto> sr_receipt r]\<rparr>)
     \<and> rcpt_result (sr_receipt r) = Inr ScVoid"
proof -
  have "invoke_recording race_lib (wk_env race_worker) (HfOther []) [3] = Some (race_outcome, wk_env race_worker)"
    by (simp add: invoke_recording_def race_lib_simps)
  moreover have "apply_result race_lib race_outcome s = Some (Inr ScVoid, 0, s)" for s
    by (simp add: apply_result_def race_outcome_def host_error_def apply_changes_def Let_def)
  ultimately have "\<exists>r. send_transaction race_lib (wk_env race_worker) (wk_clock race_worker) e (HfOther []) [3]
      = Some (r, sample_fork\<lparr>fk_source := race_source [1]\<rparr>) \<and> rcpt_result (sr_receipt r) = Inr ScVoid"
    by (simp add: send_transaction_def Let_def race_bump race_worker_source)
  then show ?thesis
    by (auto simp: race_worker_def three_worker_def sample_worker_def worker_start_def)
qed

lemma race_balance_dispatch:
  assumes "dec_json_rpc_request balance_request = Some req"
  shows "dispatch race_lib req = set_classic_balance race_lib [3] ''7'' ClassicNative"
proof -
  have p: "dec_set_balance_params (JObject [(''account'', JString ''G''), (''amount'', JString ''7'')])
      = Some \<lparr> sbp_account = ''G'', sbp_amount = ''7'', sbp_asset = None \<rparr>"
    by (simp add: dec_set_balance_params_def fld_defs)
  from assms have "req = \<lparr> jr_jsonrpc = ''2.0'', jr_id = JNull, jr_method = ''fork_setBalance'',
      jr_params = JObject [(''account'', JString ''G''), (''amount'', JString ''7'')] \<rparr>"
    by (simp add: dec_json_rpc_request_def balance_request_def race_request_def fld_defs)
  with p show ?thesis
    by (simp add: dispatch_def Let_def handle_fork_set_balance_def decode_account_def race_lib_simps)
qed

lemma race_send_dispatch:
  assumes "dec_json_rpc_request send_request = Some req"
  shows "\<exists>k. dispatch race_lib req = Ask (CmdSendTransaction (bytes_of_str ''AAAA'') (HfOther []) [3]) k"
proof -
  from assms have req: "req = \<lparr> jr_jsonrpc = ''2.0'', jr_id = JNull, jr_method = ''sendTransaction'',
      jr_params = serve_send_params \<rparr>"
    by (simp add: dec_json_rpc_request_def send_request_def race_request_def fld_defs)
  have env: "decode_envelope race_lib ''AAAA''
      = Inr (bytes_of_str ''AAAA'', EnvTx \<lparr> v1_tx = serve_tx, v1_signatures = [bytes_of_str ''AAAA''] \<rparr>)"
    by (simp add: decode_envelope_def decode_b64_def decode_xdr_def race_lib_simps)
  have op: "extract_invoke_op race_lib (EnvTx \<lparr> v1_tx = serve_tx, v1_signatures = sigs \<rparr>) = Inr (HfOther [], [3])" for sigs
    by (simp add: extract_invoke_op_def serve_tx_def sample_tx_def muxed_account_id_def)
  show ?thesis
    by (simp add: req dispatch_def Let_def handle_send_transaction_def serve_send_params_def env op ask_send_def)
qed

lemma race_requests: "\<exists>req. dec_json_rpc_request balance_request = Some req \<and> jr_jsonrpc req = ''2.0''"
  "\<exists>req. dec_json_rpc_request send_request = Some req \<and> jr_jsonrpc req = ''2.0''"
  by (simp_all add: dec_json_rpc_request_def balance_request_def send_request_def race_request_def fld_defs)

text \<open>The process of the balance request: it reads, and then writes what it made of what it read.\<close>

lemma race_balance_process:
  "\<exists>k. set_classic_balance race_lib [3] ''7'' ClassicNative = Ask (CmdGetLedgerEntries [KeyAccount [3]]) k
     \<and> (\<exists>k2. k (ReplyLedgerEntries \<lparr> ler_entries = [Some (KeyAccount [3], race_entry 5 1, None)], ler_latest_ledger = 100 \<rparr>)
         = Ask (CmdSetLedgerEntry (KeyAccount [3]) (race_entry 5 7) None) k2)"
proof -
  have "show_int 7 = ''7''" by code_simp
  with parse_signed_show_int [of 64 7] have seven: "parse_signed 64 ''7'' = Inr 7" by simp
  have e: "balance_entry race_lib ClassicNative [3] 7 100 (Some (race_entry 5 1)) None = Inr (race_entry 5 7)"
    by (simp add: balance_entry_def race_entry_def)
  show ?thesis
    by (simp add: set_classic_balance_def seven classic_key_def ask_entries_def ask_set_def first_entry_def e)
qed

text \<open>
  C22: The read and the write of \<open>fork_setBalance\<close> are two commands, and a transaction sent between
  them is partly undone: there is a run of the server in which a successful send has moved the
  account's sequence number from 5 to 6, and the next step, the write of the balance request,
  sets it back to 5.
\<close>

theorem set_balance_loses_update:
  "\<exists>s1 s2 wk1 wk2 l r. server_reaches race_lib (server_running race_worker) s1 \<and> server_step race_lib s1 s2
     \<and> l \<in> set (sv_log s1) \<and> lg_reply l = ReplySend r \<and> rcpt_result (sr_receipt r) = Inr ScVoid
     \<and> known_seq race_lib race_worker [3] = Some 5
     \<and> sv_worker s1 = Some wk1 \<and> known_seq race_lib wk1 [3] = Some 6
     \<and> sv_worker s2 = Some wk2 \<and> known_seq race_lib wk2 [3] = Some 5"
proof -
  let ?X = race_lib
  obtain req1 req2 where rq1: "dec_json_rpc_request balance_request = Some req1" "jr_jsonrpc req1 = ''2.0''"
    and rq2: "dec_json_rpc_request send_request = Some req2" "jr_jsonrpc req2 = ''2.0''"
    using race_requests by blast
  obtain k k2 where k: "dispatch ?X req1 = Ask (CmdGetLedgerEntries [KeyAccount [3]]) k"
    and k2: "k (ReplyLedgerEntries \<lparr> ler_entries = [Some (KeyAccount [3], race_entry 5 1, None)], ler_latest_ledger = 100 \<rparr>)
         = Ask (CmdSetLedgerEntry (KeyAccount [3]) (race_entry 5 7) None) k2"
    using race_balance_process race_balance_dispatch [OF rq1(1)] by metis
  obtain j where j: "dispatch ?X req2 = Ask (CmdSendTransaction (bytes_of_str ''AAAA'') (HfOther []) [3]) j"
    using race_send_dispatch [OF rq2(1)] by blast
  define s0 where "s0 = server_running race_worker"
  define a1 where "a1 = s0\<lparr>sv_next := Suc (sv_next s0), sv_flight := (sv_flight s0)(sv_next s0 \<mapsto> (jr_id req1, dispatch ?X req1))\<rparr>"
  define a2 where "a2 = a1\<lparr>sv_next := Suc (sv_next a1), sv_flight := (sv_flight a1)(sv_next a1 \<mapsto> (jr_id req2, dispatch ?X req2))\<rparr>"
  have t1: "server_step ?X s0 a1"
    unfolding a1_def by (rule server_step.accept [OF _ rq1]) (simp add: s0_def server_running_def)
  have t2: "server_step ?X a1 a2"
    unfolding a2_def by (rule server_step.accept [OF _ rq2]) (simp add: a1_def s0_def server_running_def)
  have f: "sv_flight a2 0 = Some (jr_id req1, Ask (CmdGetLedgerEntries [KeyAccount [3]]) k)"
    "sv_flight a2 (Suc 0) = Some (jr_id req2, Ask (CmdSendTransaction (bytes_of_str ''AAAA'') (HfOther []) [3]) j)"
    "sv_worker a2 = Some race_worker" "sv_log a2 = []"
    by (simp_all add: a2_def a1_def s0_def server_running_def k j)
  let ?es = "ReplyLedgerEntries \<lparr> ler_entries = [Some (KeyAccount [3], race_entry 5 1, None)], ler_latest_ledger = 100 \<rparr>"
  have "fork_get ?X (KeyAccount [3]) (wk_env race_worker) = Some (Some (race_entry 5 1, None), wk_env race_worker)"
    unfolding race_worker_source by (rule fork_get_known) (simp add: race_known race_lib_simps)
  moreover have "ledger_sequence (wk_env race_worker) = 100"
    by (simp add: race_worker_source ledger_sequence_def sample_fork_def fork_ledger_info_def)
  ultimately have get: "actor_send ?X (CmdGetLedgerEntries [KeyAccount [3]]) (sv_worker a2) = (Inr ?es, Some race_worker)"
    by (simp add: f)
  define a3 where "a3 = a2\<lparr>sv_worker := Some race_worker, sv_flight := (sv_flight a2)(0 \<mapsto> (jr_id req1, k ?es)),
    sv_log := \<lparr> lg_request = 0, lg_command = CmdGetLedgerEntries [KeyAccount [3]], lg_reply = ?es \<rparr> # sv_log a2\<rparr>"
  have t3: "server_step ?X a2 a3" unfolding a3_def by (rule server_step.command [OF f(1) get])
  obtain r where r: "worker_step ?X (CmdSendTransaction (bytes_of_str ''AAAA'') (HfOther []) [3]) race_worker
       = Some (ReplySend r, race_worker\<lparr>wk_env := sample_fork\<lparr>fk_source := race_source [1]\<rparr>, wk_clock := 1,
                              wk_receipts := [sr_hash r \<mapsto> sr_receipt r]\<rparr>)"
    and ok: "rcpt_result (sr_receipt r) = Inr ScVoid"
    using race_send by blast
  define wk1 where "wk1 = race_worker\<lparr>wk_env := sample_fork\<lparr>fk_source := race_source [1]\<rparr>, wk_clock := 1,
                              wk_receipts := [sr_hash r \<mapsto> sr_receipt r]\<rparr>"
  have f3: "sv_flight a3 (Suc 0) = Some (jr_id req2, Ask (CmdSendTransaction (bytes_of_str ''AAAA'') (HfOther []) [3]) j)"
    and snd: "actor_send ?X (CmdSendTransaction (bytes_of_str ''AAAA'') (HfOther []) [3]) (sv_worker a3)
      = (Inr (ReplySend r), Some wk1)"
    by (simp_all add: a3_def f r wk1_def del: worker_step.simps)
  define s1 where "s1 = a3\<lparr>sv_worker := Some wk1, sv_flight := (sv_flight a3)(Suc 0 \<mapsto> (jr_id req2, j (ReplySend r))),
    sv_log := \<lparr> lg_request = Suc 0, lg_command = CmdSendTransaction (bytes_of_str ''AAAA'') (HfOther []) [3],
                lg_reply = ReplySend r \<rparr> # sv_log a3\<rparr>"
  have t4: "server_step ?X a3 s1" unfolding s1_def by (rule server_step.command [OF f3 snd])
  define wk2 where "wk2 = wk1\<lparr>wk_env := sample_fork\<lparr>fk_source := race_source [2]\<rparr>\<rparr>"
  have f4: "sv_flight s1 0 = Some (jr_id req1, Ask (CmdSetLedgerEntry (KeyAccount [3]) (race_entry 5 7) None) k2)"
    by (simp add: s1_def a3_def k2)
  have set: "actor_send ?X (CmdSetLedgerEntry (KeyAccount [3]) (race_entry 5 7) None) (sv_worker s1) = (Inr ReplySet, Some wk2)"
    by (simp add: s1_def wk1_def wk2_def race_set race_lib_simps race_neq)
  obtain s2 where t5: "server_step ?X s1 s2" "sv_worker s2 = Some wk2"
    using server_step.command [OF f4 set] by fastforce
  have reach: "server_reaches ?X s0 s1"
    by (rule server_reaches.server_next [OF server_reaches.server_next [OF server_reaches.server_next
          [OF server_reaches.server_next [OF server_reaches.server_refl t1] t2] t3] t4])
  have q: "known_seq ?X race_worker [3] = Some 5" "known_seq ?X wk1 [3] = Some 6" "known_seq ?X wk2 [3] = Some 5"
    using race_seq [OF race_worker_source race_lib_simps(3)] race_seq [OF _ race_lib_simps(4), of wk1]
      race_seq [OF _ race_lib_simps(5), of wk2]
    by (simp_all add: wk1_def wk2_def)
  have "\<exists>l. l \<in> set (sv_log s1) \<and> lg_reply l = ReplySend r" "sv_worker s1 = Some wk1"
    by (auto simp: s1_def)
  with reach t5 q ok show ?thesis unfolding s0_def by blast
qed

section \<open>At a concrete input\<close>

text \<open>A transaction accepted and executed: the run the witnesses share.\<close>

lemma serve_run:
  "\<exists>s wk' l r. server_reaches race_lib (server_running race_worker) s \<and> sv_worker s = Some wk'
     \<and> sv_flight s 0 \<noteq> None \<and> l \<in> set (sv_log s) \<and> lg_reply l = ReplySend r"
proof -
  obtain req where rq: "dec_json_rpc_request send_request = Some req" "jr_jsonrpc req = ''2.0''"
    using race_requests(2) by blast
  obtain j where j: "dispatch race_lib req = Ask (CmdSendTransaction (bytes_of_str ''AAAA'') (HfOther []) [3]) j"
    using race_send_dispatch [OF rq(1)] by blast
  define s0 where "s0 = server_running race_worker"
  define a where "a = s0\<lparr>sv_next := Suc (sv_next s0), sv_flight := (sv_flight s0)(sv_next s0 \<mapsto> (jr_id req, dispatch race_lib req))\<rparr>"
  have t1: "server_step race_lib s0 a"
    unfolding a_def by (rule server_step.accept [OF _ rq]) (simp add: s0_def server_running_def)
  obtain r wk' where r: "worker_step race_lib (CmdSendTransaction (bytes_of_str ''AAAA'') (HfOther []) [3]) race_worker
       = Some (ReplySend r, wk')"
    using race_send by blast
  have f: "sv_flight a 0 = Some (jr_id req, Ask (CmdSendTransaction (bytes_of_str ''AAAA'') (HfOther []) [3]) j)"
    and c: "actor_send race_lib (CmdSendTransaction (bytes_of_str ''AAAA'') (HfOther []) [3]) (sv_worker a) = (Inr (ReplySend r), Some wk')"
    by (simp_all add: a_def s0_def server_running_def j r del: worker_step.simps)
  define s where "s = a\<lparr>sv_worker := Some wk', sv_flight := (sv_flight a)(0 \<mapsto> (jr_id req, j (ReplySend r))),
    sv_log := \<lparr> lg_request = 0, lg_command = CmdSendTransaction (bytes_of_str ''AAAA'') (HfOther []) [3],
                lg_reply = ReplySend r \<rparr> # sv_log a\<rparr>"
  have "server_reaches race_lib s0 s"
    unfolding s_def
    by (rule server_reaches.server_next [OF server_reaches.server_next [OF server_reaches.server_refl t1]
          server_step.command [OF f c]])
  moreover have "sv_worker s = Some wk'" "sv_flight s 0 \<noteq> None" "\<exists>l. l \<in> set (sv_log s) \<and> lg_reply l = ReplySend r"
    by (auto simp: s_def)
  ultimately show ?thesis unfolding s0_def by blast
qed

theorem interleaving_linear_witness:
  "\<exists>s wk'. server_reaches race_lib (server_running race_worker) s \<and> sv_worker s = Some wk' \<and> executed s \<noteq> []
     \<and> fork_const (wk_env wk') = fork_const (wk_env race_worker)"
proof -
  obtain s wk' l where s: "server_reaches race_lib (server_running race_worker) s" "sv_worker s = Some wk'"
    and l: "l \<in> set (sv_log s)"
    using serve_run by blast
  have "executed s \<noteq> []" using l by (auto simp: executed_def)
  with interleaving_linear [OF s] s show ?thesis by blast
qed

theorem no_request_lost_witness:
  "\<exists>s. server_reaches race_lib (server_running race_worker) s \<and> 0 \<notin> fst ` set (sv_answers s) \<and> 0 < sv_next s"
proof -
  obtain s where s: "server_reaches race_lib (server_running race_worker) s" "sv_flight s 0 \<noteq> None"
    using serve_run by blast
  have "\<not> overflow_checks race_lib"
    by (simp add: race_lib_def three_lib_def serve_lib_def host_lib_def)
  from no_request_lost [OF this s(1)] s show ?thesis by blast
qed

end
