(* ===== verification/Simulation.thy ===== *)
theory Simulation
  imports Main
begin

text \<open>
  Contracts of step relations. In a simulation a step of the detailed system is a step of the
  abstract one or changes nothing there; what is reachable below is then reachable above. What
  every step preserves holds along a run. In a draining system, further, every step that keeps to
  a set of events uses up some work, which bounds how many such steps there can be.
\<close>

locale simulation =
  fixes step :: "'c \<Rightarrow> 'c \<Rightarrow> bool"
    and spec :: "'a \<Rightarrow> 'a \<Rightarrow> bool"
    and view :: "'c \<Rightarrow> 'a"
  assumes simulates: "step c c' \<Longrightarrow> spec (view c) (view c') \<or> view c' = view c"
begin

lemma simulates_run: "step\<^sup>*\<^sup>* c c' \<Longrightarrow> spec\<^sup>*\<^sup>* (view c) (view c')"
proof (induction rule: rtranclp_induct)
  case (step y z)
  from simulates [OF step.hyps(2)] step.IH show ?case by (auto intro: rtranclp.rtrancl_into_rtrancl)
qed simp

end

text \<open>A run, with the events of its steps, the first one first.\<close>

inductive events_run :: "('e \<Rightarrow> 's \<Rightarrow> 's \<Rightarrow> bool) \<Rightarrow> 'e list \<Rightarrow> 's \<Rightarrow> 's \<Rightarrow> bool" for step where
  run_end: "events_run step [] s s"
| run_step: "step e s s1 \<Longrightarrow> events_run step es s1 s2 \<Longrightarrow> events_run step (e # es) s s2"

locale preserved =
  fixes step :: "'e \<Rightarrow> 's \<Rightarrow> 's \<Rightarrow> bool"
    and inv :: "'s \<Rightarrow> bool"
  assumes inv_step: "inv s \<Longrightarrow> step e s s' \<Longrightarrow> inv s'"
begin

lemma inv_run: "events_run step es s s' \<Longrightarrow> inv s \<Longrightarrow> inv s'"
  by (induction rule: events_run.induct) (auto intro: inv_step)

end

locale draining = preserved step inv
  for step :: "'e \<Rightarrow> 's \<Rightarrow> 's \<Rightarrow> bool" and inv :: "'s \<Rightarrow> bool" +
  fixes quiet :: "'e \<Rightarrow> bool"
    and work :: "'s \<Rightarrow> nat"
  assumes work_step: "inv s \<Longrightarrow> step e s s' \<Longrightarrow> quiet e \<Longrightarrow> work s' < work s"
begin

lemma quiet_run: "events_run step es s s' \<Longrightarrow> inv s \<Longrightarrow> list_all quiet es \<Longrightarrow> length es + work s' \<le> work s"
proof (induction rule: events_run.induct)
  case (run_step e s s1 es s2)
  then have "length es + work s2 \<le> work s1" "work s1 < work s"
    by (auto intro: inv_step work_step)
  then show ?case by simp
qed simp

end

end
