(* ===== verification/Channel.thy ===== *)
theory Channel
  imports Server Simulation
begin

text \<open>
  The channel between the handlers and the worker, \<open>ActorHandle\<close> and \<open>spawn\<close> of
  \<open>src/server/actor.rs\<close>, in detail: a queue of at most 32 commands, one one-shot sender per command
  for the reply, handlers that wait for room or for their reply, and clients that hang up. What
  \<open>Server\<close> takes as one step, a command executed, is here put in the queue, executed and
  answered. A handler whose client has gone is dropped: it takes no further step, but a command
  that it has put in the queue is still executed.
\<close>

definition channel_capacity :: nat where "channel_capacity = 32"

datatype task = Running proc | Waiting command "reply \<Rightarrow> proc"

record request_task =
  tk_id :: json
  tk_task :: task
  tk_connected :: bool

record channel_state =
  ch_worker :: "worker option"
  ch_open :: bool
  ch_next :: nat
  ch_queue :: "(nat \<times> command) list"
  ch_tasks :: "nat \<Rightarrow> request_task option"
  ch_sent :: "(nat \<times> command) list"         \<comment> \<open>the commands ever put in the queue, the earliest first\<close>
  ch_log :: "logged list"                     \<comment> \<open>the commands executed, the latest first\<close>
  ch_answers :: "(nat \<times> http_response) list"

definition channel_running :: "worker \<Rightarrow> channel_state" where
  "channel_running wk =
     \<lparr> ch_worker = Some wk, ch_open = True, ch_next = 0, ch_queue = [], ch_tasks = (\<lambda>_. None), ch_sent = [],
       ch_log = [], ch_answers = [] \<rparr>"

definition set_task :: "nat \<Rightarrow> request_task \<Rightarrow> task \<Rightarrow> channel_state \<Rightarrow> channel_state" where
  "set_task n t p s = s\<lparr>ch_tasks := (ch_tasks s)(n \<mapsto> t\<lparr>tk_task := p\<rparr>)\<rparr>"

text \<open>What \<open>send\<close> makes of a closed channel and of a reply sender that was dropped.\<close>

definition send_failed :: proc where
  "send_failed = Finish (Inl (internal_error (show_actor_error WorkerGone)))"

datatype channel_event = Arrive | Serve | Leave | Close

inductive channel_step :: "ext_lib \<Rightarrow> channel_event \<Rightarrow> channel_state \<Rightarrow> channel_state \<Rightarrow> bool" for X where
  arrive:
    "ch_open s \<Longrightarrow> dec_json_rpc_request body = Some req \<Longrightarrow> jr_jsonrpc req = ''2.0'' \<Longrightarrow>
     channel_step X Arrive s (s\<lparr>ch_next := Suc (ch_next s), ch_tasks := (ch_tasks s)(ch_next s \<mapsto>
       \<lparr> tk_id = jr_id req, tk_task = Running (dispatch X req), tk_connected = True \<rparr>)\<rparr>)"
| turn_away:
    "ch_open s \<Longrightarrow> dec_json_rpc_request body = Some req \<Longrightarrow> jr_jsonrpc req \<noteq> ''2.0'' \<Longrightarrow>
     channel_step X Arrive s (s\<lparr>ch_next := Suc (ch_next s),
       ch_answers := (ch_next s, unsupported_version req) # ch_answers s\<rparr>)"
| enqueue:
    "ch_tasks s n = Some t \<Longrightarrow> tk_connected t \<Longrightarrow> tk_task t = Running (Ask c k) \<Longrightarrow>
     ch_worker s \<noteq> None \<Longrightarrow> length (ch_queue s) < channel_capacity \<Longrightarrow>
     channel_step X Serve s
       ((set_task n t (Waiting c k) s)\<lparr>ch_queue := ch_queue s @ [(n, c)], ch_sent := ch_sent s @ [(n, c)]\<rparr>)"
| execute:
    "ch_queue s = (n, c) # q \<Longrightarrow> ch_worker s = Some wk \<Longrightarrow> worker_step X c wk = Some (r, wk') \<Longrightarrow>
     ch_tasks s n = Some t \<Longrightarrow> tk_task t = Waiting c k \<Longrightarrow>
     channel_step X Serve s ((set_task n t (Running (k r)) s)\<lparr>ch_queue := q, ch_worker := Some wk',
       ch_log := \<lparr> lg_request = n, lg_command = c, lg_reply = r \<rparr> # ch_log s\<rparr>)"
| panic:
    "ch_queue s = (n, c) # q \<Longrightarrow> ch_worker s = Some wk \<Longrightarrow> worker_step X c wk = None \<Longrightarrow>
     ch_tasks s n = Some t \<Longrightarrow> tk_task t = Waiting c k \<Longrightarrow>
     channel_step X Serve s ((set_task n t (Running send_failed) s)\<lparr>ch_queue := [], ch_worker := None\<rparr>)"
| refused:
    "ch_tasks s n = Some t \<Longrightarrow> tk_connected t \<Longrightarrow> tk_task t = Running (Ask c k) \<Longrightarrow> ch_worker s = None \<Longrightarrow>
     channel_step X Serve s (set_task n t (Running send_failed) s)"
| reply_lost:
    "ch_tasks s n = Some t \<Longrightarrow> tk_connected t \<Longrightarrow> tk_task t = Waiting c k \<Longrightarrow> ch_worker s = None \<Longrightarrow>
     channel_step X Serve s (set_task n t (Running send_failed) s)"
| respond:
    "ch_tasks s n = Some t \<Longrightarrow> tk_connected t \<Longrightarrow> tk_task t = Running (Finish r) \<Longrightarrow>
     channel_step X Serve s (s\<lparr>ch_tasks := (ch_tasks s)(n := None),
       ch_answers := (n, wrap_response (tk_id t) r) # ch_answers s\<rparr>)"
| abort:
    "ch_tasks s n = Some t \<Longrightarrow> tk_connected t \<Longrightarrow> tk_task t = Running HandlerPanic \<Longrightarrow>
     channel_step X Serve s (s\<lparr>ch_tasks := (ch_tasks s)(n := None)\<rparr>)"
| hang_up:
    "ch_tasks s n = Some t \<Longrightarrow> tk_connected t \<Longrightarrow>
     channel_step X Leave s (s\<lparr>ch_tasks := (ch_tasks s)(n \<mapsto> t\<lparr>tk_connected := False\<rparr>)\<rparr>)"
| close:
    "ch_open s \<Longrightarrow> channel_step X Close s (s\<lparr>ch_open := False\<rparr>)"

section \<open>The abstract view\<close>

fun task_proc :: "task \<Rightarrow> proc" where
  "task_proc (Running p) = p"
| "task_proc (Waiting c k) = Ask c k"

definition flight_view :: "(nat \<Rightarrow> request_task option) \<Rightarrow> nat \<Rightarrow> (json \<times> proc) option" where
  "flight_view tasks n = map_option (\<lambda>t. (tk_id t, task_proc (tk_task t))) (tasks n)"

definition server_view :: "channel_state \<Rightarrow> server_state" where
  "server_view s =
     \<lparr> sv_worker = ch_worker s, sv_open = ch_open s, sv_next = ch_next s, sv_flight = flight_view (ch_tasks s),
       sv_log = ch_log s, sv_answers = ch_answers s \<rparr>"

lemma flight_view_upd [simp]:
  "flight_view (f(n \<mapsto> t)) = (flight_view f)(n \<mapsto> (tk_id t, task_proc (tk_task t)))"
  "flight_view (f(n := None)) = (flight_view f)(n := None)" "flight_view (\<lambda>_. None) = (\<lambda>_. None)"
  by (simp_all add: flight_view_def fun_eq_iff)

lemma flight_view_some: "f n = Some t \<Longrightarrow> flight_view f n = Some (tk_id t, task_proc (tk_task t))"
  by (simp add: flight_view_def)

lemma flight_view_same: "f n = Some t \<Longrightarrow> task_proc (tk_task t) = p \<Longrightarrow>
    (flight_view f)(n \<mapsto> (tk_id t, p)) = flight_view f"
  by (simp add: flight_view_def fun_eq_iff)

lemma view_upd [simp]:
  "server_view (s\<lparr>ch_queue := q\<rparr>) = server_view s" "server_view (s\<lparr>ch_sent := q\<rparr>) = server_view s"
  "server_view (s\<lparr>ch_worker := w\<rparr>) = (server_view s)\<lparr>sv_worker := w\<rparr>"
  "server_view (s\<lparr>ch_open := b\<rparr>) = (server_view s)\<lparr>sv_open := b\<rparr>"
  "server_view (s\<lparr>ch_next := m\<rparr>) = (server_view s)\<lparr>sv_next := m\<rparr>"
  "server_view (s\<lparr>ch_log := l\<rparr>) = (server_view s)\<lparr>sv_log := l\<rparr>"
  "server_view (s\<lparr>ch_answers := a\<rparr>) = (server_view s)\<lparr>sv_answers := a\<rparr>"
  "server_view (s\<lparr>ch_tasks := f\<rparr>) = (server_view s)\<lparr>sv_flight := flight_view f\<rparr>"
  "server_view (set_task n t p s)
     = (server_view s)\<lparr>sv_flight := (flight_view (ch_tasks s))(n \<mapsto> (tk_id t, task_proc p))\<rparr>"
  by (simp_all add: server_view_def set_task_def)

lemma view_simps [simp]:
  "sv_worker (server_view s) = ch_worker s" "sv_open (server_view s) = ch_open s" "sv_next (server_view s) = ch_next s"
  "sv_log (server_view s) = ch_log s" "sv_answers (server_view s) = ch_answers s"
  "sv_flight (server_view s) = flight_view (ch_tasks s)"
  "(server_view s)\<lparr>sv_flight := flight_view (ch_tasks s)\<rparr> = server_view s"
  by (simp_all add: server_view_def)

lemma view_worker_same: "ch_worker s = w \<Longrightarrow> (server_view s)\<lparr>sv_worker := w\<rparr> = server_view s"
  by (simp add: server_view_def)

lemma view_running [simp]: "server_view (channel_running wk) = server_running wk"
  by (simp add: server_view_def channel_running_def server_running_def)

lemma flight_worker_swap: "s\<lparr>sv_flight := f, sv_worker := w\<rparr> = s\<lparr>sv_worker := w, sv_flight := f\<rparr>"
  by simp

lemma channel_simulates:
  "channel_step X e s s' \<Longrightarrow> server_step X (server_view s) (server_view s') \<or> server_view s' = server_view s"
proof (induction rule: channel_step.induct)
  case (arrive s body req)
  then show ?case using server_step.accept [of "server_view s"] by simp
next
  case (turn_away s body req)
  then show ?case using server_step.reject [of "server_view s"] by simp
next
  case (enqueue s n t c k)
  then show ?case by (simp add: flight_view_same)
next
  case (execute s n c q wk r wk' t k)
  then show ?case
    using server_step.command [of "server_view s" n "tk_id t" c k X r "Some wk'"] by (simp add: flight_view_some flight_worker_swap)
next
  case (panic s n c q wk t k)
  then show ?case
    using server_step.gone [of "server_view s" n "tk_id t" c k X WorkerGone None]
    by (simp add: flight_view_some send_failed_def flight_worker_swap)
next
  case (refused s n t c k)
  then show ?case
    using server_step.gone [of "server_view s" n "tk_id t" c k X WorkerGone None]
    by (simp add: flight_view_some send_failed_def view_worker_same)
next
  case (reply_lost s n t c k)
  then show ?case
    using server_step.gone [of "server_view s" n "tk_id t" c k X WorkerGone None]
    by (simp add: flight_view_some send_failed_def view_worker_same)
next
  case (respond s n t r)
  then show ?case using server_step.answer [of "server_view s" n "tk_id t" r] by (simp add: flight_view_some)
next
  case (abort s n t)
  then show ?case using server_step.crash [of "server_view s" n "tk_id t"] by (simp add: flight_view_some)
next
  case (hang_up s n t)
  then show ?case by (simp add: flight_view_same)
next
  case (close s)
  then show ?case using server_step.shutdown [of "server_view s"] by simp
qed

interpretation ch: simulation "\<lambda>s s'. \<exists>e. channel_step X e s s'" "server_step X" server_view for X
  by unfold_locales (blast dest: channel_simulates)

lemma server_reaches_star: "server_reaches X s s' \<longleftrightarrow> (server_step X)\<^sup>*\<^sup>* s s'"
proof
  show "server_reaches X s s' \<Longrightarrow> (server_step X)\<^sup>*\<^sup>* s s'"
    by (induction rule: server_reaches.induct) (auto intro: rtranclp.rtrancl_into_rtrancl)
  show "(server_step X)\<^sup>*\<^sup>* s s' \<Longrightarrow> server_reaches X s s'"
    by (induction rule: rtranclp_induct) (auto intro: server_reaches.intros)
qed

lemma run_star: "events_run step es s s' \<Longrightarrow> (\<lambda>a b. \<exists>e. step e a b)\<^sup>*\<^sup>* s s'"
  by (induction rule: events_run.induct) (auto intro: converse_rtranclp_into_rtranclp)

lemma channel_run_view:
  "events_run (channel_step X) es s s' \<Longrightarrow> server_reaches X (server_view s) (server_view s')"
  unfolding server_reaches_star by (rule ch.simulates_run) (rule run_star)

definition executed_pairs :: "channel_state \<Rightarrow> (nat \<times> command) list" where
  "executed_pairs s = rev (map (\<lambda>l. (lg_request l, lg_command l)) (ch_log s))"

lemma channel_linear:
  assumes "events_run (channel_step X) es (channel_running wk) s" "ch_worker s = Some wk'"
  shows "worker_loop X (map snd (executed_pairs s)) wk = Some (rev (map lg_reply (ch_log s)), wk')"
proof -
  have r: "server_reaches X (server_running wk) (server_view s)"
    using channel_run_view [OF assms(1)] by simp
  have "linear X wk (server_view s)" by (rule linear_reaches [OF r linear_running])
  then show ?thesis using assms(2) by (simp add: linear_def executed_def executed_pairs_def rev_map comp_def)
qed

section \<open>The queue\<close>

definition waits :: "channel_state \<Rightarrow> nat \<Rightarrow> command \<Rightarrow> bool" where
  "waits s n c \<longleftrightarrow> (\<exists>t k. ch_tasks s n = Some t \<and> tk_task t = Waiting c k)"

text \<open>The queue holds exactly the commands whose handlers wait for a reply, one for each, and with
  what was executed it is all that was ever sent, in order; a dead worker leaves it empty.\<close>

definition queue_ok :: "channel_state \<Rightarrow> bool" where
  "queue_ok s \<longleftrightarrow>
     length (ch_queue s) \<le> channel_capacity \<and> distinct (map fst (ch_queue s))
     \<and> (\<forall>n c. (n, c) \<in> set (ch_queue s) \<longleftrightarrow> ch_worker s \<noteq> None \<and> waits s n c)
     \<and> (\<exists>rest. ch_sent s = executed_pairs s @ rest \<and> (ch_worker s \<noteq> None \<longrightarrow> rest = ch_queue s))
     \<and> (\<forall>n. ch_tasks s n \<noteq> None \<longrightarrow> n < ch_next s)"

lemma executed_pairs_simps [simp]:
  "executed_pairs (s\<lparr>ch_queue := q\<rparr>) = executed_pairs s" "executed_pairs (s\<lparr>ch_sent := q\<rparr>) = executed_pairs s"
  "executed_pairs (s\<lparr>ch_worker := w\<rparr>) = executed_pairs s" "executed_pairs (s\<lparr>ch_tasks := f\<rparr>) = executed_pairs s"
  "executed_pairs (s\<lparr>ch_open := b\<rparr>) = executed_pairs s" "executed_pairs (s\<lparr>ch_next := m\<rparr>) = executed_pairs s"
  "executed_pairs (s\<lparr>ch_answers := a\<rparr>) = executed_pairs s" "executed_pairs (set_task n t p s) = executed_pairs s"
  "executed_pairs (s\<lparr>ch_log := l # ch_log s'\<rparr>) = executed_pairs s' @ [(lg_request l, lg_command l)]"
  by (simp_all add: executed_pairs_def set_task_def)

lemma waits_simps [simp]:
  "waits (s\<lparr>ch_queue := q\<rparr>) = waits s" "waits (s\<lparr>ch_sent := q\<rparr>) = waits s" "waits (s\<lparr>ch_worker := w\<rparr>) = waits s"
  "waits (s\<lparr>ch_log := l\<rparr>) = waits s" "waits (s\<lparr>ch_open := b\<rparr>) = waits s" "waits (s\<lparr>ch_next := m\<rparr>) = waits s"
  "waits (s\<lparr>ch_answers := a\<rparr>) = waits s"
  "waits (set_task n t p s) m c = (if m = n then \<exists>k. p = Waiting c k else waits s m c)"
  by (simp_all add: waits_def set_task_def fun_eq_iff)

lemma set_task_simps [simp]:
  "ch_queue (set_task n t p s) = ch_queue s" "ch_sent (set_task n t p s) = ch_sent s"
  "ch_worker (set_task n t p s) = ch_worker s" "ch_log (set_task n t p s) = ch_log s"
  "ch_open (set_task n t p s) = ch_open s" "ch_next (set_task n t p s) = ch_next s"
  "ch_answers (set_task n t p s) = ch_answers s"
  "ch_tasks (set_task n t p s) = (ch_tasks s)(n \<mapsto> t\<lparr>tk_task := p\<rparr>)"
  by (simp_all add: set_task_def)

lemma waits_iff: "ch_tasks s n = Some t \<Longrightarrow> waits s n c \<longleftrightarrow> (\<exists>k. tk_task t = Waiting c k)"
  by (simp add: waits_def)

lemma queue_ok_step: "channel_step X e s s' \<Longrightarrow> queue_ok s \<Longrightarrow> queue_ok s'"
proof (induction rule: channel_step.induct)
  case (enqueue s n t c k)
  then have "\<not> waits s n c'" for c' by (simp add: waits_iff)
  then have "n \<notin> fst ` set (ch_queue s)" using enqueue.prems unfolding queue_ok_def by force
  with enqueue show ?case
    unfolding queue_ok_def by (simp add: \<open>\<And>c'. \<not> waits s n c'\<close>) auto
next
  case (execute s n c q wk r wk' t k)
  then have "(m, d) \<in> set q \<longleftrightarrow> m \<noteq> n \<and> waits s m d" for m d
    unfolding queue_ok_def by (auto simp: waits_iff image_iff)
  with execute show ?case unfolding queue_ok_def by auto
next
  case (panic s n c q wk t k)
  then show ?case unfolding queue_ok_def by auto
next
  case (refused s n t c k)
  then show ?case unfolding queue_ok_def by auto
next
  case (reply_lost s n t c k)
  then show ?case unfolding queue_ok_def by auto
qed (auto simp: queue_ok_def waits_def less_Suc_eq)

section \<open>The work that is left\<close>

fun stage :: "task \<Rightarrow> nat" where
  "stage (Running (Ask c k)) = 3"
| "stage (Waiting c k) = 2"
| "stage (Running p) = 1"

text \<open>A request counts for what its handler can still do: four commands at most, and for each the
  stages of sending, waiting and going on.\<close>

definition request_work :: "channel_state \<Rightarrow> nat \<Rightarrow> nat" where
  "request_work s n =
     (case ch_tasks s n of
        None \<Rightarrow> 0
      | Some t \<Rightarrow> 4 * (4 - length (filter (\<lambda>l. lg_request l = n) (ch_log s))) + stage (tk_task t)
                  + (if tk_connected t then 1 else 0))"

definition channel_work :: "channel_state \<Rightarrow> nat" where
  "channel_work s = (\<Sum>n<ch_next s. request_work s n)"

definition channel_ok :: "channel_state \<Rightarrow> bool" where
  "channel_ok s \<longleftrightarrow> queue_ok s \<and> flight_ok (server_view s)"

fun quiet :: "channel_event \<Rightarrow> bool" where
  "quiet Serve = True"
| "quiet Leave = True"
| "quiet _ = False"

lemma channel_ok_step: "channel_ok s \<Longrightarrow> channel_step X e s s' \<Longrightarrow> channel_ok s'"
  unfolding channel_ok_def
  by (auto dest: channel_simulates queue_ok_step flight_ok_step)

lemma channel_ok_running: "channel_ok (channel_running wk)"
  by (auto simp: channel_ok_def queue_ok_def flight_ok_running waits_def)
     (simp_all add: channel_running_def executed_pairs_def)

lemma stage_bounds: "1 \<le> stage t" "stage t \<le> 3"
  by (cases t rule: stage.cases; simp)+

lemma request_work_le: "request_work s n \<le> 20"
proof (cases "ch_tasks s n")
  case (Some t)
  have "4 - length (filter (\<lambda>l. lg_request l = n) (ch_log s)) \<le> 4" by simp
  with Some stage_bounds(2) [of "tk_task t"] show ?thesis unfolding request_work_def by simp linarith
qed (simp add: request_work_def)

lemma request_work_pos: "ch_tasks s n = Some t \<Longrightarrow> 0 < request_work s n"
  using stage_bounds(1) [of "tk_task t"] by (simp add: request_work_def)

text \<open>One request moves on, the others stay where they are.\<close>

lemma work_less:
  assumes "n < ch_next s" "ch_next s' = ch_next s" "request_work s' n < request_work s n"
    "\<And>m. m \<noteq> n \<Longrightarrow> request_work s' m = request_work s m"
  shows "channel_work s' < channel_work s"
  unfolding channel_work_def assms(2)
proof (rule sum_strict_mono_ex1)
  show "\<forall>m\<in>{..<ch_next s}. request_work s' m \<le> request_work s m"
  proof
    fix m
    show "request_work s' m \<le> request_work s m" using assms(3,4) by (cases "m = n") auto
  qed
qed (use assms(1,3) in auto)

lemma commands_view: "commands_of n (server_view s) = length (filter (\<lambda>l. lg_request l = n) (ch_log s))"
  by (simp add: commands_of_def)

lemma channel_ok_next: "channel_ok s \<Longrightarrow> ch_tasks s n = Some t \<Longrightarrow> n < ch_next s"
  unfolding channel_ok_def queue_ok_def by blast

lemma channel_ok_left:
  "channel_ok s \<Longrightarrow> ch_tasks s n = Some t \<Longrightarrow>
     at_most (task_proc (tk_task t)) (4 - length (filter (\<lambda>l. lg_request l = n) (ch_log s)))"
  unfolding channel_ok_def flight_ok_def by (simp add: commands_view flight_view_some)

lemma work_step: "channel_step X e s s' \<Longrightarrow> channel_ok s \<Longrightarrow> quiet e \<Longrightarrow> channel_work s' < channel_work s"
proof (induction rule: channel_step.induct)
  case (enqueue s n t c k)
  show ?case
    by (rule work_less [OF channel_ok_next [OF enqueue.prems(1) enqueue.hyps(1)]])
       (use enqueue.hyps in \<open>auto simp: request_work_def split: option.split\<close>)
next
  case (execute s n c q wk r wk' t k)
  have "0 < 4 - length (filter (\<lambda>l. lg_request l = n) (ch_log s))"
    using channel_ok_left [OF execute.prems(1) execute.hyps(4)] execute.hyps(5) by simp
  then show ?case
    using stage_bounds(2) [of "Running (k r)"]
    by (intro work_less [OF channel_ok_next [OF execute.prems(1) execute.hyps(4)]])
       (use execute.hyps in \<open>auto simp: request_work_def split: option.split\<close>)
next
  case (panic s n c q wk t k)
  show ?case
    by (rule work_less [OF channel_ok_next [OF panic.prems(1) panic.hyps(4)]])
       (use panic.hyps in \<open>auto simp: request_work_def send_failed_def split: option.split\<close>)
next
  case (refused s n t c k)
  show ?case
    by (rule work_less [OF channel_ok_next [OF refused.prems(1) refused.hyps(1)]])
       (use refused.hyps in \<open>auto simp: request_work_def send_failed_def split: option.split\<close>)
next
  case (reply_lost s n t c k)
  show ?case
    by (rule work_less [OF channel_ok_next [OF reply_lost.prems(1) reply_lost.hyps(1)]])
       (use reply_lost.hyps in \<open>auto simp: request_work_def send_failed_def split: option.split\<close>)
next
  case (respond s n t r)
  show ?case
    by (rule work_less [OF channel_ok_next [OF respond.prems(1) respond.hyps(1)]])
       (use respond.hyps request_work_pos [OF respond.hyps(1)] in \<open>auto simp: request_work_def split: option.split\<close>)
next
  case (abort s n t)
  show ?case
    by (rule work_less [OF channel_ok_next [OF abort.prems(1) abort.hyps(1)]])
       (use abort.hyps request_work_pos [OF abort.hyps(1)] in \<open>auto simp: request_work_def split: option.split\<close>)
next
  case (hang_up s n t)
  show ?case
    by (rule work_less [OF channel_ok_next [OF hang_up.prems(1) hang_up.hyps(1)]])
       (use hang_up.hyps in \<open>auto simp: request_work_def split: option.split\<close>)
qed simp_all

interpretation ch: draining "channel_step X" channel_ok quiet channel_work for X
  by unfold_locales (auto dest: channel_ok_step work_step)

section \<open>Progress\<close>

lemma head_executes:
  assumes "channel_ok s" "ch_queue s \<noteq> []"
  shows "\<exists>s'. channel_step X Serve s s'"
proof -
  obtain n c q where q: "ch_queue s = (n, c) # q" using assms(2) by (metis neq_Nil_conv surj_pair)
  then have "ch_worker s \<noteq> None" "waits s n c"
    using assms(1) unfolding channel_ok_def queue_ok_def by (metis list.set_intros(1))+
  then obtain wk t k where w: "ch_worker s = Some wk" and t: "ch_tasks s n = Some t" "tk_task t = Waiting c k"
    by (auto simp: waits_def)
  show ?thesis
  proof (cases "worker_step X c wk")
    case None
    from channel_step.panic [OF q w None t] show ?thesis ..
  next
    case (Some out)
    then have "worker_step X c wk = Some (fst out, snd out)" by simp
    from channel_step.execute [OF q w this t] show ?thesis ..
  qed
qed

lemma connected_served:
  assumes "channel_ok s" "ch_tasks s n = Some t" "tk_connected t"
  shows "\<exists>s'. channel_step X Serve s s'"
proof (cases "ch_queue s = []")
  case False
  with assms(1) show ?thesis by (rule head_executes)
next
  case True
  show ?thesis
  proof (cases "tk_task t")
    case (Waiting c k)
    with True assms(1,2) have "ch_worker s = None"
      unfolding channel_ok_def queue_ok_def waits_def by auto
    with Waiting assms(2,3) channel_step.reply_lost show ?thesis by blast
  next
    case (Running p)
    have "length (ch_queue s) < channel_capacity" using True by (simp add: channel_capacity_def)
    note t = assms(2,3) Running
    show ?thesis
    proof (cases p)
      case (Finish r)
      from channel_step.respond [OF t [unfolded Finish]] show ?thesis ..
    next
      case HandlerPanic
      from channel_step.abort [OF t [unfolded HandlerPanic]] show ?thesis ..
    next
      case (Ask c k)
      note t = t [unfolded Ask]
      show ?thesis
      proof (cases "ch_worker s = None")
        case True
        from channel_step.refused [OF t True] show ?thesis ..
      next
        case False
        from channel_step.enqueue [OF t False \<open>length (ch_queue s) < channel_capacity\<close>] show ?thesis ..
      qed
    qed
  qed
qed

lemma closed_quiet: "channel_step X e s s' \<Longrightarrow> \<not> ch_open s \<Longrightarrow> quiet e \<and> \<not> ch_open s'"
  by (induction rule: channel_step.induct) auto

lemma closed_run: "events_run (channel_step X) es s s' \<Longrightarrow> \<not> ch_open s \<Longrightarrow> list_all quiet es \<and> \<not> ch_open s'"
  by (induction rule: events_run.induct) (auto dest: closed_quiet)

lemma quiet_next: "channel_step X e s s' \<Longrightarrow> quiet e \<Longrightarrow> ch_next s' = ch_next s"
  by (induction rule: channel_step.induct) auto

lemma work_bound: "channel_work s \<le> 20 * ch_next s"
  using sum_bounded_above [of "{..<ch_next s}" "request_work s" 20] request_work_le
  by (simp add: channel_work_def)

section \<open>Properties\<close>

text \<open>
  C4: The channel is invisible: whatever the queue, the waiting handlers and the clients that hang up
  do, what happens is a run of the server that executes one command of one request at a time; and
  the worker is where the sequential execution of the queue's commands, in the order in which they
  were executed, leads it, each answered with the reply of that execution.
\<close>

theorem channel_refines:
  assumes "events_run (channel_step X) es (channel_running wk) s"
  shows "server_reaches X (server_running wk) (server_view s)
    \<and> (\<forall>wk'. ch_worker s = Some wk' \<longrightarrow>
         worker_loop X (map snd (executed_pairs s)) wk = Some (rev (map lg_reply (ch_log s)), wk'))"
  using channel_run_view [OF assms] channel_linear [OF assms] by simp


text \<open>
  C12: Nothing waits for ever: as long as a client waits for an answer the server can take a step of
  its own, whether the queue is full, the worker busy or dead, and that step leaves less to do.
\<close>

theorem no_deadlock:
  assumes "events_run (channel_step X) es (channel_running wk) s" "ch_tasks s n = Some t" "tk_connected t"
  shows "\<exists>s'. channel_step X Serve s s' \<and> channel_work s' < channel_work s \<and> ch_next s' = ch_next s"
proof -
  have ok: "channel_ok s" by (rule ch.inv_run [OF assms(1) channel_ok_running])
  from connected_served [OF ok assms(2,3)] obtain s' where "channel_step X Serve s s'" by blast
  with work_step [OF this ok] quiet_next show ?thesis by fastforce
qed

text \<open>
  C11: Shutdown drains the server: once the signal has come every run ends, after at most twenty
  steps for each request ever received, and where it ends the queue is empty and no client is
  waiting; without overflow checks every request then has its answer, but for clients that left.
\<close>

theorem shutdown_drains:
  assumes "events_run (channel_step X) es (channel_running wk) s" "\<not> ch_open s"
    "events_run (channel_step X) es' s s'"
  shows "length es' \<le> 20 * ch_next s
    \<and> ((\<nexists>e s2. channel_step X e s' s2) \<longrightarrow> ch_queue s' = [] \<and> (\<forall>n t. ch_tasks s' n = Some t \<longrightarrow> \<not> tk_connected t)
       \<and> (\<not> overflow_checks X \<longrightarrow> (\<forall>n < ch_next s'. ch_tasks s' n \<noteq> None \<or> n \<in> fst ` set (ch_answers s'))))"
proof (intro conjI impI)
  have ok: "channel_ok s" by (rule ch.inv_run [OF assms(1) channel_ok_running])
  have q: "list_all quiet es'" using closed_run [OF assms(3,2)] by blast
  show "length es' \<le> 20 * ch_next s"
    using ch.quiet_run [OF assms(3) ok q] work_bound [of s] by linarith
  have ok': "channel_ok s'" by (rule ch.inv_run [OF assms(3) ok])
  {
    assume stuck: "\<nexists>e s2. channel_step X e s' s2"
    show "ch_queue s' = []" using stuck head_executes [OF ok'] by blast
    show "\<forall>n t. ch_tasks s' n = Some t \<longrightarrow> \<not> tk_connected t" using stuck connected_served [OF ok'] by blast
  next
    assume "\<not> overflow_checks X"
    moreover have "server_reaches X (server_running wk) (server_view s')"
      using channel_run_view [OF assms(1)] channel_run_view [OF assms(3)]
      by (simp add: server_reaches_star)
    ultimately have "accounted (server_view s')" using accounted_reaches accounted_running by blast
    then show "\<forall>n < ch_next s'. ch_tasks s' n \<noteq> None \<or> n \<in> fst ` set (ch_answers s')"
      unfolding accounted_def by (auto simp: flight_view_def)
  }
qed

section \<open>At a concrete input\<close>

text \<open>One client asks for the server's health, and the server is told to shut down meanwhile.\<close>

definition health_request :: json_rpc_request where
  "health_request = \<lparr> jr_jsonrpc = ''2.0'', jr_id = JNull, jr_method = ''getHealth'', jr_params = JNull \<rparr>"

lemma health_decodes: "dec_json_rpc_request (race_request ''getHealth'' JNull) = Some health_request"
  by (simp add: race_request_def dec_json_rpc_request_def health_request_def fld_defs)

definition health_task :: "task \<Rightarrow> request_task" where
  "health_task p = \<lparr> tk_id = JNull, tk_task = p, tk_connected = True \<rparr>"

definition health_reply :: "latest_ledger_reply \<Rightarrow> proc" where
  "health_reply l = Finish (Inr (health_json
     \<lparr> hr_status = ''healthy'', hr_latest_ledger = lr_sequence l, hr_oldest_ledger = lr_sequence l,
       hr_ledger_retention_window = 0 \<rparr>))"

lemma health_dispatch:
  "dispatch sample_lib health_request
     = Ask CmdGetLatestLedger (\<lambda>r. case r of ReplyLatestLedger l \<Rightarrow> health_reply l | _ \<Rightarrow> HandlerPanic)"
  unfolding health_reply_def [abs_def]
  by (simp add: dispatch_def health_request_def handle_get_health_def ask_latest_def)

lemma health_arrive:
  obtains s where "channel_step sample_lib Arrive (channel_running sample_worker) s" "ch_open s"
    "ch_worker s = Some sample_worker" "ch_queue s = []" "ch_log s = []"
    "ch_tasks s = [0 \<mapsto> health_task (Running (dispatch sample_lib health_request))]"
proof -
  let ?s = "(channel_running sample_worker)\<lparr>ch_next := 1,
    ch_tasks := [0 \<mapsto> health_task (Running (dispatch sample_lib health_request))]\<rparr>"
  have "channel_step sample_lib Arrive (channel_running sample_worker) ?s"
    using channel_step.arrive [OF _ health_decodes, of "channel_running sample_worker" sample_lib]
    by (simp add: channel_running_def health_request_def health_task_def)
  then show thesis by (rule that) (simp_all add: channel_running_def)
qed

lemma health_enqueue:
  assumes "ch_worker s = Some sample_worker" "ch_queue s = []" "ch_log s = []"
    "ch_tasks s = [0 \<mapsto> health_task (Running (dispatch sample_lib health_request))]"
  obtains s' k where "channel_step sample_lib Serve s s'" "ch_worker s' = Some sample_worker"
    "ch_queue s' = [(0, CmdGetLatestLedger)]" "ch_log s' = []"
    "ch_tasks s' = [0 \<mapsto> health_task (Waiting CmdGetLatestLedger k)]"
proof -
  let ?k = "\<lambda>r. case r of ReplyLatestLedger l \<Rightarrow> health_reply l | _ \<Rightarrow> HandlerPanic"
  have "channel_step sample_lib Serve s ((set_task 0 (health_task (Running (Ask CmdGetLatestLedger ?k)))
      (Waiting CmdGetLatestLedger ?k) s)\<lparr>ch_queue := ch_queue s @ [(0, CmdGetLatestLedger)],
        ch_sent := ch_sent s @ [(0, CmdGetLatestLedger)]\<rparr>)"
    by (rule channel_step.enqueue) (simp_all add: assms health_dispatch health_task_def channel_capacity_def)
  then show thesis by (rule that [of _ ?k]) (simp_all add: assms health_task_def)
qed

lemma health_execute:
  assumes "ch_worker s = Some sample_worker" "ch_queue s = [(0, CmdGetLatestLedger)]" "ch_log s = []"
    "ch_tasks s = [0 \<mapsto> health_task (Waiting CmdGetLatestLedger k)]"
  obtains s' where "channel_step sample_lib Serve s s'" "ch_worker s' = Some sample_worker"
    "executed_pairs s' = [(0, CmdGetLatestLedger)]"
proof -
  have t: "ch_tasks s 0 = Some (health_task (Waiting CmdGetLatestLedger k))"
    "tk_task (health_task (Waiting CmdGetLatestLedger k)) = Waiting CmdGetLatestLedger k"
    by (simp_all add: assms health_task_def)
  obtain r where r: "worker_step sample_lib CmdGetLatestLedger sample_worker = Some (r, sample_worker)" by simp
  from channel_step.execute [OF assms(2,1) r t] show thesis
    by (rule that) (simp_all add: assms(3) executed_pairs_def)
qed

lemmas health_run_step = run_step [of "channel_step sample_lib"]

theorem channel_refines_witness:
  "\<exists>s wk'. events_run (channel_step sample_lib) [Arrive, Serve, Serve] (channel_running sample_worker) s
     \<and> ch_worker s = Some wk' \<and> map snd (executed_pairs s) = [CmdGetLatestLedger]
     \<and> worker_loop sample_lib [CmdGetLatestLedger] sample_worker = Some (rev (map lg_reply (ch_log s)), wk')"
proof -
  obtain s1 where s1: "channel_step sample_lib Arrive (channel_running sample_worker) s1" "ch_open s1"
    "ch_worker s1 = Some sample_worker" "ch_queue s1 = []" "ch_log s1 = []"
    "ch_tasks s1 = [0 \<mapsto> health_task (Running (dispatch sample_lib health_request))]"
    by (rule health_arrive)
  obtain s2 k where s2: "channel_step sample_lib Serve s1 s2" "ch_worker s2 = Some sample_worker"
    "ch_queue s2 = [(0, CmdGetLatestLedger)]" "ch_log s2 = []"
    "ch_tasks s2 = [0 \<mapsto> health_task (Waiting CmdGetLatestLedger k)]"
    by (rule health_enqueue [OF s1(3-6)])
  obtain s3 where s3: "channel_step sample_lib Serve s2 s3" "ch_worker s3 = Some sample_worker"
    "executed_pairs s3 = [(0, CmdGetLatestLedger)]"
    by (rule health_execute [OF s2(2-5)])
  have r: "events_run (channel_step sample_lib) [Arrive, Serve, Serve] (channel_running sample_worker) s3"
    by (intro health_run_step [OF s1(1)] health_run_step [OF s2(1)] health_run_step [OF s3(1)] run_end)
  from channel_refines [OF r] r s3(2,3) show ?thesis by auto
qed


theorem no_deadlock_witness:
  "\<exists>s s'. channel_step sample_lib Arrive (channel_running sample_worker) s
     \<and> channel_step sample_lib Serve s s' \<and> channel_work s' < channel_work s"
proof -
  obtain s1 where s1: "channel_step sample_lib Arrive (channel_running sample_worker) s1" "ch_open s1"
    "ch_worker s1 = Some sample_worker" "ch_queue s1 = []" "ch_log s1 = []"
    "ch_tasks s1 = [0 \<mapsto> health_task (Running (dispatch sample_lib health_request))]"
    by (rule health_arrive)
  have r: "events_run (channel_step sample_lib) [Arrive] (channel_running sample_worker) s1"
    by (intro health_run_step [OF s1(1)] run_end)
  have "ch_tasks s1 0 = Some (health_task (Running (dispatch sample_lib health_request)))" by (simp add: s1(6))
  from no_deadlock [OF r this] s1(1) show ?thesis by (auto simp: health_task_def)
qed

theorem shutdown_drains_witness:
  "\<exists>s s'. events_run (channel_step sample_lib) [Arrive, Close] (channel_running sample_worker) s
     \<and> events_run (channel_step sample_lib) [Serve] s s' \<and> length [Serve] \<le> 20 * ch_next s"
proof -
  obtain s1 where s1: "channel_step sample_lib Arrive (channel_running sample_worker) s1" "ch_open s1"
    "ch_worker s1 = Some sample_worker" "ch_queue s1 = []" "ch_log s1 = []"
    "ch_tasks s1 = [0 \<mapsto> health_task (Running (dispatch sample_lib health_request))]"
    by (rule health_arrive)
  let ?s = "s1\<lparr>ch_open := False\<rparr>"
  have r: "events_run (channel_step sample_lib) [Arrive, Close] (channel_running sample_worker) ?s"
    by (intro health_run_step [OF s1(1)] health_run_step [OF channel_step.close [OF s1(2)]] run_end)
  have "ch_worker ?s = Some sample_worker" "ch_queue ?s = []" "ch_log ?s = []"
    "ch_tasks ?s = [0 \<mapsto> health_task (Running (dispatch sample_lib health_request))]"
    by (simp_all add: s1)
  then obtain s' k where "channel_step sample_lib Serve ?s s'" "ch_worker s' = Some sample_worker"
    "ch_queue s' = [(0, CmdGetLatestLedger)]" "ch_log s' = []"
    "ch_tasks s' = [0 \<mapsto> health_task (Waiting CmdGetLatestLedger k)]"
    by (rule health_enqueue)
  then have r': "events_run (channel_step sample_lib) [Serve] ?s s'"
    by (intro health_run_step [OF _ run_end])
  from shutdown_drains [OF r _ r'] r r' show ?thesis by auto
qed

end
