(* ===== verification/Cli.thy ===== *)
theory Cli
  imports Server
begin

text \<open>
  The command \<open>soroban-fork serve\<close>, \<open>src/bin/soroban-fork.rs\<close>: the configuration it builds from its
  arguments, the banner it prints, and the server it starts. The arguments are parsed already.
\<close>

definition default_test_accounts :: nat where "default_test_accounts = 10"

record cli_serve =
  cl_rpc :: string
  cl_listen :: string
  cl_cache :: "path option"
  cl_tracing :: bool
  cl_accounts :: nat

text \<open>What \<open>clap\<close> gives when no option is present.\<close>

definition cli_defaults :: cli_serve where
  "cli_defaults =
     \<lparr> cl_rpc = ''https://soroban-rpc.mainnet.stellar.gateway.fm'', cl_listen = ''127.0.0.1:8000'',
       cl_cache = None, cl_tracing = False, cl_accounts = default_test_accounts \<rparr>"

text \<open>\<open>None\<close> is the panic of \<open>ForkConfig::new\<close>.\<close>

definition cli_config :: "ext_lib \<Rightarrow> cli_serve \<Rightarrow> fork_config option" where
  "cli_config X args =
     map_option (\<lambda>c. let config = test_account_count (cl_accounts args) (tracing (cl_tracing args) c)
                     in case cl_cache args of None \<Rightarrow> config | Some path \<Rightarrow> cache_file path config)
       (fork_config_new X (cl_rpc args))"

text \<open>
  A balance as \<open>{xlm:.7}\<close> shows it. The code divides as \<open>f64\<close>; the fixed-point text is the same
  where the quotient is exact, as it is for the one balance that \<open>generate\<close> gives.
\<close>

definition xlm_text :: "i64 \<Rightarrow> string" where
  "xlm_text balance =
     (let n = sint balance; m = \<bar>n\<bar>; fraction = show_nat (nat (m mod 10000000))
      in (if n < 0 then ''-'' else []) @ show_nat (nat (m div 10000000)) @ ''.''
         @ replicate (7 - length fraction) CHR ''0'' @ fraction)"

definition banner_line :: "ext_lib \<Rightarrow> nat \<Rightarrow> test_account \<Rightarrow> string" where
  "banner_line X i account =
     ''('' @ show_nat i @ '') '' @ account_strkey X account @ ''  ('' @ xlm_text (ta_balance_stroops account)
     @ '' XLM)  ->  '' @ secret_key_strkey X account"

text \<open>The lines printed.\<close>

definition account_banner :: "ext_lib \<Rightarrow> nat \<Rightarrow> string \<Rightarrow> string list" where
  "account_banner X n addr =
     [''soroban-fork v'' @ server_version, ''Listening on http://'' @ addr]
     @ (if n = 0 then [''(no pre-funded test accounts; pass --accounts N to enable)'']
        else [[], ''Available test accounts:'']
          @ map (\<lambda>(i, account). banner_line X i account) (List.enumerate 0 (generate X n)) @ [[]])"

text \<open>\<open>run\<close> up to the running server: what was printed, and how the start ended.\<close>

definition cli_run ::
  "ext_lib \<Rightarrow> (bool \<Rightarrow> string option) \<Rightarrow> snapshot_io \<Rightarrow> (string \<Rightarrow> string + string) \<Rightarrow> cli_serve \<Rightarrow> fs
    \<Rightarrow> rpc_world \<Rightarrow> string list \<times> (serve_error + string \<times> server_state) option" where
  "cli_run X set_diag IO bind args files w =
     (account_banner X (cl_accounts args) (cl_listen args),
      map_option (\<lambda>config. start X set_diag IO bind (listen (cl_listen args) (server_builder_of config)) files w)
        (cli_config X args))"

lemma start_running:
  assumes "start X set_diag IO bind b files w = Inr (addr, s)"
  obtains fk where "build X set_diag IO (sb_config b) files w = Some (Inr fk)" "s = server_running (worker_start fk)"
    "bind (unwrap_or ''127.0.0.1:8000'' (sb_listen b)) = Inr addr"
proof -
  obtain wk where s: "spawn X set_diag IO (sb_config b) files w = Some (Inr wk)" "s = server_running wk"
    "bind (unwrap_or ''127.0.0.1:8000'' (sb_listen b)) = Inr addr"
    using assms by (auto simp: start_def split: option.splits sum.splits)
  then obtain fk where "build X set_diag IO (sb_config b) files w = Some (Inr fk)" "wk = worker_start fk"
    by (auto simp: spawn_def res_bind_Inr_iff)
  with s that show thesis by simp
qed

lemma cli_config_count: "cli_config X args = Some c \<Longrightarrow> cfg_test_account_count c = cl_accounts args"
  by (auto simp: cli_config_def Let_def test_account_count_def cache_file_def split: option.splits)


section \<open>At a concrete input\<close>

definition cli_args :: cli_serve where
  "cli_args = cli_defaults\<lparr>cl_rpc := ''http://rpc'', cl_accounts := 1\<rparr>"

lemma cli_args_fields: "cl_accounts cli_args = 1" "cl_listen cli_args = ''127.0.0.1:8000''"
  by (simp_all add: cli_args_def cli_defaults_def)

lemma cli_args_config:
  "\<exists>config. cli_config online_lib cli_args = Some config \<and> cfg_rpc_url config = ''http://rpc''
     \<and> cfg_cache_path config = None \<and> cfg_fetch_mode config = None \<and> cfg_network_id config = None
     \<and> cfg_pinned_ledger config = None \<and> cfg_rpc_config config = rpc_config_default
     \<and> cfg_test_account_count config = 1
     \<and> cfg_test_trustlines config = [CreditAlphanum4 (bytes_of_str ''USDC'') [1]]"
  by (simp add: cli_config_def cli_args_def cli_defaults_def fork_config_new_def usdc_mainnet_trustline_asset_def
      online_simps test_account_count_def tracing_def Let_def)

lemma cli_args_start:
  "\<exists>s. cli_run online_lib (\<lambda>_. None) sample_io Inr cli_args (\<lambda>_. None) w
     = (account_banner online_lib 1 ''127.0.0.1:8000'', Some (Inr (''127.0.0.1:8000'', s)))"
proof -
  obtain config where c: "cli_config online_lib cli_args = Some config" and f: "cfg_rpc_url config = ''http://rpc''"
    "cfg_cache_path config = None" "cfg_fetch_mode config = None" "cfg_network_id config = None"
    "cfg_pinned_ledger config = None" "cfg_rpc_config config = rpc_config_default" "cfg_test_account_count config = 1"
    "cfg_test_trustlines config = [CreditAlphanum4 (bytes_of_str ''USDC'') [1]]"
    using cli_args_config by blast
  obtain i w' where n: "resolve_network online_lib config online_client (w\<lparr>w_sent := Suc (Suc (w_sent w))\<rparr>)
      = Some (Inr (i, Some ''net''), w')"
    using online_network [OF refl f(4)] by blast
  have cl: "rpc_client_new online_lib ''http://rpc'' rpc_config_default = Inr online_client"
    by (simp add: rpc_client_new_def online_simps online_client_def)
  have "\<exists>fk. build online_lib (\<lambda>_. None) sample_io config (\<lambda>_. None) w = Some (Inr fk)"
    using online_encode unfolding online_account_def online_line_def
    by (simp add: build_def cl build_source_fresh f online_ledger n Let_def online_generate test_preloads_def
        account_preloads_def case_prod_beta)
  then show ?thesis
    by (auto simp: cli_run_def c cli_args_fields start_def spawn_def listen_def server_builder_of_def)
qed


end
