(* ===== verification/Lifecycle.thy ===== *)
theory Lifecycle
  imports Channel Cli
begin

text \<open>
  The server process from its start to its end: \<open>RunningServer\<close> of \<open>src/server/mod.rs\<close>, the
  worker thread of \<open>src/server/actor.rs\<close> after its last command, \<open>Drop\<close> of \<open>ForkedEnv\<close> and the
  end of \<open>main\<close> in \<open>src/bin/soroban-fork.rs\<close>. The channel's steps go on inside. What \<open>Channel\<close>
  leaves open is when the server closes, and what happens to the cache file: the worker thread
  drops its fork, and so saves it, once every sender of its channel is gone, that is when the
  serve task has ended; the process ends when \<open>main\<close> returns, and nothing joins the thread.
\<close>

section \<open>Starting and waiting\<close>

datatype 'a poll = Pending | Ready 'a

datatype os_signal = SigInt | SigTerm

text \<open>\<open>shutdown_signal\<close>, on the signals delivered so far: Ctrl-C anywhere, SIGTERM on Unix only.\<close>

definition shutdown_signal :: "bool \<Rightarrow> os_signal list \<Rightarrow> os_signal poll" where
  "shutdown_signal unix delivered =
     (case find (\<lambda>g. g = SigInt \<or> unix) delivered of None \<Rightarrow> Pending | Some g \<Rightarrow> Ready g)"

text \<open>
  \<open>run_until_signal\<close> waits for the signal first, and then for the serve task, on what it is joined with
  once it has ended; \<open>serve\<close> starts and waits. The exit code of the command line comes with the
  message it logs.
\<close>

definition run_until_signal ::
  "bool \<Rightarrow> os_signal list \<Rightarrow> (string + (string + unit)) poll \<Rightarrow> (serve_error + unit) poll" where
  "run_until_signal unix delivered joined =
     (case shutdown_signal unix delivered of
        Pending \<Rightarrow> Pending
      | Ready _ \<Rightarrow> map_poll join_server joined)"

definition serve ::
  "ext_lib \<Rightarrow> (bool \<Rightarrow> string option) \<Rightarrow> snapshot_io \<Rightarrow> (string \<Rightarrow> string + string) \<Rightarrow> server_builder \<Rightarrow> fs
    \<Rightarrow> rpc_world \<Rightarrow> bool \<Rightarrow> os_signal list \<Rightarrow> (string + (string + unit)) poll \<Rightarrow> (serve_error + unit) poll" where
  "serve X set_diag IO bind b files w unix delivered joined =
     (case start X set_diag IO bind b files w of
        Inl e \<Rightarrow> Ready (Inl e)
      | Inr running \<Rightarrow> run_until_signal unix delivered joined)"

definition cli_exit :: "serve_error + unit \<Rightarrow> nat \<times> string option" where
  "cli_exit r = (case r of Inr _ \<Rightarrow> (0, None) | Inl e \<Rightarrow> (1, Some (show_serve_error e)))"

text \<open>\<open>run\<close>, and \<open>main\<close>: \<open>None\<close> is the panic of \<open>ForkConfig::new\<close>. \<open>Cli::parse\<close> is the argument
  \<open>clap\<close>: the arguments of \<open>serve\<close>, or the code of the exit it makes itself (help, a usage error).\<close>

definition cli_main ::
  "ext_lib \<Rightarrow> (bool \<Rightarrow> string option) \<Rightarrow> snapshot_io \<Rightarrow> (string \<Rightarrow> string + string) \<Rightarrow> cli_serve \<Rightarrow> fs
    \<Rightarrow> rpc_world \<Rightarrow> bool \<Rightarrow> os_signal list \<Rightarrow> (string + (string + unit)) poll
    \<Rightarrow> (nat \<times> string option) poll option" where
  "cli_main X set_diag IO bind args files w unix delivered joined =
     map_option (\<lambda>config. map_poll cli_exit
         (serve X set_diag IO bind (listen (cl_listen args) (server_builder_of config)) files w unix delivered joined))
       (cli_config X args)"

definition main_program ::
  "(string list \<Rightarrow> nat + cli_serve) \<Rightarrow> ext_lib \<Rightarrow> (bool \<Rightarrow> string option) \<Rightarrow> snapshot_io \<Rightarrow> (string \<Rightarrow> string + string)
    \<Rightarrow> string list \<Rightarrow> fs \<Rightarrow> rpc_world \<Rightarrow> bool \<Rightarrow> os_signal list \<Rightarrow> (string + (string + unit)) poll
    \<Rightarrow> (nat \<times> string option) poll option" where
  "main_program clap X set_diag IO bind argv files w unix delivered joined =
     (case clap argv of
        Inl code \<Rightarrow> Some (Ready (code, None))
      | Inr args \<Rightarrow> cli_main X set_diag IO bind args files w unix delivered joined)"

lemma join_server_ok: "join_server joined = Inr u \<longleftrightarrow> joined = Inr (Inr ())"
  by (auto simp: join_server_def res_bind_Inr_iff map_err_Inr_iff)

lemma poll_Ready_iff:
  "map_poll f p = Ready b \<longleftrightarrow> (\<exists>a. p = Ready a \<and> f a = b)" "map_poll f p = Pending \<longleftrightarrow> p = Pending"
  by (cases p; auto)+

lemma run_until_signal_ready:
  "run_until_signal unix delivered joined = Ready r \<longleftrightarrow>
     shutdown_signal unix delivered \<noteq> Pending \<and> (\<exists>j. joined = Ready j \<and> join_server j = r)"
  by (auto simp: run_until_signal_def poll_Ready_iff split: poll.split)

lemma cli_main_ok:
  "cli_main X set_diag IO bind args files w unix delivered joined = Some (Ready (0, m)) \<longleftrightarrow>
     m = None \<and> joined = Ready (Inr (Inr ())) \<and> shutdown_signal unix delivered \<noteq> Pending
     \<and> (\<exists>printed running. cli_run X set_diag IO bind args files w = (printed, Some (Inr running)))"
proof (cases "cli_config X args")
  case (Some config)
  have e: "cli_exit r = (0, m) \<longleftrightarrow> r = Inr () \<and> m = None" for r
    by (auto simp: cli_exit_def split: sum.splits)
  show ?thesis
    by (cases "start X set_diag IO bind (listen (cl_listen args) (server_builder_of config)) files w")
       (auto simp: cli_main_def cli_run_def serve_def Some poll_Ready_iff e run_until_signal_ready join_server_ok)
qed (simp add: cli_main_def cli_run_def)

text \<open>
  A process whose server has started goes on until a signal comes, whatever has become of the serve
  task: its error is not looked at before.
\<close>

lemma main_waits_for_signal:
  assumes "clap argv = Inr args" "cli_run X set_diag IO bind args files w = (printed, Some (Inr running))"
    "shutdown_signal unix delivered = Pending"
  shows "main_program clap X set_diag IO bind argv files w unix delivered joined = Some Pending"
  using assms by (auto simp: main_program_def cli_main_def cli_run_def serve_def run_until_signal_def)

section \<open>The process\<close>

text \<open>The sender of the shutdown channel. Its receiver is woken by a value and by its drop alike,
  and the code throws the result away.\<close>

datatype shutdown_handle = Held | Sent | Dropped

text \<open>The worker thread: it takes commands, writes the file systems still to come of its save, or
  has ended.\<close>

datatype worker_phase = Receiving | Saving "fs list" | Exited

record process_state =
  pr_channel :: channel_state
  pr_handle :: shutdown_handle
  pr_serving :: bool                 \<comment> \<open>the serve task has not ended\<close>
  pr_phase :: worker_phase
  pr_files :: fs
  pr_alive :: bool

definition process_running :: "worker \<Rightarrow> fs \<Rightarrow> process_state" where
  "process_running wk files =
     \<lparr> pr_channel = channel_running wk, pr_handle = Held, pr_serving = True, pr_phase = Receiving,
       pr_files = files, pr_alive = True \<rparr>"

text \<open>No connection is open any more: axum's graceful shutdown waits for that.\<close>

definition served_all :: "channel_state \<Rightarrow> bool" where
  "served_all ch \<longleftrightarrow> \<not> ch_open ch \<and> (\<forall>n t. ch_tasks ch n = Some t \<longrightarrow> \<not> tk_connected t)"

text \<open>
  \<open>finish\<close> is the worker's \<open>drop(env)\<close> after its last command. In \<open>unwind\<close> a command has panicked, and
  the fork is dropped as far as the command got with it; a second panic there, as from the poisoned
  mutex, aborts the process. \<open>exit\<close> is the return of \<open>main\<close>.
\<close>

datatype process_event = Signal | Release | Work channel_event | Served | Finish | Write | Unwind | Exit

inductive process_step :: "ext_lib \<Rightarrow> snapshot_io \<Rightarrow> path option \<Rightarrow> process_event
    \<Rightarrow> process_state \<Rightarrow> process_state \<Rightarrow> bool" for X IO cache where
  signal:
    "pr_alive s \<Longrightarrow> pr_handle s = Held \<Longrightarrow> process_step X IO cache Signal s (s\<lparr>pr_handle := Sent\<rparr>)"
| release:
    "pr_alive s \<Longrightarrow> pr_handle s = Held \<Longrightarrow> process_step X IO cache Release s (s\<lparr>pr_handle := Dropped\<rparr>)"
| work:
    "pr_alive s \<Longrightarrow> channel_step X e (pr_channel s) ch \<Longrightarrow> e = Close \<longrightarrow> pr_handle s \<noteq> Held \<Longrightarrow>
     process_step X IO cache (Work e) s (s\<lparr>pr_channel := ch\<rparr>)"
| served:
    "pr_alive s \<Longrightarrow> pr_serving s \<Longrightarrow> served_all (pr_channel s) \<Longrightarrow>
     process_step X IO cache Served s (s\<lparr>pr_serving := False\<rparr>)"
| finish:
    "pr_alive s \<Longrightarrow> \<not> pr_serving s \<Longrightarrow> pr_phase s = Receiving \<Longrightarrow> ch_queue (pr_channel s) = [] \<Longrightarrow>
     ch_worker (pr_channel s) = Some wk \<Longrightarrow> drop_fork X IO (wk_env wk) (pr_files s) = Some states \<Longrightarrow>
     process_step X IO cache Finish s (s\<lparr>pr_phase := Saving states\<rparr>)"
| finish_panic:
    "pr_alive s \<Longrightarrow> \<not> pr_serving s \<Longrightarrow> pr_phase s = Receiving \<Longrightarrow> ch_queue (pr_channel s) = [] \<Longrightarrow>
     ch_worker (pr_channel s) = Some wk \<Longrightarrow> drop_fork X IO (wk_env wk) (pr_files s) = None \<Longrightarrow>
     process_step X IO cache Finish s (s\<lparr>pr_phase := Exited\<rparr>)"
| store:
    "pr_alive s \<Longrightarrow> pr_phase s = Saving (f # fs) \<Longrightarrow>
     process_step X IO cache Write s (s\<lparr>pr_files := f, pr_phase := Saving fs\<rparr>)"
| stored:
    "pr_alive s \<Longrightarrow> pr_phase s = Saving [] \<Longrightarrow>
     process_step X IO cache Write s (s\<lparr>pr_phase := Exited\<rparr>)"
| unwind:
    "pr_alive s \<Longrightarrow> pr_phase s = Receiving \<Longrightarrow> ch_worker (pr_channel s) = None \<Longrightarrow> fk_cache_path fk = cache \<Longrightarrow>
     drop_fork X IO fk (pr_files s) = Some states \<Longrightarrow>
     process_step X IO cache Unwind s (s\<lparr>pr_phase := Saving states\<rparr>)"
| unwind_abort:
    "pr_alive s \<Longrightarrow> pr_phase s = Receiving \<Longrightarrow> ch_worker (pr_channel s) = None \<Longrightarrow>
     process_step X IO cache Unwind s (s\<lparr>pr_alive := False\<rparr>)"
| exit:
    "pr_alive s \<Longrightarrow> \<not> pr_serving s \<Longrightarrow> process_step X IO cache Exit s (s\<lparr>pr_alive := False\<rparr>)"

inductive_cases process_stepE: "process_step X IO cache e s s'"

definition process_run ::
  "ext_lib \<Rightarrow> snapshot_io \<Rightarrow> worker \<Rightarrow> fs \<Rightarrow> process_event list \<Rightarrow> process_state \<Rightarrow> bool" where
  "process_run X IO wk files es s \<longleftrightarrow>
     events_run (process_step X IO (fk_cache_path (wk_env wk))) es (process_running wk files) s"

section \<open>The channel inside the process\<close>

lemma process_channel:
  "process_step X IO cache e s s' \<Longrightarrow>
     (\<exists>ce. channel_step X ce (pr_channel s) (pr_channel s')) \<or> pr_channel s' = pr_channel s"
  by (induction rule: process_step.induct) auto

interpretation proc: simulation "\<lambda>s s'. \<exists>e. process_step X IO cache e s s'" "\<lambda>c c'. \<exists>e. channel_step X e c c'" pr_channel
  for X IO cache
  by unfold_locales (blast dest: process_channel)

lemma star_run: "(\<lambda>a b. \<exists>e. step e a b)\<^sup>*\<^sup>* s s' \<Longrightarrow> \<exists>es. events_run step es s s'"
proof (induction rule: converse_rtranclp_induct)
  case base
  show ?case by (rule exI, rule run_end)
next
  case (step y z)
  then obtain e es where "step e y z" "events_run step es z s'" by blast
  then have "events_run step (e # es) y s'" by (rule run_step)
  then show ?case ..
qed

lemma process_run_channel:
  assumes "process_run X IO wk files es s"
  shows "\<exists>ces. events_run (channel_step X) ces (channel_running wk) (pr_channel s)"
proof -
  from assms have "events_run (process_step X IO (fk_cache_path (wk_env wk))) es (process_running wk files) s"
    by (simp add: process_run_def)
  from star_run [OF proc.simulates_run [OF run_star [OF this]]] show ?thesis by (simp add: process_running_def)
qed

lemma run_snoc: "events_run step es a b \<Longrightarrow> step e b c \<Longrightarrow> events_run step (es @ [e]) a c"
  by (induction rule: events_run.induct) (simp_all add: run_step run_end)

lemma process_run_start: "process_run X IO wk files [] (process_running wk files)"
  unfolding process_run_def by (rule run_end)

lemma process_run_step:
  "process_run X IO wk files es s \<Longrightarrow> process_step X IO (fk_cache_path (wk_env wk)) e s s' \<Longrightarrow>
     process_run X IO wk files (es @ [e]) s'"
  unfolding process_run_def by (rule run_snoc)

text \<open>When the serve task has ended and the queue is empty, the channel rests.\<close>

lemma served_rests:
  assumes "served_all ch" "ch_queue ch = []"
  shows "\<not> channel_step X e ch ch'"
proof
  assume "channel_step X e ch ch'"
  then show False by (cases rule: channel_step.cases) (use assms in \<open>auto simp: served_all_def\<close>)
qed

lemma served_stays: "channel_step X e ch ch' \<Longrightarrow> served_all ch \<Longrightarrow> served_all ch'"
  by (induction rule: channel_step.induct) (auto simp: served_all_def set_task_def)

section \<open>The worker keeps its cache path\<close>

lemma worker_step_cache_path:
  "worker_step X c wk = Some (r, wk') \<Longrightarrow> fk_cache_path (wk_env wk') = fk_cache_path (wk_env wk)"
  by (drule worker_step_keeps) (simp add: fork_const_def)

lemma channel_cache_path:
  "channel_step X e ch ch' \<Longrightarrow> ch_worker ch' = Some wk \<Longrightarrow>
     \<exists>wk0. ch_worker ch = Some wk0 \<and> fk_cache_path (wk_env wk) = fk_cache_path (wk_env wk0)"
  by (induction rule: channel_step.induct) (auto simp: worker_step_cache_path)

lemma channel_worker_gone: "channel_step X e ch ch' \<Longrightarrow> ch_worker ch = None \<Longrightarrow> ch_worker ch' = None"
  by (induction rule: channel_step.induct) auto
section \<open>The cache file\<close>

text \<open>What a save may leave of the files it found: all of it, but for the cache file, which is as
  it was or a readable snapshot, and the temporary file beside it.\<close>

definition kept :: "snapshot_io \<Rightarrow> path option \<Rightarrow> fs \<Rightarrow> fs \<Rightarrow> bool" where
  "kept IO cache files f \<longleftrightarrow>
     (case cache of
        None \<Rightarrow> f = files
      | Some path \<Rightarrow>
          (f path = files path \<or> (\<exists>snapshot. io_read IO (f path) = Inr snapshot))
          \<and> (\<forall>p. p \<noteq> path \<and> p \<noteq> tmp_sibling IO path \<longrightarrow> f p = files p))"

lemma kept_refl [simp]: "kept IO cache files files"
  by (simp add: kept_def split: option.split)

lemma drop_fork_kept:
  assumes "write_ok IO" "drop_fork X IO fk files = Some states" "f \<in> set states"
  shows "kept IO (fk_cache_path fk) files f"
proof (cases "fk_cache_path fk")
  case None
  with assms show ?thesis by (auto simp: drop_fork_def save_cache_def kept_def)
next
  case (Some path)
  with assms(2) obtain r where "do_save_cache X IO (fk_source fk) path (fk_ledger_sequence fk) (fk_timestamp fk)
      (fk_network_id fk) (fk_protocol_version fk) files = Some (r, states)"
    by (auto simp: drop_fork_def save_cache_def)
  then consider "states = [files]"
    | es where "save_snapshot IO path es (fk_ledger_sequence fk) (fk_timestamp fk) (fk_network_id fk)
        (fk_protocol_version fk) files = (r, states)"
    by (auto simp: do_save_cache_def split: option.splits list.splits)
  then show ?thesis
  proof cases
    case 1
    with assms(3) show ?thesis by simp
  next
    case (2 es)
    from save_snapshot_atomic [OF assms(1) 2 assms(3)] Some show ?thesis by (auto simp: kept_def)
  qed
qed

section \<open>The invariant\<close>

text \<open>What holds of the process at every moment, from the files \<open>files0\<close> it found.\<close>

fun phase_ok :: "snapshot_io \<Rightarrow> path option \<Rightarrow> fs \<Rightarrow> process_state \<Rightarrow> worker_phase \<Rightarrow> bool" where
  "phase_ok IO cache files0 s Receiving = (pr_files s = files0)"
| "phase_ok IO cache files0 s (Saving fs) =
     (ch_queue (pr_channel s) = [] \<and> (ch_worker (pr_channel s) \<noteq> None \<longrightarrow> \<not> pr_serving s)
      \<and> (write_ok IO \<longrightarrow> kept IO cache files0 (pr_files s) \<and> (\<forall>f \<in> set fs. kept IO cache files0 f)))"
| "phase_ok IO cache files0 s Exited =
     (ch_queue (pr_channel s) = [] \<and> (ch_worker (pr_channel s) \<noteq> None \<longrightarrow> \<not> pr_serving s)
      \<and> (write_ok IO \<longrightarrow> kept IO cache files0 (pr_files s)))"

definition process_ok :: "snapshot_io \<Rightarrow> path option \<Rightarrow> fs \<Rightarrow> process_state \<Rightarrow> bool" where
  "process_ok IO cache files0 s \<longleftrightarrow>
     channel_ok (pr_channel s)
     \<and> (ch_open (pr_channel s) \<or> pr_handle s \<noteq> Held)
     \<and> (pr_serving s \<or> served_all (pr_channel s))
     \<and> (\<forall>wk. ch_worker (pr_channel s) = Some wk \<longrightarrow> fk_cache_path (wk_env wk) = cache)
     \<and> phase_ok IO cache files0 s (pr_phase s)"

lemma channel_ok_closes:
  "channel_step X e ch ch' \<Longrightarrow> \<not> ch_open ch' \<Longrightarrow> \<not> ch_open ch \<or> e = Close"
  by (induction rule: channel_step.induct) (auto simp: set_task_def)

lemma dead_queue_empty: "channel_ok ch \<Longrightarrow> ch_worker ch = None \<Longrightarrow> ch_queue ch = []"
  unfolding channel_ok_def queue_ok_def by (metis list.set_intros(1) neq_Nil_conv surj_pair)

lemma phase_ok_channel:
  assumes "phase_ok IO cache files0 s (pr_phase s)" "channel_step X e (pr_channel s) ch" "channel_ok ch"
    "pr_serving s \<or> served_all (pr_channel s)"
  shows "phase_ok IO cache files0 (s\<lparr>pr_channel := ch\<rparr>) (pr_phase s)"
proof -
  have "ch_worker (pr_channel s) = None" if "pr_phase s \<noteq> Receiving"
    using that assms(1,2,4) served_rests [of "pr_channel s"] by (cases "pr_phase s") auto
  then have "ch_worker ch = None \<and> ch_queue ch = []" if "pr_phase s \<noteq> Receiving"
    using that channel_worker_gone [OF assms(2)] dead_queue_empty [OF assms(3)] by blast
  then show ?thesis using assms(1) by (cases "pr_phase s") auto
qed

lemma process_ok_step:
  "process_ok IO cache files0 s \<Longrightarrow> process_step X IO cache e s s' \<Longrightarrow> process_ok IO cache files0 s'"
proof (erule process_step.cases, goal_cases)
  case (3 s0 ce ch)
  have ok: "channel_ok ch" using 3 channel_ok_step unfolding process_ok_def by blast
  have ph: "phase_ok IO cache files0 (s\<lparr>pr_channel := ch\<rparr>) (pr_phase s)"
    using 3 ok unfolding process_ok_def by (intro phase_ok_channel) auto
  have "fk_cache_path (wk_env wk) = cache" if "ch_worker ch = Some wk" for wk
    using 3 channel_cache_path [OF _ that, of X ce "pr_channel s"] unfolding process_ok_def by auto
  with 3 ok ph show ?case
    unfolding process_ok_def by (auto dest: channel_ok_closes served_stays)
next
  case (5 s0 wk states)
  then show ?case
    using drop_fork_kept unfolding process_ok_def by fastforce
next
  case (9 s0 fk states)
  then show ?case
    using drop_fork_kept dead_queue_empty unfolding process_ok_def by fastforce
qed (auto simp: process_ok_def elim!: phase_ok.elims)

interpretation pr: preserved "process_step X IO cache" "process_ok IO cache files0" for X IO cache files0
  by unfold_locales (rule process_ok_step)

lemma process_ok_running: "process_ok IO (fk_cache_path (wk_env wk)) files (process_running wk files)"
  using channel_ok_running [of wk]
  by (simp add: process_ok_def process_running_def) (simp add: channel_running_def)

lemma process_run_ok: "process_run X IO wk files es s \<Longrightarrow> process_ok IO (fk_cache_path (wk_env wk)) files s"
  unfolding process_run_def by (rule pr.inv_run [OF _ process_ok_running])

text \<open>The save of a worker that lives is on its way through the file systems of its \<open>drop_fork\<close>.\<close>

fun save_phase :: "ext_lib \<Rightarrow> snapshot_io \<Rightarrow> fs \<Rightarrow> worker \<Rightarrow> fs \<Rightarrow> worker_phase \<Rightarrow> bool" where
  "save_phase X IO files0 wk files Receiving = True"
| "save_phase X IO files0 wk files (Saving fs) =
     (\<exists>before. drop_fork X IO (wk_env wk) files0 = Some (before @ fs) \<and> files = last (files0 # before))"
| "save_phase X IO files0 wk files Exited =
     (\<forall>states. drop_fork X IO (wk_env wk) files0 = Some states \<longrightarrow> files = last (files0 # states))"

definition save_ok :: "ext_lib \<Rightarrow> snapshot_io \<Rightarrow> path option \<Rightarrow> fs \<Rightarrow> process_state \<Rightarrow> bool" where
  "save_ok X IO cache files0 s \<longleftrightarrow>
     process_ok IO cache files0 s
     \<and> (\<forall>wk. ch_worker (pr_channel s) = Some wk \<longrightarrow> save_phase X IO files0 wk (pr_files s) (pr_phase s))"

lemma saving_rests:
  assumes "process_ok IO cache files0 s" "ch_worker (pr_channel s) = Some wk" "pr_phase s \<noteq> Receiving"
  shows "\<not> channel_step X e (pr_channel s) ch"
proof (rule served_rests)
  have "phase_ok IO cache files0 s (pr_phase s)" "pr_serving s \<or> served_all (pr_channel s)"
    using assms(1) by (simp_all add: process_ok_def)
  then show "served_all (pr_channel s)" "ch_queue (pr_channel s) = []"
    using assms(2,3) by (cases "pr_phase s"; simp)+
qed

lemma save_ok_step: "save_ok X IO cache files0 s \<Longrightarrow> process_step X IO cache e s s' \<Longrightarrow> save_ok X IO cache files0 s'"
proof -
  assume s: "save_ok X IO cache files0 s" and st: "process_step X IO cache e s s'"
  have ok: "process_ok IO cache files0 s" "process_ok IO cache files0 s'"
    using s st process_ok_step by (auto simp: save_ok_def)
  have "save_phase X IO files0 wk (pr_files s') (pr_phase s')" if w: "ch_worker (pr_channel s') = Some wk" for wk
    using st
  proof (cases rule: process_step.cases)
    case (work ce ch)
    then obtain wk0 where "ch_worker (pr_channel s) = Some wk0" using w channel_cache_path by fastforce
    with saving_rests [OF ok(1) this] work have "pr_phase s = Receiving" by blast
    with work show ?thesis by simp
  next
    case (finish wk states)
    with ok(1) w show ?thesis by (auto simp: process_ok_def intro!: exI [of _ "[]"])
  next
    case (finish_panic wk)
    with ok(1) w show ?thesis by (auto simp: process_ok_def)
  next
    case (store f fs)
    with s w obtain before where "drop_fork X IO (wk_env wk) files0 = Some (before @ f # fs)"
      by (auto simp: save_ok_def)
    with store show ?thesis by (auto intro!: exI [of _ "before @ [f]"])
  next
    case stored
    with s w show ?thesis by (auto simp: save_ok_def)
  qed (use s w in \<open>auto simp: save_ok_def\<close>)
  with ok(2) show ?thesis by (simp add: save_ok_def)
qed

interpretation sv: preserved "process_step X IO cache" "save_ok X IO cache files0" for X IO cache files0
  by unfold_locales (rule save_ok_step)

lemma process_run_save_ok:
  assumes "process_run X IO wk files es s"
  shows "save_ok X IO (fk_cache_path (wk_env wk)) files s"
proof -
  have "save_ok X IO (fk_cache_path (wk_env wk)) files (process_running wk files)"
    using process_ok_running [of IO wk files] by (simp add: save_ok_def) (simp add: process_running_def)
  with assms show ?thesis unfolding process_run_def by (rule sv.inv_run)
qed
text \<open>The files a worker that ended in order leaves.\<close>

lemma exited_saved:
  assumes "write_ok IO" "io_rename_error IO = None" "process_run X IO wk files es s"
    "fk_cache_path (wk_env wk) = Some path" "pr_phase s = Exited" "ch_worker (pr_channel s) = Some wk'"
    "entries X (fk_source (wk_env wk')) = Some known_entries" "known_entries \<noteq> []"
    "snd (io_write IO (make_snapshot known_entries (fk_ledger_sequence (wk_env wk')) (fk_timestamp (wk_env wk'))
       (fk_network_id (wk_env wk')) (fk_protocol_version (wk_env wk')))) = None"
  shows "load_snapshot IO path (pr_files s) = Inr known_entries" "pr_files s path \<noteq> None"
proof -
  let ?fk = "wk_env wk'"
  have ok: "save_ok X IO (Some path) files s" using process_run_save_ok [OF assms(3)] assms(4) by simp
  then have c: "fk_cache_path ?fk = Some path"
    using assms(5,6) by (simp add: save_ok_def process_ok_def)
  obtain states where sv: "save_snapshot IO path known_entries (fk_ledger_sequence ?fk) (fk_timestamp ?fk)
      (fk_network_id ?fk) (fk_protocol_version ?fk) files = (Inr (), states)"
    using assms(2,9) by (cases "io_write IO (make_snapshot known_entries (fk_ledger_sequence ?fk)
      (fk_timestamp ?fk) (fk_network_id ?fk) (fk_protocol_version ?fk))") (simp add: save_snapshot_def Let_def)
  then have "drop_fork X IO ?fk files = Some states"
    using assms(7,8) c by (simp add: drop_fork_def save_cache_def do_save_cache_def) (auto split: list.split)
  moreover have "states \<noteq> []" using sv by (auto simp: save_snapshot_def Let_def split: prod.splits option.splits)
  ultimately have "pr_files s = last states" using ok assms(5,6) by (simp add: save_ok_def)
  then show "load_snapshot IO path (pr_files s) = Inr known_entries" "pr_files s path \<noteq> None"
    using save_then_load [OF assms(1) sv] save_then_exists [OF assms(1) sv] by simp_all
qed

section \<open>An idle server shuts down\<close>

definition idle_signalled :: "worker \<Rightarrow> fs \<Rightarrow> process_state" where
  "idle_signalled wk files = (process_running wk files)\<lparr>pr_handle := Sent\<rparr>"

lemma idle_signal: "process_run X IO wk files [Signal] (idle_signalled wk files)"
proof -
  have "process_step X IO c Signal (process_running wk files) (idle_signalled wk files)" for c
    unfolding idle_signalled_def by (rule process_step.signal) (simp_all add: process_running_def)
  from process_run_step [OF process_run_start this] show ?thesis by simp
qed

lemma idle_signalled_fields:
  "pr_alive (idle_signalled wk files)" "pr_phase (idle_signalled wk files) = Receiving"
  "pr_handle (idle_signalled wk files) = Sent" "pr_channel (idle_signalled wk files) = channel_running wk"
  "pr_serving (idle_signalled wk files)" "pr_files (idle_signalled wk files) = files"
  by (simp_all add: idle_signalled_def process_running_def)

lemma fresh_channel:
  "ch_tasks (channel_running wk) n = None" "ch_open (channel_running wk)" "ch_queue (channel_running wk) = []"
  "ch_worker (channel_running wk) = Some wk"
  by (simp_all add: channel_running_def)

definition idle_stopped :: "worker \<Rightarrow> fs \<Rightarrow> process_state" where
  "idle_stopped wk files = (idle_signalled wk files)
     \<lparr>pr_channel := (channel_running wk)\<lparr>ch_open := False\<rparr>, pr_serving := False\<rparr>"

lemma idle_stop: "process_run X IO wk files [Signal, Work Close, Served] (idle_stopped wk files)"
proof -
  let ?s = "(idle_signalled wk files)\<lparr>pr_channel := (channel_running wk)\<lparr>ch_open := False\<rparr>\<rparr>"
  have 1: "process_step X IO c (Work Close) (idle_signalled wk files) ?s" for c
    using process_step.work [of "idle_signalled wk files" X Close _ IO c]
      channel_step.close [of "channel_running wk" X]
    by (simp add: idle_signalled_fields fresh_channel)
  have 2: "process_step X IO c Served ?s (idle_stopped wk files)" for c
    using process_step.served [of ?s X IO c]
    by (simp add: idle_stopped_def idle_signalled_fields served_all_def fresh_channel)
  from process_run_step [OF process_run_step [OF idle_signal 1] 2] show ?thesis by simp
qed

lemma write_run:
  "process_run X IO wk files es s \<Longrightarrow> pr_alive s \<Longrightarrow> pr_phase s = Saving fs \<Longrightarrow>
     \<exists>s'. process_run X IO wk files (es @ replicate (Suc (length fs)) Write) s' \<and> pr_phase s' = Exited
       \<and> pr_channel s' = pr_channel s"
proof (induction fs arbitrary: es s)
  case Nil
  then show ?case by (fastforce intro: process_run_step process_step.stored)
next
  case (Cons f fs)
  from Cons.IH [OF process_run_step [OF Cons.prems(1) process_step.store [OF Cons.prems(2,3)]]] Cons.prems(2)
  show ?case by simp
qed

lemma idle_finish:
  assumes "drop_fork X IO (wk_env wk) files = Some fs"
  shows "\<exists>s. process_run X IO wk files [Signal, Work Close, Served, Finish] s \<and> pr_alive s
     \<and> pr_phase s = Saving fs \<and> ch_worker (pr_channel s) = Some wk"
proof -
  have "process_step X IO c Finish (idle_stopped wk files) ((idle_stopped wk files)\<lparr>pr_phase := Saving fs\<rparr>)" for c
    by (rule process_step.finish [where wk = wk])
       (simp_all add: idle_stopped_def idle_signalled_fields fresh_channel assms)
  from process_run_step [OF idle_stop this] show ?thesis
    by (intro exI conjI) (assumption | simp add: idle_stopped_def idle_signalled_fields fresh_channel)+
qed

lemma idle_exited:
  assumes "drop_fork X IO (wk_env wk) files = Some fs"
  shows "\<exists>s es. process_run X IO wk files es s \<and> pr_phase s = Exited \<and> ch_worker (pr_channel s) = Some wk"
  using idle_finish [OF assms] write_run by metis

section \<open>Properties\<close>

text \<open>
  C10: The cache file is never torn: whenever the process stops, through a crash, a panic of the
  worker, or \<open>main\<close> returning while the worker thread writes, the file is what it was at the start
  or a complete snapshot that loads, and of all other files only the temporary one beside it may
  differ. Until the worker ends nothing is written at all.
\<close>

theorem cache_never_torn:
  assumes "write_ok IO" "process_run X IO wk files es s" "fk_cache_path (wk_env wk) = Some path"
  shows "(pr_files s path = files path \<or> (\<exists>entries. load_snapshot IO path (pr_files s) = Inr entries))
    \<and> (\<forall>p. p \<noteq> path \<and> p \<noteq> tmp_sibling IO path \<longrightarrow> pr_files s p = files p)
    \<and> (pr_phase s = Receiving \<longrightarrow> pr_files s = files)"
proof -
  have ph: "phase_ok IO (Some path) files s (pr_phase s)"
    using process_run_ok [OF assms(2)] assms(3) by (simp add: process_ok_def)
  then have "kept IO (Some path) files (pr_files s)" using assms(1) by (cases "pr_phase s") auto
  then show ?thesis using ph by (auto simp: kept_def load_snapshot_def)
qed

text \<open>
  C32: The save on shutdown can be lost: nothing joins the worker thread, so once no client is
  connected and the server has been told to stop, the process can end with the cache file as it was
  at the start, whatever the worker has learnt, before the thread has begun to write.
\<close>

theorem exit_may_lose_cache:
  assumes "process_run X IO wk files es s" "pr_alive s" "pr_phase s = Receiving"
    "\<forall>n t. ch_tasks (pr_channel s) n = Some t \<longrightarrow> \<not> tk_connected t"
    "ch_open (pr_channel s)" "pr_handle s \<noteq> Held"
  shows "\<exists>s'. process_run X IO wk files (es @ [Work Close, Served, Exit]) s'
    \<and> \<not> pr_alive s' \<and> pr_files s' = files \<and> ch_worker (pr_channel s') = ch_worker (pr_channel s)"
proof -
  let ?c = "fk_cache_path (wk_env wk)" and ?ch = "(pr_channel s)\<lparr>ch_open := False\<rparr>"
  have ok: "process_ok IO ?c files s" by (rule process_run_ok [OF assms(1)])
  then have f: "pr_files s = files" using assms(3) by (simp add: process_ok_def)
  have srv: "pr_serving s" using ok assms(5) by (auto simp: process_ok_def served_all_def)
  have 1: "process_step X IO ?c (Work Close) s (s\<lparr>pr_channel := ?ch\<rparr>)"
    using assms(2,6) channel_step.close [OF assms(5)] by (auto intro: process_step.work)
  have 2: "process_step X IO ?c Served (s\<lparr>pr_channel := ?ch\<rparr>) (s\<lparr>pr_channel := ?ch, pr_serving := False\<rparr>)"
    using process_step.served [of "s\<lparr>pr_channel := ?ch\<rparr>" X IO ?c] assms(2,4) srv by (simp add: served_all_def)
  have 3: "process_step X IO ?c Exit (s\<lparr>pr_channel := ?ch, pr_serving := False\<rparr>)
      (s\<lparr>pr_channel := ?ch, pr_serving := False, pr_alive := False\<rparr>)"
    using process_step.exit [of "s\<lparr>pr_channel := ?ch, pr_serving := False\<rparr>" X IO ?c] assms(2) by simp
  have "process_run X IO wk files (((es @ [Work Close]) @ [Served]) @ [Exit])
      (s\<lparr>pr_channel := ?ch, pr_serving := False, pr_alive := False\<rparr>)"
    by (intro process_run_step [OF _ 3] process_run_step [OF _ 2] process_run_step [OF _ 1] assms(1))
  then show ?thesis using f by (intro exI [of _ "s\<lparr>pr_channel := ?ch, pr_serving := False, pr_alive := False\<rparr>"]) simp
qed

text \<open>
  The server stops accepting requests when it has been told to or its handle is gone, and only
  then: as long as the handle is held it is open, and the drop of the handle alone lets it close.
\<close>

lemma handle_governs_shutdown:
  assumes "process_run X IO wk files es s"
  shows "(pr_handle s = Held \<longrightarrow> ch_open (pr_channel s) \<and> pr_serving s)
    \<and> (pr_alive s \<and> pr_handle s = Dropped \<and> ch_open (pr_channel s) \<longrightarrow>
         (\<exists>s'. process_run X IO wk files (es @ [Work Close]) s' \<and> \<not> ch_open (pr_channel s')))"
proof (intro conjI impI)
  have ok: "process_ok IO (fk_cache_path (wk_env wk)) files s" by (rule process_run_ok [OF assms])
  {
    assume "pr_handle s = Held"
    with ok show "ch_open (pr_channel s)" by (simp add: process_ok_def)
    with ok show "pr_serving s" by (auto simp: process_ok_def served_all_def)
  next
    assume "pr_alive s \<and> pr_handle s = Dropped \<and> ch_open (pr_channel s)"
    then have "process_step X IO (fk_cache_path (wk_env wk)) (Work Close) s
        (s\<lparr>pr_channel := (pr_channel s)\<lparr>ch_open := False\<rparr>\<rparr>)"
      using channel_step.close [of "pr_channel s" X] by (auto intro: process_step.work)
    from process_run_step [OF assms this]
    show "\<exists>s'. process_run X IO wk files (es @ [Work Close]) s' \<and> \<not> ch_open (pr_channel s')"
      by (intro exI conjI) (assumption, simp)
  }
qed

section \<open>At a concrete input\<close>

text \<open>A worker that knows one entry, with a cache file that does not exist yet, told to shut down.\<close>

definition saving_worker :: worker where
  "saving_worker = worker_start (sample_fork
     \<lparr>fk_source := cache_insert sample_lib (KeyContractCode [7]) (Some ([0, 5], Some 9)) (source_new sample_client),
      fk_cache_path := Some [''/'', ''c.json''], fk_timestamp := 5, fk_network_id := []\<rparr>)"

definition no_files :: fs where "no_files = (\<lambda>_. None)"

abbreviation saving_run :: "process_event list \<Rightarrow> process_state \<Rightarrow> bool" where
  "saving_run \<equiv> process_run sample_lib sample_io saving_worker no_files"

lemma saving_worker_fields:
  "fk_cache_path (wk_env saving_worker) = Some [''/'', ''c.json'']"
  "fk_ledger_sequence (wk_env saving_worker) = 100" "fk_timestamp (wk_env saving_worker) = 5"
  "fk_network_id (wk_env saving_worker) = []" "fk_protocol_version (wk_env saving_worker) = 23"
  by (simp_all add: saving_worker_def worker_start_def sample_fork_def)

lemma saving_entries:
  "entries sample_lib (fk_source (wk_env saving_worker)) = Some (ls_ledger_entries sample_snapshot)"
proof -
  have "src_cache (fk_source (wk_env saving_worker)) = [(KeyContractCode [7], Some ([0, 5], Some 9))]"
    by (simp add: saving_worker_def worker_start_def cache_insert_def source_new_def)
  moreover have "decode_entry sample_lib [0, 5] = Some (sample_entry (DataOther [5]))"
    by (simp add: decode_entry_def sample_lib_simps)
  ultimately show ?thesis
    by (simp add: entries_def List.map_filter_def sample_snapshot_def make_snapshot_def)
qed

lemma saving_drop: "\<exists>fs. drop_fork sample_lib sample_io (wk_env saving_worker) no_files = Some fs"
  by (simp add: drop_fork_def save_cache_def do_save_cache_def saving_worker_fields saving_entries split: list.split)
     (metis surj_pair)

theorem cache_never_torn_witness:
  "\<exists>s fs. saving_run [Signal, Work Close, Served, Finish] s \<and> pr_phase s = Saving fs
     \<and> (pr_files s [''/'', ''c.json''] = no_files [''/'', ''c.json'']
        \<or> (\<exists>entries. load_snapshot sample_io [''/'', ''c.json''] (pr_files s) = Inr entries))"
proof -
  obtain s fs where s: "saving_run [Signal, Work Close, Served, Finish] s" "pr_phase s = Saving fs"
    using saving_drop idle_finish by blast
  from cache_never_torn [OF sample_io_ok s(1) saving_worker_fields(1)] s show ?thesis by blast
qed

theorem exit_may_lose_cache_witness:
  "\<exists>s. saving_run [Signal, Work Close, Served, Exit] s \<and> \<not> pr_alive s \<and> pr_files s [''/'', ''c.json''] = None
     \<and> ch_worker (pr_channel s) = Some saving_worker"
  using exit_may_lose_cache [OF idle_signal]
  by (simp add: idle_signalled_fields fresh_channel no_files_def) fastforce

end
