(* ===== verification/SampleTotal.thy ===== *)
theory SampleTotal
  imports Fork "HOL-Library.Countable"
begin

text \<open>
  A library for concrete runs of the whole program: its entry codec encodes every ledger entry, its
  order of the keys is total, and its disk writes every snapshot. The types are countable, and the
  encoding of a value is as many zero bytes as its number says.
\<close>

section \<open>Ledger entries, keys and snapshots are countable\<close>

instance xdr_ext :: countable by countable_datatype
instance sc_address :: countable by countable_datatype
instance contract_executable :: countable by countable_datatype
instance scval :: countable by countable_datatype
instance durability :: countable by countable_datatype
instance trust_line_asset :: countable by countable_datatype
instance config_setting_id :: countable by countable_datatype
instance ledger_key :: countable by countable_datatype
instance config_setting_entry :: countable by countable_datatype

instance account_entry_ext :: (countable) countable
  by (rule countable_classI [of "\<lambda>r. to_nat (ae_account_id r, ae_balance r, ae_seq_num r, ae_num_sub_entries r,
       ae_inflation_dest r, ae_flags r, ae_home_domain r, ae_thresholds r, ae_signers r, ae_ext r, account_entry.more r)"])
     (simp add: account_entry.equality)

instance trust_line_entry_ext :: (countable) countable
  by (rule countable_classI [of "\<lambda>r. to_nat (tl_account_id r, tl_asset r, tl_balance r, tl_limit r, tl_flags r,
       tl_ext r, trust_line_entry.more r)"])
     (simp add: trust_line_entry.equality)

instance contract_data_entry_ext :: (countable) countable
  by (rule countable_classI [of "\<lambda>r. to_nat (cd_contract r, cd_key r, cd_durability r, cd_val r,
       contract_data_entry.more r)"])
     (simp add: contract_data_entry.equality)

instance contract_code_entry_ext :: (countable) countable
  by (rule countable_classI [of "\<lambda>r. to_nat (cc_ext r, cc_hash r, cc_code r, contract_code_entry.more r)"])
     (simp add: contract_code_entry.equality)

instance ledger_entry_data :: countable by countable_datatype

instance ledger_entry_ext :: (countable) countable
  by (rule countable_classI [of "\<lambda>r. to_nat (le_last_modified r, le_data r, le_ext r, ledger_entry.more r)"])
     (simp add: ledger_entry.equality)

instance ledger_snapshot_ext :: (countable) countable
  by (rule countable_classI [of "\<lambda>r. to_nat (ls_protocol_version r, ls_sequence_number r, ls_timestamp r,
       ls_network_id r, ls_base_reserve r, ls_min_persistent_entry_ttl r, ls_min_temp_entry_ttl r,
       ls_max_entry_ttl r, ls_ledger_entries r, ledger_snapshot.more r)"])
     (simp add: ledger_snapshot.equality)

section \<open>The library\<close>

definition count_bytes :: "'a :: countable \<Rightarrow> bytes" where
  "count_bytes a = replicate (to_nat a) 0"

definition total_lib :: ext_lib where
  "total_lib = online_lib
     \<lparr>entry_to_xdr := (\<lambda>e. Inr (count_bytes e)),
      entry_from_xdr := (\<lambda>b. if b = count_bytes (from_nat (length b) :: ledger_entry) then Inr (from_nat (length b))
                             else Inl ''unsupported''),
      key_lt := (\<lambda>a b. to_nat a < to_nat b),
      overflow_checks := False\<rparr>"

lemma total_simps:
  "entry_to_xdr total_lib e = Inr (count_bytes e)" "upstream total_lib = upstream online_lib"
  "entry_from_xdr total_lib b = (if b = count_bytes (from_nat (length b) :: ledger_entry) then Inr (from_nat (length b))
     else Inl ''unsupported'')"
  "key_lt total_lib = (\<lambda>a b. to_nat a < to_nat b)" "\<not> overflow_checks total_lib"
  "http_client_build total_lib = None"
  "host_invoke total_lib rq = HostDone \<lparr> ho_result = Inl ''unsupported'', ho_diagnostic_events = [], ho_mem_bytes = None \<rparr>"
  by (simp_all add: total_lib_def online_lib_def sample_lib_def)

lemma total_encode: "encode_entry total_lib e = Some (count_bytes e)"
  by (simp add: encode_entry_def total_simps)

lemma total_entry_codec: "entry_codec_ok total_lib"
  by (simp add: entry_codec_ok_def total_simps count_bytes_def)

lemma total_key_order: "key_order_ok UNIV total_lib"
  unfolding key_order_ok_def strict_order_on_def total_simps
  by (metis UNIV_I from_nat_to_nat less_trans linorder_neqE_nat nat_less_le)

section \<open>The disk\<close>

definition total_io :: snapshot_io where
  "total_io =
     \<lparr> io_pid = 12, io_now = Some 3,
       io_write = (\<lambda>snapshot. ([[], replicate (to_nat snapshot) CHR ''x''], None)),
       io_read = (\<lambda>c. case c of Some t \<Rightarrow> Inr (from_nat (length t)) | None \<Rightarrow> Inl ''no file''),
       io_rename_error = None, io_remove_ok = True \<rparr>"

lemma total_io_ok: "write_ok total_io" "io_rename_error total_io = None" "snd (io_write total_io snapshot) = None"
  by (simp_all add: write_ok_def total_io_def)

section \<open>A build\<close>

definition total_config :: fork_config where
  "total_config = online_config
     \<lparr>cfg_cache_path := Some [''/'', ''c.json''], cfg_fetch_mode := Some Lenient\<rparr>"

lemma total_preload: "\<exists>s'. preload total_lib es s = Some s'"
  by (induction es arbitrary: s) (auto simp: total_encode)

lemma total_build_source: "\<exists>s. build_source total_lib IO cfg client files = Some s"
  using total_preload by (auto simp: build_source_def Let_def split: option.split sum.split)

lemma total_build:
  "\<exists>fk. build total_lib (\<lambda>_. None) IO total_config files w = Some (Inr fk)
     \<and> fk_test_accounts fk = generate total_lib 1"
proof -
  have f: "cfg_rpc_url total_config = ''http://rpc''" "cfg_network_id total_config = None"
    "cfg_rpc_config total_config = rpc_config_default" "cfg_test_account_count total_config = 1"
    by (simp_all add: total_config_def online_config_def)
  obtain i w' where n: "resolve_network total_lib total_config online_client (w\<lparr>w_sent := Suc (Suc (w_sent w))\<rparr>)
      = Some (Inr (i, Some ''net''), w')"
    using online_network [OF total_simps(2) f(2)] by blast
  have c: "rpc_client_new total_lib ''http://rpc'' rpc_config_default = Inr online_client"
    by (simp add: rpc_client_new_def total_simps online_client_def)
  obtain s0 where s0: "build_source total_lib IO total_config online_client files = Some s0"
    using total_build_source by blast
  obtain s1 where s1: "preload total_lib (test_preloads (cfg_test_trustlines total_config)
      (unwrap_or 5 (cfg_pinned_ledger total_config)) (generate total_lib (Suc 0))) s0 = Some s1"
    using total_preload by blast
  show ?thesis
    by (simp add: build_def f c s0 online_ledger [OF total_simps(2)] n Let_def s1)
qed

end
