(* ===== verification/Upkeep.thy ===== *)
theory Upkeep
  imports Lifecycle SampleTotal
begin

text \<open>
  What a whole run keeps up, from \<open>build\<close> to the last command: the fork's cache stays a sorted map
  of encoded entries (\<open>source_good\<close>), so that saving it on drop cannot panic, and in lenient mode the
  worker stays alive. \<open>Source\<close> and \<open>Actor\<close> show what one operation does; here it is put together for
  every command, and for the fork that \<open>build\<close> makes.
\<close>

section \<open>The cache stays well-formed\<close>

text \<open>What the code relies on of the libraries: XDR round trips, the derived order of the keys is a
  strict total order, and the host's changes carry what it has encoded.\<close>

definition library_ok :: "ext_lib \<Rightarrow> bool" where
  "library_ok X \<longleftrightarrow> entry_codec_ok X \<and> key_order_ok UNIV X \<and> host_ok X"

definition source_good :: "ext_lib \<Rightarrow> source \<Rightarrow> bool" where
  "source_good X s \<longleftrightarrow> cache_decodes X s \<and> cache_sorted X s"

lemma source_good_new: "source_good X (source_new c)"
  by (simp add: source_good_def)

lemma source_good_frame [simp]:
  "source_good X (s\<lparr>src_fetch_count := n\<rparr>) = source_good X s"
  "source_good X (with_fetch_mode m s) = source_good X s"
  by (simp_all add: source_good_def cache_decodes_def cache_sorted_def with_fetch_mode_def)

lemma source_good_insert:
  assumes "library_ok X" "source_good X s" "\<And>bs lu. v = Some (bs, lu) \<Longrightarrow> decode_entry X bs \<noteq> None"
  shows "source_good X (cache_insert X k v s)"
  using assms cache_sorted_insert [of UNIV X k s v] cache_decodes_insert [of X s v k]
  by (simp add: source_good_def library_ok_def)

lemma source_good_encoded:
  "library_ok X \<Longrightarrow> source_good X s \<Longrightarrow> encode_entry X e = Some bs \<Longrightarrow>
     source_good X (cache_insert X k (Some (bs, lu)) s)"
  by (rule source_good_insert) (auto simp: library_ok_def decode_encode)

lemma memoise_good: "library_ok X \<Longrightarrow> source_good X s \<Longrightarrow> memoise X k v s = Some s' \<Longrightarrow> source_good X s'"
  by (auto simp: memoise_def intro: source_good_insert source_good_encoded split: option.splits)

lemma snapshot_get_good:
  assumes "library_ok X" "source_good X s" "snapshot_get X key (s, w) = Some (v, s', w')"
  shows "source_good X s'"
proof -
  have d: "cache_decodes X s" using assms(2) by (simp add: source_good_def)
  from assms(3) d show ?thesis
  proof (cases rule: snapshot_get_cases)
    case (miss s2 w2)
    then have "memoise X key v (s\<lparr>src_fetch_count := src_fetch_count s + 1\<rparr>) = Some s'"
      using fetch_from_rpcD [of X key s w v s2 w2] by simp
    from memoise_good [OF assms(1) _ this] assms(2) show ?thesis by simp
  qed (use assms(2) in simp)
qed

lemma source_good_ok: "library_ok X \<Longrightarrow> source_good X s \<Longrightarrow> source_ok X (s, w)"
  by (simp add: library_ok_def source_good_def source_ok_def)

interpretation snapg: snapshot_source "snapshot_get X" "\<lambda>sw. known X (fst sw)"
  "\<lambda>sw. library_ok X \<and> source_good X (fst sw)" for X
proof (unfold_locales, goal_cases)
  case (1 s k v)
  then show ?case using snap.get_hit [of X s k v] source_good_ok [of X "fst s" "snd s"] by simp
next
  case (2 s k v s')
  then show ?case using snap.get_peek [of X s k v s'] source_good_ok [of X "fst s" "snd s"] by simp
next
  case (3 s k v s')
  then show ?case by (cases s; cases s') (auto intro: snapshot_get_good)
next
  case (4 s k v s' k' x)
  then show ?case using snap.get_mono [of X s k v s'] source_good_ok [of X "fst s" "snd s"] by simp
qed

lemma apply_changes_from_good:
  "library_ok X \<Longrightarrow> changes_decode X cs \<Longrightarrow> source_good X s \<Longrightarrow> apply_changes_from X cs n s = Some (m, s') \<Longrightarrow>
     source_good X s'"
proof (induction X cs n s rule: apply_changes_from.induct)
  case (2 X c rest n s)
  show ?case
  proof (cases "lc_read_only c")
    case True
    with 2 show ?thesis by (simp add: changes_decode_def)
  next
    case False
    with "2.prems" obtain k where k: "key_from_xdr X (lc_encoded_key c) = Inr k"
      by (cases "key_from_xdr X (lc_encoded_key c)") (auto simp: changes_decode_def)
    let ?v = "case lc_encoded_new_value c of Some bs \<Rightarrow> Some (bs, lc_ttl_new_live_until c) | None \<Rightarrow> None"
    have "source_good X (cache_insert X k ?v s)"
      using "2.prems" False by (intro source_good_insert) (auto simp: changes_decode_def split: option.splits)
    with "2.IH"(2) [OF False k] "2.prems" False k show ?thesis by (simp add: changes_decode_def)
  qed
qed simp

lemma bump_account_seq_good:
  assumes "library_ok X" "source_good X s"
  shows "source_good X (snd (bump_account_seq X a s))"
proof -
  obtain r s' where b: "bump_account_seq X a s = (r, s')" by force
  then show ?thesis
  proof (cases rule: bump_account_seq_cases)
    case (bumped e bs lu)
    with assms b show ?thesis
      by (auto intro!: source_good_insert simp: library_ok_def entry_codec_ok_def decode_entry_def)
  qed (use assms b in simp)
qed

lemma preload_good:
  "library_ok X \<Longrightarrow> source_good X s \<Longrightarrow> preload X es s = Some s' \<Longrightarrow> source_good X s'"
proof (induction X es s rule: preload.induct)
  case (2 X key entry lu rest s)
  then show ?case by (auto simp: source_good_encoded split: option.splits)
qed simp

section \<open>Through every command\<close>

abbreviation fork_good :: "ext_lib \<Rightarrow> forked_env \<Rightarrow> bool" where
  "fork_good X fk \<equiv> source_good X (fk_source fk)"

lemma fork_get_good: "library_ok X \<Longrightarrow> fork_good X fk \<Longrightarrow> fork_get X key fk = Some (v, fk') \<Longrightarrow> fork_good X fk'"
  by (auto simp: fork_get_def dest: snapshot_get_good split: option.splits)

lemma invoke_recording_good:
  "library_ok X \<Longrightarrow> fork_good X fk \<Longrightarrow> invoke_recording X fk hf a = Some (out, fk') \<Longrightarrow> fork_good X fk'"
  using snapg.run_ok [of X "(fk_source fk, fk_world fk)"]
  by (auto simp: invoke_recording_def split: option.splits)

lemma fee_configuration_good:
  "library_ok X \<Longrightarrow> fork_good X fk \<Longrightarrow> fee_configuration X fk = Some (r, fk') \<Longrightarrow> fork_good X fk'"
  using snapg.settings_ok [of X "(fk_source fk, fk_world fk)"]
  by (auto simp: fee_configuration_def fetch_fee_configuration_def split: option.splits sum.splits prod.splits)

lemma compute_min_resource_fee_good:
  assumes "library_ok X" "fork_good X fk" "compute_min_resource_fee X fk res evs n = Some (r, fk')"
  shows "fork_good X fk'"
proof -
  obtain c where "fee_configuration X fk = Some (c, fk')"
    using assms(3)
    by (auto simp: compute_min_resource_fee_def Let_def split: option.splits sum.splits prod.splits)
  then show ?thesis by (rule fee_configuration_good [OF assms(1,2)])
qed

lemma simulate_transaction_good:
  assumes "library_ok X" "fork_good X fk" "simulate_transaction X fk hf a n = Some (r, fk')"
  shows "fork_good X fk'"
proof -
  obtain out fk1 where inv: "invoke_recording X fk hf a = Some (out, fk1)"
    using assms(3) by (auto simp: simulate_transaction_def split: option.splits)
  have good: "fork_good X fk1" by (rule invoke_recording_good [OF assms(1,2) inv])
  show ?thesis
  proof (cases "ho_result out")
    case (Inr rc)
    with assms(3) inv obtain fee where
      "compute_min_resource_fee X fk1 (rr_resources rc) (rr_contract_events rc) n = Some (fee, fk')"
      by (auto simp: simulate_transaction_def split: option.splits)
    then show ?thesis by (rule compute_min_resource_fee_good [OF assms(1) good])
  qed (use assms(3) inv good in \<open>simp add: simulate_transaction_def\<close>)
qed

lemma resolve_ledger_entries_good:
  "library_ok X \<Longrightarrow> fork_good X fk \<Longrightarrow> resolve_ledger_entries X keys fk = Some (es, fk') \<Longrightarrow> fork_good X fk'"
proof (induction keys arbitrary: fk es)
  case (Cons key keys)
  from Cons.prems(3) obtain v fk1 es1 where s: "fork_get X key fk = Some (v, fk1)"
    "resolve_ledger_entries X keys fk1 = Some (es1, fk')"
    by (auto split: option.splits)
  show ?case by (rule Cons.IH [OF Cons.prems(1) fork_get_good [OF Cons.prems(1,2) s(1)] s(2)])
qed simp

lemma send_transaction_good:
  assumes "library_ok X" "fork_good X fk" "send_transaction X fk clock env hf a = Some (r, fk')"
  shows "fork_good X fk'"
  using assms(3)
proof (cases rule: send_transaction_cases)
  case (1 out fk1 s applied)
  have good: "fork_good X fk1" by (rule invoke_recording_good [OF assms(1,2) 1(1)])
  have "outcome_ok X out"
    using assms(1) 1(1) prog_all_run unfolding library_ok_def host_ok_def invoke_recording_def
    by (fastforce split: option.splits)
  then have "source_good X s"
    using 1(2) good assms(1) apply_changes_from_good
    by (fastforce simp: apply_result_def apply_changes_def outcome_ok_def Let_def split: sum.splits option.splits if_splits)
  with 1(4) assms(1) bump_account_seq_good show ?thesis by simp
qed

lemma worker_step_good:
  assumes X: "library_ok X" and good: "fork_good X (wk_env wk)" and s: "worker_step X c wk = Some (r, wk')"
  shows "fork_good X (wk_env wk')"
proof (cases c)
  case (CmdGetLedgerEntries keys)
  with s show ?thesis by (auto split: option.splits dest: resolve_ledger_entries_good [OF X good])
next
  case (CmdSimulateTransaction hf a n)
  with s show ?thesis by (auto split: option.splits dest: simulate_transaction_good [OF X good])
next
  case (CmdSendTransaction e hf a)
  with s show ?thesis by (auto split: option.splits dest: send_transaction_good [OF X good])
next
  case (CmdSetLedgerEntry k e lu)
  with s show ?thesis by (auto simp: set_entry_def split: option.splits intro: source_good_encoded [OF X good])
next
  case (CmdCloseLedgers n t)
  with s good show ?thesis by (auto simp: Let_def warp_def)
qed (use s good in auto)

section \<open>From the build on\<close>

lemma build_source_cases:
  assumes "build_source X IO cfg client files = Some s"
  obtains es where "preload X es (with_fetch_mode (unwrap_or Strict (cfg_fetch_mode cfg)) (source_new client)) = Some s"
proof -
  let ?s1 = "with_fetch_mode (unwrap_or Strict (cfg_fetch_mode cfg)) (source_new client)"
  have "(case cfg_fetch_mode cfg of Some mode \<Rightarrow> with_fetch_mode mode (source_new client) | None \<Rightarrow> source_new client)
      = ?s1"
    by (simp add: with_fetch_mode_def source_new_def split: option.split)
  note c = assms [unfolded build_source_def Let_def this]
  show thesis
  proof (cases "cfg_cache_path cfg")
    case None
    with c that [of "[]"] show thesis by simp
  next
    case (Some path)
    with c that [of "[]"] that show thesis
      by (cases "load_snapshot IO path files"; cases "files path") auto
  qed
qed

lemma build_source_good:
  assumes "library_ok X" "build_source X IO cfg client files = Some s"
  shows "source_good X s"
  using assms(2) by (rule build_source_cases) (rule preload_good [OF assms(1)], simp_all add: source_good_new)

lemma build_good:
  assumes "library_ok X" "build X set_diag IO cfg files w = Some (Inr fk)"
  shows "fork_good X fk"
  using assms(2)
proof (cases rule: build_cases)
  case (1 client s0 latest w1)
  from preload_good [OF assms(1) build_source_good [OF assms(1) 1(1)] 1(9)] show ?thesis .
qed

lemma preload_frame:
  "preload X es s = Some s' \<Longrightarrow> src_client s' = src_client s \<and> src_fetch_mode s' = src_fetch_mode s"
proof (induction X es s rule: preload.induct)
  case (2 X key entry lu rest s)
  then show ?case by (auto split: option.splits)
qed simp

lemma build_source_frame:
  assumes "build_source X IO cfg client files = Some s"
  shows "src_client s = client \<and> src_fetch_mode s = unwrap_or Strict (cfg_fetch_mode cfg)"
  using assms by (rule build_source_cases) (auto dest!: preload_frame simp: source_new_def with_fetch_mode_def)

lemma build_frame:
  assumes "build X set_diag IO cfg files w = Some (Inr fk)"
  shows "rc_config (src_client (fk_source fk)) = cfg_rpc_config cfg
    \<and> src_fetch_mode (fk_source fk) = unwrap_or Strict (cfg_fetch_mode cfg)"
proof -
  from assms obtain client s0 accounts sq where c: "rpc_client_new X (cfg_rpc_url cfg) (cfg_rpc_config cfg) = Inr client"
      "build_source X IO cfg client files = Some s0"
      "(if accounts = [] then Some s0 else preload X (test_preloads (cfg_test_trustlines cfg) sq accounts) s0)
         = Some (fk_source fk)"
    by (auto simp: build_def Let_def split: sum.splits option.splits prod.splits)
  then have "rc_config client = cfg_rpc_config cfg"
    by (auto simp: rpc_client_new_def split: option.splits)
  with c(2,3) show ?thesis by (auto dest!: build_source_frame preload_frame split: if_splits)
qed

text \<open>The configuration and the libraries that keep the worker alive: absent answers instead of a
  panic, a build without overflow checks, batches of at least one key, and entries that can always
  be encoded.\<close>

definition stays_lenient :: "ext_lib \<Rightarrow> fork_config \<Rightarrow> bool" where
  "stays_lenient X cfg \<longleftrightarrow>
     cfg_fetch_mode cfg = Some Lenient \<and> rpc_max_keys_per_request (cfg_rpc_config cfg) \<noteq> 0
     \<and> \<not> overflow_checks X"

lemma build_alive:
  assumes "library_ok X" "encodes_all X" "stays_lenient X cfg" "build X set_diag IO cfg files w = Some (Inr fk)"
  shows "fork_alive X fk"
  using build_good [OF assms(1,4)] build_frame [OF assms(4)] assms(1-3)
  by (simp add: fork_alive_def fork_ok_def source_good_ok source_alive_def lenient_def decoded_encodes_def
      stays_lenient_def encodes_all_def)

text \<open>The channel's worker is there and can go on.\<close>

definition worker_stays :: "ext_lib \<Rightarrow> channel_state \<Rightarrow> bool" where
  "worker_stays X ch \<longleftrightarrow>
     library_ok X \<and> encodes_all X
     \<and> (\<exists>wk. ch_worker ch = Some wk \<and> fork_alive X (wk_env wk) \<and> fork_good X (wk_env wk))"

lemma worker_goes_on:
  assumes "library_ok X" "encodes_all X" "fork_alive X (wk_env wk)" "fork_good X (wk_env wk)"
  shows "\<exists>r wk'. worker_step X c wk = Some (r, wk') \<and> fork_alive X (wk_env wk') \<and> fork_good X (wk_env wk')"
proof -
  have "host_ok X" "command_ok X c" using assms(1,2) by (cases c; simp add: library_ok_def encodes_all_def)+
  from worker_step_alive [OF assms(3) this] worker_step_good [OF assms(1,4)] show ?thesis by blast
qed

lemma worker_stays_step:
  assumes "worker_stays X ch" "channel_step X e ch ch'"
  shows "worker_stays X ch'"
proof -
  obtain wk where wk: "ch_worker ch = Some wk" "fork_alive X (wk_env wk)" "fork_good X (wk_env wk)"
    and X: "library_ok X" "encodes_all X"
    using assms(1) by (auto simp: worker_stays_def)
  from assms(2) show ?thesis
  proof (cases rule: channel_step.cases)
    case (execute n c q wk0 r wk' t k)
    with worker_goes_on [OF X wk(2,3), of c] wk X show ?thesis by (auto simp: worker_stays_def)
  next
    case (panic n c q wk0 t k)
    with worker_goes_on [OF X wk(2,3), of c] wk show ?thesis by auto
  qed (use wk X in \<open>auto simp: worker_stays_def\<close>)
qed

lemma entries_good:
  assumes "library_ok X" "fork_good X fk"
  shows "\<exists>out. entries X (fk_source fk) = Some out \<and> distinct (map fst out)
    \<and> map_of out = (\<lambda>k. known_entry (known X (fk_source fk) k))"
proof -
  have "key_order_ok UNIV X" "cache_sorted X (fk_source fk)" "cache_decodes X (fk_source fk)"
    using assms by (simp_all add: library_ok_def source_good_def)
  from entries_known [OF this(1) subset_UNIV this(2,3)] show ?thesis by blast
qed

lemma drop_fork_good:
  assumes "library_ok X" "fork_good X fk"
  shows "drop_fork X IO fk files \<noteq> None"
  using entries_good [OF assms]
  by (auto simp: drop_fork_def save_cache_def do_save_cache_def split: option.split list.split)

interpretation ws: preserved "channel_step X" "worker_stays X" for X
  by unfold_locales (rule worker_stays_step)

text \<open>Without leniency a worker may die, but as long as it lives its cache is well-formed.\<close>

definition worker_good :: "ext_lib \<Rightarrow> channel_state \<Rightarrow> bool" where
  "worker_good X ch \<longleftrightarrow> library_ok X \<and> (\<forall>wk. ch_worker ch = Some wk \<longrightarrow> fork_good X (wk_env wk))"

lemma worker_good_step: "channel_step X e ch ch' \<Longrightarrow> worker_good X ch \<Longrightarrow> worker_good X ch'"
  by (induction rule: channel_step.induct) (auto simp: worker_good_def intro: worker_step_good)

interpretation wg: preserved "channel_step X" "worker_good X" for X
  by unfold_locales (blast intro: worker_good_step)

lemma process_good:
  assumes "library_ok X" "fork_good X (wk_env wk)" "process_run X IO wk files es s" "ch_worker (pr_channel s) = Some wk'"
  shows "fork_good X (wk_env wk')"
proof -
  obtain ces where r: "events_run (channel_step X) ces (channel_running wk) (pr_channel s)"
    using process_run_channel [OF assms(3)] by blast
  have "worker_good X (channel_running wk)" using assms(1,2) by (simp add: worker_good_def fresh_channel)
  from wg.inv_run [OF r this] assms(4) show ?thesis by (simp add: worker_good_def)
qed

section \<open>Properties\<close>


section \<open>At a concrete input\<close>

lemma total_library_ok: "library_ok total_lib" "encodes_all total_lib" "stays_lenient total_lib total_config"
  by (simp_all add: library_ok_def total_entry_codec total_key_order encodes_all_def total_encode host_ok_def
        outcome_ok_def stays_lenient_def total_simps total_config_def)
     (simp add: online_config_def rpc_config_default_def)

lemma total_start:
  "\<exists>wk. start total_lib (\<lambda>_. None) total_io Inr (server_builder_of total_config) files w
      = Inr (''127.0.0.1:8000'', server_running wk)
     \<and> fk_test_accounts (wk_env wk) = generate total_lib 1 \<and> fk_cache_path (wk_env wk) = Some [''/'', ''c.json'']
     \<and> build total_lib (\<lambda>_. None) total_io total_config files w = Some (Inr (wk_env wk))"
proof -
  obtain fk where fk: "build total_lib (\<lambda>_. None) total_io total_config files w = Some (Inr fk)"
    "fk_test_accounts fk = generate total_lib 1"
    using total_build by blast
  from fk(1) have "fk_cache_path fk = Some [''/'', ''c.json'']"
    by (cases rule: build_cases) (simp add: total_config_def)
  with fk show ?thesis
    by (intro exI [of _ "worker_start fk"])
       (simp add: start_def spawn_def server_builder_of_def worker_start_def)
qed


end
