(* ===== verification/Restart.thy ===== *)
theory Restart
  imports Upkeep
begin

text \<open>
  One run of the program and the next: what building a fork asks of the upstream, and what a fork
  built on the cache file of an earlier run knows. \<open>ForkConfig::build\<close> of \<open>src/lib.rs\<close> meets what
  \<open>Cache\<close>, \<open>Source\<close> and \<open>Lifecycle\<close> show of the parts.
\<close>

section \<open>What building asks of the upstream\<close>

lemma rpc_loop_asks:
  "rpc_loop X client dec request attempts last_error rest w = (Inr a, w') \<Longrightarrow> w_sent w < w_sent w'"
proof (induction X client dec request attempts last_error rest w arbitrary: w' rule: rpc_loop.induct)
  case (2 X client dec request attempts last_error attempt rest w)
  obtain r where t: "try_once X client dec request w = (r, w\<lparr>w_sent := Suc (w_sent w)\<rparr>)"
    by (simp add: try_once_def)
  show ?case
  proof (cases r)
    case (Inr parsed)
    with 2 t show ?thesis by auto
  next
    case (Inl d)
    show ?thesis
    proof (cases d)
      case (Retry e)
      with 2 t Inl show ?thesis by (fastforce split: if_splits prod.splits)
    qed (use 2 t Inl in auto)
  qed
qed simp

lemma rpc_call_asks: "rpc_call X client d method params w = Some (Inr a, w') \<Longrightarrow> w_sent w < w_sent w'"
proof -
  assume c: "rpc_call X client d method params w = Some (Inr a, w')"
  then obtain n r where l: "rpc_loop X client (dec_rpc_response d) (rpc_request_json method params) n None [0..<n] w = (r, w')"
    and "res_bind r (into_result X) = Inr a"
    by (auto simp: rpc_call_def rpc_post_def split: option.splits prod.splits)
  then obtain b where "r = Inr b" by (cases r) auto
  with l show ?thesis by (auto dest: rpc_loop_asks)
qed

lemma get_latest_ledger_asks:
  "get_latest_ledger X client w = Some (Inr latest, w') \<Longrightarrow> w_sent w + 2 \<le> w_sent w'"
  by (auto simp: get_latest_ledger_def get_ledger_close_time_def
      split: option.splits sum.splits list.splits dest!: rpc_call_asks)

lemma resolve_network_asks:
  "resolve_network X cfg client w = Some (Inr r, w') \<Longrightarrow>
     w_sent w + (if cfg_network_id cfg = None then 1 else 0) \<le> w_sent w'"
  by (auto simp: resolve_network_def get_network_def split: option.splits sum.splits dest!: rpc_call_asks)

section \<open>What a built fork knows\<close>

lemma build_source_known:
  assumes "build_source X IO cfg client files = Some s" "cfg_cache_path cfg = Some path"
    "load_snapshot IO path files = Inr es" "files path \<noteq> None" "entry_codec_ok X"
  shows "known X s k = (case map_of (rev es) k of Some v \<Rightarrow> Some (Some v) | None \<Rightarrow> None)"
proof -
  have "known X (case cfg_fetch_mode cfg of None \<Rightarrow> source_new client
      | Some mode \<Rightarrow> with_fetch_mode mode (source_new client)) k = None"
    by (auto simp: known_def source_new_def with_fetch_mode_def split: option.split)
  with assms preload_known [OF assms(5)] show ?thesis
    by (auto simp: build_source_def Let_def split: option.splits)
qed
section \<open>Properties\<close>

text \<open>
  C35: A fork is never built without the network, whatever the cache file holds: a successful build
  has made two exchanges for the latest ledger, and a third for the network unless its id is pinned,
  even where the ledger and the timestamp are pinned too.
\<close>

theorem build_needs_network:
  assumes "build X set_diag IO cfg files w = Some (Inr fk)"
  shows "w_sent w + (if cfg_network_id cfg = None then 3 else 2) \<le> w_sent (fk_world fk)"
  using assms
proof (cases rule: build_cases)
  case (1 client s0 latest w1)
  from get_latest_ledger_asks [OF 1(2)] resolve_network_asks [OF 1(3)] show ?thesis by auto
qed


section \<open>At a concrete input\<close>

theorem build_needs_network_witness:
  "\<exists>fk. build total_lib (\<lambda>_. None) total_io total_config no_files sample_world = Some (Inr fk)
     \<and> w_sent sample_world + 3 \<le> w_sent (fk_world fk)"
proof -
  obtain fk where fk: "build total_lib (\<lambda>_. None) total_io total_config no_files sample_world = Some (Inr fk)"
    using total_build by blast
  have "cfg_network_id total_config = None" by (simp add: total_config_def online_config_def)
  with build_needs_network [OF fk] fk show ?thesis by auto
qed


end
