(* ===== verification/TraceTests.thy ===== *)
theory TraceTests
  imports AuthTree
begin

text \<open>
  The unit tests at the end of \<open>src/trace.rs\<close>, as statements about the model:
  each \<open>#[test]\<close> is a definition of the same name, the conjunction of what it asserts, and the lemma
  that it holds. Strkeys are those of \<open>sample_lib\<close>, which no assertion looks into.
\<close>

section \<open>Helpers of the trace tests\<close>

definition make_event :: "hash option \<Rightarrow> scval list \<Rightarrow> scval \<Rightarrow> bool \<Rightarrow> host_event" where
  "make_event contract_id topics data failed_call =
     \<lparr> he_event = \<lparr> ev_contract_id = contract_id, ev_type = EvDiagnostic, ev_topics = topics, ev_data = data \<rparr>,
       he_failed_call = failed_call \<rparr>"

definition fn_call :: "hash \<Rightarrow> string \<Rightarrow> scval \<Rightarrow> bool \<Rightarrow> host_event" where
  "fn_call callee func data failed = make_event None [sym ''fn_call'', ScBytes callee, sym func] data failed"

definition fn_return :: "hash \<Rightarrow> string \<Rightarrow> scval \<Rightarrow> bool \<Rightarrow> host_event" where
  "fn_return callee func val failed = make_event (Some callee) [sym ''fn_return'', sym func] val failed"

definition i128_parts :: "int \<Rightarrow> scval" where
  "i128_parts v = ScI128 (word_of_int (v div 2 ^ 64)) (word_of_int v)"

definition c1 :: hash where "c1 = replicate 32 1"
definition c2 :: hash where "c2 = replicate 32 2"
definition c3 :: hash where "c3 = replicate 32 3"

fun contains :: "string \<Rightarrow> string \<Rightarrow> bool" where
  "contains [] part = (part = [])"
| "contains (c # rest) part = (take (length part) (c # rest) = part \<or> contains rest part)"

definition contained :: "string option \<Rightarrow> string \<Rightarrow> bool" where
  "contained text part = (case text of None \<Rightarrow> False | Some t \<Rightarrow> contains t part)"

text \<open>How the model takes the two events.\<close>

lemma length_c [simp]: "length c1 = 32" "length c2 = 32" "length c3 = 32"
  by (simp_all add: c1_def c2_def c3_def)

lemma event_kind_test [simp]:
  "event_kind (fn_call c f v b) = Some ''fn_call''" "event_kind (fn_return c f v b) = Some ''fn_return''"
  by (simp_all only: event_kind_def fn_call_def fn_return_def make_event_def contract_event.simps
      host_event.simps list.case symbol_str_sym keyword_valid if_False not_not simp_thms)

lemma step_fn_call [simp]:
  "length c = 32 \<Longrightarrow> utf8_valid (bytes_of_str f) \<Longrightarrow>
   trace_step (stack, roots) (fn_call c f v b) = (TraceFrame c f (unwrap_args_payload v) Trapped b [] # stack, roots)"
  unfolding trace_step_def Let_def event_kind_test
  by (simp add: fn_call_def make_event_def parse_fn_call_def symbol_str_sym)

lemma step_fn_return [simp]:
  "trace_step (frame # stack, roots) (fn_return c f v b)
     = attach stack roots (set_rolled_back b (set_result (Returned v) frame))"
  "trace_step ([], roots) (fn_return c f v b) = ([], roots)"
  unfolding trace_step_def Let_def event_kind_test
  by (simp_all add: fn_return_def make_event_def)

lemmas trace_run = from_events_def frame_count_def had_failures_def bytes_of_str_def Let_def

section \<open>The parser\<close>

definition empty_event_stream_yields_empty_trace :: bool where
  "empty_event_stream_yields_empty_trace =
     (let roots = from_events [] in roots = [] \<and> frame_count roots = 0 \<and> \<not> had_failures roots)"

definition single_call_returns_one_root :: bool where
  "single_call_returns_one_root =
     (let roots = from_events [fn_call c1 ''balance'' ScVoid False, fn_return c1 ''balance'' (i128_parts 42) False];
          root = roots ! 0 in
      length roots = 1 \<and> tf_function root = ''balance''
      \<and> (case tf_result root of Returned (ScI128 _ _) \<Rightarrow> True | _ \<Rightarrow> False)
      \<and> \<not> tf_rolled_back root \<and> tf_children root = [] \<and> frame_count roots = 1 \<and> \<not> had_failures roots)"

definition nested_call_becomes_child :: bool where
  "nested_call_becomes_child =
     (let roots = from_events
        [fn_call c1 ''deposit'' (ScU32 100) False, fn_call c2 ''transfer'' (ScU32 100) False,
         fn_return c2 ''transfer'' ScVoid False, fn_return c1 ''deposit'' (ScU32 100) False] in
      length roots = 1 \<and> tf_function (roots ! 0) = ''deposit'' \<and> length (tf_children (roots ! 0)) = 1
      \<and> tf_function (tf_children (roots ! 0) ! 0) = ''transfer'' \<and> frame_count roots = 2)"

definition three_level_nesting_preserves_order :: bool where
  "three_level_nesting_preserves_order =
     (let roots = from_events
        [fn_call c1 ''a'' ScVoid False, fn_call c2 ''b'' ScVoid False, fn_call c3 ''c'' ScVoid False,
         fn_return c3 ''c'' ScVoid False, fn_return c2 ''b'' ScVoid False, fn_return c1 ''a'' ScVoid False];
          a = roots ! 0; b = tf_children a ! 0; c = tf_children b ! 0 in
      tf_function a = ''a'' \<and> tf_function b = ''b'' \<and> tf_function c = ''c'' \<and> tf_children c = [])"

definition sibling_calls_at_same_depth :: bool where
  "sibling_calls_at_same_depth =
     (let roots = from_events
        [fn_call c1 ''root'' ScVoid False, fn_call c2 ''first'' ScVoid False, fn_return c2 ''first'' ScVoid False,
         fn_call c3 ''second'' ScVoid False, fn_return c3 ''second'' ScVoid False, fn_return c1 ''root'' ScVoid False];
          children = tf_children (roots ! 0) in
      length children = 2 \<and> tf_function (children ! 0) = ''first'' \<and> tf_function (children ! 1) = ''second'')"

definition trapped_frame_is_emitted_on_missing_return :: bool where
  "trapped_frame_is_emitted_on_missing_return =
     (let roots = from_events [fn_call c1 ''panicking'' ScVoid False] in
      length roots = 1 \<and> tf_result (roots ! 0) = Trapped \<and> tf_rolled_back (roots ! 0) \<and> had_failures roots)"

definition rolled_back_frame_keeps_return_value :: bool where
  "rolled_back_frame_keeps_return_value =
     (let roots = from_events [fn_call c1 ''child'' ScVoid False, fn_return c1 ''child'' (ScU32 7) True] in
      length roots = 1 \<and> tf_result (roots ! 0) = Returned (ScU32 7) \<and> tf_rolled_back (roots ! 0)
      \<and> had_failures roots)"

definition orphan_return_is_skipped_not_panic :: bool where
  "orphan_return_is_skipped_not_panic = (from_events [fn_return c1 ''lonely'' ScVoid False] = [])"

definition malformed_fn_call_is_skipped :: bool where
  "malformed_fn_call_is_skipped =
     (from_events [make_event None [sym ''fn_call'', ScBytes c1] ScVoid False] = [])"

definition non_diagnostic_events_are_ignored :: bool where
  "non_diagnostic_events_are_ignored =
     (let he = make_event None [sym ''fn_call'', ScBytes c1, sym ''evil''] ScVoid False in
      from_events [he\<lparr>he_event := (he_event he)\<lparr>ev_type := EvContract\<rparr>\<rparr>] = [])"

definition multi_arg_data_is_unwrapped :: bool where
  "multi_arg_data_is_unwrapped =
     (let roots = from_events
        [fn_call c1 ''f'' (ScVec (Some [ScU32 1, ScU32 2, ScU32 3])) False, fn_return c1 ''f'' ScVoid False] in
      length (tf_args (roots ! 0)) = 3)"

definition single_arg_data_is_one_arg :: bool where
  "single_arg_data_is_one_arg =
     (let roots = from_events [fn_call c1 ''f'' (ScU32 99) False, fn_return c1 ''f'' ScVoid False] in
      tf_args (roots ! 0) = [ScU32 99])"

definition zero_arg_data_is_no_args :: bool where
  "zero_arg_data_is_no_args =
     (let roots = from_events [fn_call c1 ''f'' ScVoid False, fn_return c1 ''f'' ScVoid False] in
      tf_args (roots ! 0) = [])"

lemma empty_trace_test: empty_event_stream_yields_empty_trace
  by (simp add: empty_event_stream_yields_empty_trace_def trace_run)

lemma nesting_tests: single_call_returns_one_root nested_call_becomes_child three_level_nesting_preserves_order
    sibling_calls_at_same_depth
  by (simp_all add: single_call_returns_one_root_def nested_call_becomes_child_def
      three_level_nesting_preserves_order_def sibling_calls_at_same_depth_def i128_parts_def trace_run)

lemma failure_tests: trapped_frame_is_emitted_on_missing_return rolled_back_frame_keeps_return_value
  by (simp_all add: trapped_frame_is_emitted_on_missing_return_def rolled_back_frame_keeps_return_value_def trace_run)

lemma event_kind_make: "event_kind (make_event cid (sym ''fn_call'' # ts) v b) = Some ''fn_call''"
  by (simp only: event_kind_def make_event_def contract_event.simps host_event.simps list.case symbol_str_sym
      keyword_valid if_False not_not simp_thms)

lemma skipped_tests: orphan_return_is_skipped_not_panic malformed_fn_call_is_skipped
    non_diagnostic_events_are_ignored
proof -
  show orphan_return_is_skipped_not_panic by (simp add: orphan_return_is_skipped_not_panic_def trace_run)
  have "trace_step ([], []) (make_event None [sym ''fn_call'', ScBytes c1] ScVoid False) = ([], [])"
    unfolding trace_step_def Let_def event_kind_make
    by (simp add: make_event_def parse_fn_call_def)
  then show malformed_fn_call_is_skipped by (simp add: malformed_fn_call_is_skipped_def from_events_def)
  show non_diagnostic_events_are_ignored
    by (simp add: non_diagnostic_events_are_ignored_def from_events_def trace_step_def event_kind_def make_event_def)
qed

lemma args_tests: multi_arg_data_is_unwrapped single_arg_data_is_one_arg zero_arg_data_is_no_args
  by (simp_all add: multi_arg_data_is_unwrapped_def single_arg_data_is_one_arg_def zero_arg_data_is_no_args_def
      trace_run)

section \<open>Rendering\<close>

definition display_empty_trace_is_explicit :: bool where
  "display_empty_trace_is_explicit = contained (render_trace sample_lib []) ''empty''"

definition display_simple_trace_renders_function_and_return :: bool where
  "display_simple_trace_renders_function_and_return =
     (let text = render_trace sample_lib
        (from_events [fn_call c1 ''balance'' ScVoid False, fn_return c1 ''balance'' (i128_parts 42) False]) in
      contained text ''[TRACE]'' \<and> contained text ''balance'' \<and> contained text ''42'')"

definition display_marks_rolled_back_frames :: bool where
  "display_marks_rolled_back_frames =
     contained (render_trace sample_lib
       (from_events [fn_call c1 ''child'' ScVoid False, fn_return c1 ''child'' ScVoid True])) ''rolled back''"

definition display_marks_trapped_frames :: bool where
  "display_marks_trapped_frames =
     contained (render_trace sample_lib (from_events [fn_call c1 ''boom'' ScVoid False])) ''TRAPPED''"

lemma short_strkey: "abbreviate_strkey (CHR ''C'' # replicate 32 (CHR ''B'')) = Some (''CBBB'' @ utf8_ellipsis @ ''BBBB'')"
  by code_simp

lemma short_c1: "abbreviate_strkey (strkey_contract sample_lib c1) = Some (''CBBB'' @ utf8_ellipsis @ ''BBBB'')"
proof -
  have "char_of (66 :: nat) = CHR ''B''" by code_simp
  then show ?thesis using short_strkey by (simp add: sample_strkeys c1_def del: append_Cons)
qed

lemma show_42: "show_s (i128_from_pieces 0 42) = ''42''"
  by code_simp

lemma display_tests: display_empty_trace_is_explicit display_simple_trace_renders_function_and_return
    display_marks_rolled_back_frames display_marks_trapped_frames
  by (simp_all add: display_empty_trace_is_explicit_def display_simple_trace_renders_function_and_return_def
      display_marks_rolled_back_frames_def display_marks_trapped_frames_def trace_run render_trace_def
      contained_def i128_parts_def short_c1 show_42 render_result_def indent_def newline_def utf8_ellipsis_def
      utf8_left_arrow_def utf8_em_dash_def)

section \<open>Values\<close>

definition renders_primitives_compactly :: bool where
  "renders_primitives_compactly \<longleftrightarrow>
     render_scval sample_lib ScVoid = Some ''()'' \<and> render_scval sample_lib (ScBool True) = Some ''true''
     \<and> render_scval sample_lib (ScU32 42) = Some ''42'' \<and> render_scval sample_lib (ScI32 (- 7)) = Some ''-7''
     \<and> render_scval sample_lib (ScU64 123456) = Some ''123456''"

definition renders_i128_correctly :: bool where
  "renders_i128_correctly \<longleftrightarrow> render_scval sample_lib (i128_parts (- 1000000000000)) = Some ''-1000000000000''"

definition renders_short_bytes_as_full_hex :: bool where
  "renders_short_bytes_as_full_hex \<longleftrightarrow>
     render_scval sample_lib (ScBytes [0xde, 0xad, 0xbe, 0xef]) = Some ''0xdeadbeef''"

definition renders_long_bytes_with_preview :: bool where
  "renders_long_bytes_with_preview =
     (let text = render_scval sample_lib (ScBytes (replicate 64 0xab)) in
      map_option (take 18) text = Some ''0xabababababababab'' \<and> contained text ''64 bytes'')"

definition renders_symbol_as_text :: bool where
  "renders_symbol_as_text \<longleftrightarrow> render_scval sample_lib (sym ''transfer'') = Some ''transfer''"

definition renders_vec_with_commas :: bool where
  "renders_vec_with_commas \<longleftrightarrow> render_scval sample_lib (ScVec (Some [ScU32 1, ScU32 2])) = Some ''[1, 2]''"

definition abbreviate_strkey_short_unchanged :: bool where
  "abbreviate_strkey_short_unchanged \<longleftrightarrow> abbreviate_strkey ''abc'' = Some ''abc''"

definition abbreviate_strkey_long_truncates_with_ellipsis :: bool where
  "abbreviate_strkey_long_truncates_with_ellipsis =
     (case abbreviate_strkey ''GABCDEFGHIJKLMNOPQRSTUVWXYZ'' of
        None \<Rightarrow> False
      | Some s \<Rightarrow> take 4 s = ''GABC'' \<and> drop (length s - 3) s = ''XYZ'' \<and> contains s utf8_ellipsis)"

definition u128_from_pieces_roundtrip :: bool where
  "u128_from_pieces_roundtrip \<longleftrightarrow>
     u128_from_pieces 0 0 = 0 \<and> u128_from_pieces 0 42 = 42 \<and> u128_from_pieces 1 0 = push_bit 64 1
     \<and> u128_from_pieces (- 1) (- 1) = - 1"

definition i128_from_pieces_handles_negatives :: bool where
  "i128_from_pieces_handles_negatives \<longleftrightarrow>
     i128_from_pieces 0 0 = 0 \<and> i128_from_pieces 0 42 = 42 \<and> i128_from_pieces (- 1) (- 1) = - 1
     \<and> i128_from_pieces (- 1) 0 = push_bit 64 (- 1)"

lemma digit_chars:
  "digit_char 0 = CHR ''0''" "digit_char 1 = CHR ''1''" "digit_char 2 = CHR ''2''" "digit_char 3 = CHR ''3''"
  "digit_char 4 = CHR ''4''" "digit_char 5 = CHR ''5''" "digit_char 6 = CHR ''6''" "digit_char 7 = CHR ''7''"
  "digit_char 8 = CHR ''8''" "digit_char 9 = CHR ''9''"
  by code_simp+

lemmas show_numeral = show_u_def show_s_def show_int_def show_nat.simps [of "numeral n" for n] show_nat.simps [of 1]
  show_nat.simps [of 0] digit_chars digit_chars(2) [unfolded One_nat_def] show_nat.simps [of "Suc 0"]

lemma number_tests: renders_primitives_compactly renders_i128_correctly
proof -
  show renders_primitives_compactly
    by (simp add: renders_primitives_compactly_def show_numeral)
  show renders_i128_correctly
    by (simp add: renders_i128_correctly_def i128_parts_def i128_from_pieces_int show_numeral)
qed

lemma bytes_tests: renders_short_bytes_as_full_hex renders_long_bytes_with_preview
  by code_simp+

lemma text_tests: renders_symbol_as_text renders_vec_with_commas abbreviate_strkey_short_unchanged
    abbreviate_strkey_long_truncates_with_ellipsis
  by code_simp+

lemma pieces_tests: u128_from_pieces_roundtrip i128_from_pieces_handles_negatives
  by code_simp+

end
