(* ===== verification/AuthTests.thy ===== *)
theory AuthTests
  imports TraceTests
begin

text \<open>
  The unit tests at the end of \<open>src/auth_tree.rs\<close>, as in \<open>TraceTests\<close>.
\<close>

section \<open>The authorisation tree\<close>

definition account_addr :: "u8 \<Rightarrow> sc_address" where "account_addr b = AddrAccount (replicate 32 b)"
definition contract_addr :: "u8 \<Rightarrow> sc_address" where "contract_addr b = AddrContract (replicate 32 b)"

definition invoke_with_subs :: "sc_address \<Rightarrow> string \<Rightarrow> scval list \<Rightarrow> auth_invocation list \<Rightarrow> auth_invocation" where
  "invoke_with_subs contract func args subs =
     AuthInvocation (AfContractFn \<lparr> ic_contract = contract, ic_function = bytes_of_str func, ic_args = args \<rparr>) subs"

definition invoke :: "sc_address \<Rightarrow> string \<Rightarrow> scval list \<Rightarrow> auth_invocation" where
  "invoke contract func args =
     AuthInvocation (AfContractFn \<lparr> ic_contract = contract, ic_function = bytes_of_str func, ic_args = args \<rparr>) []"

definition test_payload :: "sc_address option \<Rightarrow> i64 option \<Rightarrow> auth_invocation \<Rightarrow> auth_payload" where
  "test_payload addr nonce invocation = \<lparr> ap_address = addr, ap_nonce = nonce, ap_invocation = invocation \<rparr>"

definition empty_tree_renders_explanatory_text :: bool where
  "empty_tree_renders_explanatory_text =
     (let tree = from_payloads [] in
      map_option (take 13) (render_auth_tree sample_lib tree) = Some ''[AUTH] (empty'' \<and> auth_is_empty tree
      \<and> payload_count tree = 0 \<and> invocation_count tree = 0)"

definition single_payload_with_explicit_signer_and_nonce :: bool where
  "single_payload_with_explicit_signer_and_nonce =
     (let tree = from_payloads [test_payload (Some (account_addr 0xAA)) (Some 12345)
                   (invoke (contract_addr 0xCC) ''deposit'' [i128_parts 1000000])];
          out = render_auth_tree sample_lib tree in
      contained out ''[AUTH]'' \<and> contained out ''payload #0'' \<and> contained out ''signer=''
      \<and> contained out ''nonce=12345'' \<and> contained out ''deposit(1000000)''
      \<and> payload_count tree = 1 \<and> invocation_count tree = 1)"

definition source_account_signer_renders_placeholder :: bool where
  "source_account_signer_renders_placeholder =
     (let out = render_auth_tree sample_lib
                  (from_payloads [test_payload None None (invoke (contract_addr 0xCC) ''submit'' [])]) in
      contained out ''signer=<source account>'' \<and> \<not> contained out ''nonce='')"

text \<open>\<open>str::lines\<close> on text that ends in a line break, and what \<open>trim_start\<close> takes off a line.\<close>

fun text_lines :: "string \<Rightarrow> string \<Rightarrow> string list" where
  "text_lines line [] = (if line = [] then [] else [line])"
| "text_lines line (c # rest) = (if c = CHR 0x0A then line # text_lines [] rest else text_lines (line @ [c]) rest)"

definition pad_of :: "string \<Rightarrow> string \<Rightarrow> nat option" where
  "pad_of out part =
     map_option (\<lambda>line. length (takeWhile (\<lambda>c. c = CHR '' '') line)) (find (\<lambda>line. contains line part) (text_lines [] out))"

definition nested_sub_invocations_indent_properly :: bool where
  "nested_sub_invocations_indent_properly =
     (let inner = invoke (contract_addr 0xDD) ''transfer_from'' [i128_parts 500];
          outer = invoke_with_subs (contract_addr 0xCC) ''deposit'' [i128_parts 500] [inner];
          tree = from_payloads [test_payload (Some (account_addr 0xAA)) (Some 1) outer] in
      (case render_auth_tree sample_lib tree of
         None \<Rightarrow> False
       | Some out \<Rightarrow>
           (case (pad_of out ''deposit('', pad_of out ''transfer_from('') of
              (Some outer_pad, Some inner_pad) \<Rightarrow> outer_pad < inner_pad
            | _ \<Rightarrow> False))
      \<and> invocation_count tree = 2)"

definition multi_payload_numbering :: bool where
  "multi_payload_numbering =
     (let tree = from_payloads
                   [test_payload (Some (account_addr 0xAA)) (Some 1) (invoke (contract_addr 0xCC) ''alpha'' []),
                    test_payload (Some (account_addr 0xBB)) (Some 2) (invoke (contract_addr 0xDD) ''beta'' [])];
          out = render_auth_tree sample_lib tree in
      contained out ''payload #0'' \<and> contained out ''payload #1'' \<and> contained out ''alpha(''
      \<and> contained out ''beta('' \<and> payload_count tree = 2)"

definition invocation_count_is_recursive :: bool where
  "invocation_count_is_recursive =
     (let leaf_a = invoke (contract_addr 0xEE) ''burn'' [];
          leaf_b = invoke (contract_addr 0xFF) ''mint'' [];
          mid = invoke_with_subs (contract_addr 0xDD) ''transfer'' [] [leaf_a, leaf_b];
          root = invoke_with_subs (contract_addr 0xCC) ''deposit'' [] [mid] in
      invocation_count (from_payloads [test_payload (Some (account_addr 0xAA)) (Some 1) root]) = 4)"

lemma abbreviated:
  "abbreviate_strkey (CHR ''C'' # replicate 32 (CHR ''W'')) = Some (''CWWW'' @ utf8_ellipsis @ ''WWWW'')"
  "abbreviate_strkey (CHR ''C'' # replicate 32 (CHR ''N'')) = Some (''CNNN'' @ utf8_ellipsis @ ''NNNN'')"
  "abbreviate_strkey (CHR ''G'' # replicate 32 (CHR ''O'')) = Some (''GOOO'' @ utf8_ellipsis @ ''OOOO'')"
  "abbreviate_strkey (CHR ''G'' # replicate 32 (CHR ''F'')) = Some (''GFFF'' @ utf8_ellipsis @ ''FFFF'')"
  by code_simp+

lemma chars_of: "char_of (87 :: nat) = CHR ''W''" "char_of (78 :: nat) = CHR ''N''" "char_of (79 :: nat) = CHR ''O''"
  "char_of (70 :: nat) = CHR ''F''"
  by code_simp+

lemma addresses:
  "render_address sample_lib (contract_addr 0xCC) = Some (''CWWW'' @ utf8_ellipsis @ ''WWWW'')"
  "render_address sample_lib (contract_addr 0xDD) = Some (''CNNN'' @ utf8_ellipsis @ ''NNNN'')"
  "render_address sample_lib (account_addr 0xAA) = Some (''GOOO'' @ utf8_ellipsis @ ''OOOO'')"
  "render_address sample_lib (account_addr 0xBB) = Some (''GFFF'' @ utf8_ellipsis @ ''FFFF'')"
  using abbreviated by (simp_all add: render_address_def contract_addr_def account_addr_def sample_strkeys chars_of)

lemmas auth_run = from_payloads_def payload_count_def invocation_count_def auth_is_empty_def invoke_def
  invoke_with_subs_def test_payload_def Let_def

lemma names:
  "from_utf8 (bytes_of_str ''deposit'') = Some ''deposit''" "from_utf8 (bytes_of_str ''submit'') = Some ''submit''"
  "from_utf8 (bytes_of_str ''transfer_from'') = Some ''transfer_from''"
  "from_utf8 (bytes_of_str ''alpha'') = Some ''alpha''" "from_utf8 (bytes_of_str ''beta'') = Some ''beta''"
  by code_simp+

lemma marks: "utf8_ellipsis = [CHR 0xE2, CHR 0x80, CHR 0xA6]" "indent 1 = ''  ''" "indent 2 = ''    ''" "indent 3 = ''      ''"
  by code_simp+

lemmas auth_render = render_auth_tree_def render_payload_def render_auth_function_def render_contract_fn_def
  addresses names marks marks(2) [unfolded One_nat_def] contained_def newline_def show_numeral
  i128_parts_def i128_from_pieces_int

lemma count_tests: empty_tree_renders_explanatory_text invocation_count_is_recursive
  by (simp_all add: empty_tree_renders_explanatory_text_def invocation_count_is_recursive_def auth_run render_auth_tree_def)

lemma payload_test: single_payload_with_explicit_signer_and_nonce
  by (simp add: single_payload_with_explicit_signer_and_nonce_def auth_run auth_render)

lemma source_account_test: source_account_signer_renders_placeholder
  by (simp add: source_account_signer_renders_placeholder_def auth_run auth_render)

lemma multi_payload_test: multi_payload_numbering
  by (simp add: multi_payload_numbering_def auth_run auth_render)

lemma nested_test: nested_sub_invocations_indent_properly
  by (simp add: nested_sub_invocations_indent_properly_def auth_run auth_render pad_of_def)

end
