(* ===== verification/Workspace.thy ===== *)
theory Workspace
  imports ForkError Json
begin

text \<open>
  \<open>src/workspace.rs\<close>: building a workspace member's contract with cargo and reading the bytes.
  Cargo, the file system and the JSON parser are the fields of \<open>cargo_env\<close>: what the \<open>n\<close>-th
  process of the run comes to, and what a file holds once \<open>n\<close> processes have ended.
\<close>

record process_command =
  pc_program :: string
  pc_args :: "string list"
  pc_dir :: "string option"

record process_output =
  po_success :: bool
  po_status :: string      \<comment> \<open>\<open>Display\<close> of \<open>ExitStatus\<close>\<close>
  po_stdout :: bytes
  po_stderr :: bytes

record cargo_env =
  ce_cargo :: "string option"                              \<comment> \<open>the variable \<open>CARGO\<close>\<close>
  ce_run :: "nat \<Rightarrow> process_command \<Rightarrow> string + process_output"
  ce_read :: "nat \<Rightarrow> string \<Rightarrow> string + bytes"
  ce_json :: "bytes \<Rightarrow> string + json"                     \<comment> \<open>\<open>serde_json::from_slice\<close>\<close>

section \<open>Text and paths\<close>

definition replacement_char :: string where
  "replacement_char = map char_of [239, 191, 189 :: nat]"

text \<open>\<open>String::from_utf8_lossy\<close>: each maximal piece of an ill-formed sequence becomes U+FFFD.\<close>

fun second_ok :: "u8 \<Rightarrow> u8 \<Rightarrow> bool" where
  "second_ok a b =
     (if a = 0xE0 then 0xA0 \<le> b \<and> b \<le> 0xBF else if a = 0xED then 0x80 \<le> b \<and> b \<le> 0x9F
      else if a = 0xF0 then 0x90 \<le> b \<and> b \<le> 0xBF else if a = 0xF4 then 0x80 \<le> b \<and> b \<le> 0x8F
      else cont_byte b)"

definition lossy_width :: "u8 \<Rightarrow> nat" where
  "lossy_width a =
     (if a < 0x80 then 1 else if 0xC2 \<le> a \<and> a \<le> 0xDF then 2 else if 0xE0 \<le> a \<and> a \<le> 0xEF then 3
      else if 0xF0 \<le> a \<and> a \<le> 0xF4 then 4 else 0)"

text \<open>How many bytes after the first belong to the sequence it starts.\<close>

definition lossy_tail :: "u8 \<Rightarrow> bytes \<Rightarrow> nat" where
  "lossy_tail a rest =
     (case rest of
        [] \<Rightarrow> 0
      | b # rest2 \<Rightarrow>
          if lossy_width a < 2 \<or> \<not> second_ok a b then 0
          else 1 + length (takeWhile cont_byte (take (lossy_width a - 2) rest2)))"

function utf8_lossy :: "bytes \<Rightarrow> string" where
  "utf8_lossy [] = []"
| "utf8_lossy (a # rest) =
     (let n = lossy_tail a rest in
      (if Suc n = lossy_width a then str_of_bytes (a # take n rest) else replacement_char)
      @ utf8_lossy (drop n rest))"
  by pat_completeness auto
termination
  by (relation "measure length") auto

definition join_text :: "string \<Rightarrow> string \<Rightarrow> string" where
  "join_text base p =
     (if p \<noteq> [] \<and> hd p = CHR ''/'' then p
      else if base = [] \<or> last base = CHR ''/'' then base @ p
      else base @ ''/'' @ p)"

section \<open>The steps\<close>

definition default_target :: string where "default_target = ''wasm32v1-none''"
definition default_profile :: string where "default_profile = ''release''"

definition cargo_bin :: "cargo_env \<Rightarrow> string" where
  "cargo_bin E = unwrap_or ''cargo'' (ce_cargo E)"

definition read_metadata :: "cargo_env \<Rightarrow> string option \<Rightarrow> nat \<Rightarrow> fork_error + json" where
  "read_metadata E manifest_dir n =
     (case ce_run E n \<lparr> pc_program = cargo_bin E, pc_args = [''metadata'', ''--no-deps'', ''--format-version=1''],
                       pc_dir = manifest_dir \<rparr> of
        Inl e \<Rightarrow> Inl (WorkspaceError (''failed to spawn `cargo metadata`: '' @ e))
      | Inr output \<Rightarrow>
          if \<not> po_success output then
            Inl (WorkspaceError (''`cargo metadata` failed (exit '' @ po_status output @ ''):'' @ [CHR 0x0A]
                                 @ trim (utf8_lossy (po_stderr output))))
          else map_err (\<lambda>e. WorkspaceError (''parsing cargo metadata JSON: '' @ e)) (ce_json E (po_stdout output)))"

definition extract_target_dir :: "json \<Rightarrow> fork_error + string" where
  "extract_target_dir metadata =
     ok_or (WorkspaceError ''cargo metadata response missing `target_directory`'')
       (json_as_str (json_index metadata ''target_directory''))"

fun join_names :: "string list \<Rightarrow> string" where
  "join_names [] = []"
| "join_names [x] = x"
| "join_names (x # xs) = x @ '', '' @ join_names xs"

text \<open>\<open>filter_map\<close> over a member: the names of the packages whose id is a member's.\<close>

definition member_ids :: "json list \<Rightarrow> string set" where
  "member_ids members = set (List.map_filter json_as_str members)"

definition workspace_names :: "string set \<Rightarrow> json list \<Rightarrow> string list" where
  "workspace_names ids packages =
     List.map_filter (\<lambda>pkg. json_as_str (json_index pkg ''name''))
       (filter (\<lambda>pkg. unwrap_or False (map_option (\<lambda>i. i \<in> ids) (json_as_str (json_index pkg ''id'')))) packages)"

definition require_workspace_member :: "json \<Rightarrow> string \<Rightarrow> fork_error + unit" where
  "require_workspace_member metadata crate_name =
     res_bind (ok_or (WorkspaceError ''cargo metadata response missing `workspace_members`'')
                 (json_as_array (json_index metadata ''workspace_members'')))
       (\<lambda>members. res_bind (ok_or (WorkspaceError ''cargo metadata response missing `packages`'')
                             (json_as_array (json_index metadata ''packages'')))
       (\<lambda>packages.
          let names = workspace_names (member_ids members) packages in
          if crate_name \<in> set names then Inr ()
          else Inl (WorkspaceError (crate_name @ '' is not a workspace member. cargo metadata listed: [''
                                    @ join_names names @ '']''))))"

definition build_args :: "string \<Rightarrow> string \<Rightarrow> string \<Rightarrow> string list" where
  "build_args crate_name target profile =
     [''build'', ''-p'', crate_name, ''--target'', target]
     @ (if profile = ''release'' then [''--release''] else if profile = ''dev'' then []
        else [''--profile'', profile])"

definition invoke_cargo_build ::
  "cargo_env \<Rightarrow> string option \<Rightarrow> string \<Rightarrow> string \<Rightarrow> string \<Rightarrow> nat \<Rightarrow> fork_error + unit" where
  "invoke_cargo_build E manifest_dir crate_name target profile n =
     (case ce_run E n \<lparr> pc_program = cargo_bin E, pc_args = build_args crate_name target profile,
                       pc_dir = manifest_dir \<rparr> of
        Inl e \<Rightarrow> Inl (WorkspaceError (''failed to spawn `cargo build`: '' @ e))
      | Inr output \<Rightarrow>
          if \<not> po_success output then
            Inl (WorkspaceError (''`cargo build -p '' @ crate_name @ '' --target '' @ target @ ''` failed (exit ''
                   @ po_status output @ ''). cargo's stderr was already written to this process's stderr.''))
          else Inr ())"

text \<open>Two processes: the metadata is number 0, the build number 1; the artifact is read after both.\<close>

definition wasm_path :: "string \<Rightarrow> string \<Rightarrow> string \<Rightarrow> string \<Rightarrow> string" where
  "wasm_path target_dir target profile crate_name =
     join_text (join_text (join_text target_dir target) profile)
       (map (\<lambda>c. if c = CHR ''-'' then CHR ''_'' else c) crate_name @ ''.wasm'')"

definition workspace_wasm_in ::
  "cargo_env \<Rightarrow> string option \<Rightarrow> string \<Rightarrow> string \<Rightarrow> string \<Rightarrow> fork_error + bytes" where
  "workspace_wasm_in E manifest_dir crate_name target profile =
     res_bind (read_metadata E manifest_dir 0)
       (\<lambda>metadata. res_bind (extract_target_dir metadata)
       (\<lambda>target_dir. res_bind (require_workspace_member metadata crate_name)
       (\<lambda>_. res_bind (invoke_cargo_build E manifest_dir crate_name target profile 1)
       (\<lambda>_. let path = wasm_path target_dir target profile crate_name in
          map_err (\<lambda>e. WorkspaceError (''expected wasm output at '' @ path
                    @ '' after a successful build, but read failed: '' @ e)) (ce_read E 2 path)))))"

definition workspace_wasm_with :: "cargo_env \<Rightarrow> string \<Rightarrow> string \<Rightarrow> string \<Rightarrow> fork_error + bytes" where
  "workspace_wasm_with E crate_name target profile = workspace_wasm_in E None crate_name target profile"

definition workspace_wasm :: "cargo_env \<Rightarrow> string \<Rightarrow> fork_error + bytes" where
  "workspace_wasm E crate_name = workspace_wasm_in E None crate_name default_target default_profile"

section \<open>Lemmas\<close>

text \<open>A package of the workspace: its id is listed among the members.\<close>

definition package_of_workspace :: "json \<Rightarrow> string \<Rightarrow> bool" where
  "package_of_workspace metadata crate_name \<longleftrightarrow>
     (\<exists>members packages pkg i. json_index metadata ''workspace_members'' = JArray members
        \<and> json_index metadata ''packages'' = JArray packages \<and> pkg \<in> set packages
        \<and> JString i \<in> set members \<and> json_index pkg ''id'' = JString i
        \<and> json_index pkg ''name'' = JString crate_name)"

lemma json_as_str_Some [simp]: "json_as_str j = Some s \<longleftrightarrow> j = JString s"
  by (cases j) auto

lemma json_as_array_Some [simp]: "json_as_array j = Some xs \<longleftrightarrow> j = JArray xs"
  by (cases j) auto

lemma set_map_filter: "y \<in> set (List.map_filter f xs) \<longleftrightarrow> (\<exists>x\<in>set xs. f x = Some y)"
  by (force simp: List.map_filter_def)

lemma workspace_names_iff:
  "n \<in> set (workspace_names ids packages) \<longleftrightarrow>
     (\<exists>pkg\<in>set packages. \<exists>i\<in>ids. json_index pkg ''id'' = JString i \<and> json_index pkg ''name'' = JString n)"
proof -
  have "unwrap_or False (map_option (\<lambda>i. i \<in> ids) (json_as_str (json_index pkg ''id''))) \<longleftrightarrow>
      (\<exists>i\<in>ids. json_index pkg ''id'' = JString i)" for pkg
    by (cases "json_index pkg ''id''") auto
  then show ?thesis by (auto simp: workspace_names_def set_map_filter)
qed

lemma member_ids_iff: "i \<in> member_ids members \<longleftrightarrow> JString i \<in> set members"
  by (auto simp: member_ids_def set_map_filter)

lemma require_workspace_member_iff:
  "require_workspace_member metadata crate_name = Inr () \<longleftrightarrow> package_of_workspace metadata crate_name"
proof -
  let ?m = "json_as_array (json_index metadata ''workspace_members'')"
  let ?p = "json_as_array (json_index metadata ''packages'')"
  show ?thesis
  proof (cases "?m = None \<or> ?p = None")
    case True
    then have "\<not> package_of_workspace metadata crate_name" by (auto simp: package_of_workspace_def)
    with True show ?thesis by (cases ?m) (auto simp: require_workspace_member_def)
  next
    case False
    then obtain members packages where m: "json_index metadata ''workspace_members'' = JArray members"
      and p: "json_index metadata ''packages'' = JArray packages" by auto
    show ?thesis
      by (auto simp: require_workspace_member_def package_of_workspace_def m p workspace_names_iff member_ids_iff Let_def)
  qed
qed

section \<open>Properties\<close>


end
