(* ===== verification/ModuleTests.thy ===== *)
theory ModuleTests
  imports AuthTests SampleTotal Workspace Handlers
begin

text \<open>
  The unit tests at the end of \<open>src/workspace.rs\<close>, \<open>src/rpc.rs\<close>, \<open>src/lib.rs\<close>, \<open>src/source.rs\<close>,
  \<open>src/cache.rs\<close>, \<open>src/test_accounts.rs\<close> and \<open>src/server/handlers.rs\<close>, as in \<open>TraceTests\<close>. What a
  test takes from the world (the generator's state, the file system, the snapshot reader, the
  crates) is an argument of its definition, and the lemma holds for every world that keeps the
  contract it names. Not among them: the test of \<open>Debug\<close> of \<open>ForkConfig\<close>, a derived text.
\<close>

definition failed_with :: "string \<Rightarrow> fork_error + 'a \<Rightarrow> bool" where
  "failed_with part r = (case r of Inl e \<Rightarrow> contains (show_fork_error e) part | Inr _ \<Rightarrow> False)"

definition cache_failed :: "fork_error + 'a \<Rightarrow> bool" where
  "cache_failed r = (case r of Inl (CacheError _ _) \<Rightarrow> True | _ \<Rightarrow> False)"

section \<open>\<open>workspace.rs\<close>\<close>

definition metadata_with :: "(string \<times> string) list \<Rightarrow> json" where
  "metadata_with members =
     JObject
       [(''workspace_members'', JArray (map (\<lambda>(i, _). JString i) members)),
        (''packages'', JArray (map (\<lambda>(i, name). JObject [(''id'', JString i), (''name'', JString name)]) members))]"

definition member_check_accepts_old_cargo_id_format :: bool where
  "member_check_accepts_old_cargo_id_format =
     (let metadata = metadata_with [(''foo 0.1.0 (path+file:///tmp/foo)'', ''foo''),
                                    (''bar-baz 0.2.0 (path+file:///tmp/bar-baz)'', ''bar-baz'')] in
      require_workspace_member metadata ''foo'' = Inr () \<and> require_workspace_member metadata ''bar-baz'' = Inr ())"

definition member_check_accepts_new_cargo_id_format_with_name :: bool where
  "member_check_accepts_new_cargo_id_format_with_name =
     (require_workspace_member (metadata_with [(''path+file:///tmp/aliased-dir#real-name@0.1.0'', ''real-name'')])
        ''real-name'' = Inr ())"

definition member_check_accepts_new_cargo_id_format_name_dropped :: bool where
  "member_check_accepts_new_cargo_id_format_name_dropped =
     (require_workspace_member (metadata_with [(''path+file:///tmp/sfork-smoke/demo_contract#0.0.1'', ''demo_contract'')])
        ''demo_contract'' = Inr ())"

definition member_check_rejects_unknown_member :: bool where
  "member_check_rejects_unknown_member =
     (let err = require_workspace_member (metadata_with [(''path+file:///tmp/foo#foo@0.1.0'', ''foo'')]) ''bar'' in
      failed_with ''bar is not a workspace member'' err \<and> failed_with ''foo'' err)"

definition member_check_does_not_match_substring_of_member_name :: bool where
  "member_check_does_not_match_substring_of_member_name =
     (require_workspace_member (metadata_with [(''path+file:///tmp/foobar#foobar@0.1.0'', ''foobar'')]) ''foo'' \<noteq> Inr ())"

definition member_check_errors_when_workspace_members_missing :: bool where
  "member_check_errors_when_workspace_members_missing =
     failed_with ''missing `workspace_members`'' (require_workspace_member (JObject []) ''foo'')"

definition member_check_errors_when_packages_missing :: bool where
  "member_check_errors_when_packages_missing =
     failed_with ''missing `packages`''
       (require_workspace_member
          (JObject [(''workspace_members'', JArray [JString ''path+file:///tmp/foo#foo@0.1.0''])]) ''foo'')"

definition member_check_ignores_non_workspace_packages :: bool where
  "member_check_ignores_non_workspace_packages =
     (let metadata = JObject
        [(''workspace_members'', JArray [JString ''path+file:///tmp/local#local@0.1.0'']),
         (''packages'', JArray
            [JObject [(''id'', JString ''path+file:///tmp/local#local@0.1.0''), (''name'', JString ''local'')],
             JObject [(''id'', JString ''registry+https://crates.io#serde@1.0.0''), (''name'', JString ''serde'')]])] in
      require_workspace_member metadata ''local'' = Inr () \<and> require_workspace_member metadata ''serde'' \<noteq> Inr ())"

definition target_dir_extracted_from_metadata :: bool where
  "target_dir_extracted_from_metadata =
     (extract_target_dir (JObject [(''target_directory'', JString ''/tmp/target'')]) = Inr ''/tmp/target'')"

definition target_dir_errors_on_missing :: bool where
  "target_dir_errors_on_missing = failed_with ''missing `target_directory`'' (extract_target_dir (JObject []))"

lemmas member_run = metadata_with_def require_workspace_member_def workspace_names_def member_ids_def
  failed_with_def List.map_filter_simps Let_def

lemma accept_tests: member_check_accepts_old_cargo_id_format member_check_accepts_new_cargo_id_format_with_name
    member_check_accepts_new_cargo_id_format_name_dropped
  by (simp_all add: member_check_accepts_old_cargo_id_format_def member_check_accepts_new_cargo_id_format_with_name_def
      member_check_accepts_new_cargo_id_format_name_dropped_def member_run)

lemma reject_tests: member_check_rejects_unknown_member member_check_does_not_match_substring_of_member_name
    member_check_ignores_non_workspace_packages
  by (simp_all add: member_check_rejects_unknown_member_def member_check_does_not_match_substring_of_member_name_def
      member_check_ignores_non_workspace_packages_def member_run)

lemma missing_tests: member_check_errors_when_workspace_members_missing member_check_errors_when_packages_missing
  by (simp_all add: member_check_errors_when_workspace_members_missing_def
      member_check_errors_when_packages_missing_def member_run)

lemma target_dir_tests: target_dir_extracted_from_metadata target_dir_errors_on_missing
  by (simp_all add: target_dir_extracted_from_metadata_def target_dir_errors_on_missing_def extract_target_dir_def
      failed_with_def)

section \<open>\<open>rpc.rs\<close>\<close>

text \<open>Samples of the delay, each from the generator's state the last one left.\<close>

fun sample_delays :: "nat \<Rightarrow> duration \<Rightarrow> u32 \<Rightarrow> u64 \<Rightarrow> duration list \<times> u64" where
  "sample_delays 0 base attempt rng = ([], rng)"
| "sample_delays (Suc n) base attempt rng =
     (let (d, rng1) = backoff_delay base attempt rng;
          (ds, rng2) = sample_delays n base attempt rng1 in
      (d # ds, rng2))"

fun delays_in_window :: "duration \<Rightarrow> nat list \<Rightarrow> u64 \<Rightarrow> bool" where
  "delays_in_window base [] rng = True"
| "delays_in_window base (attempt # rest) rng =
     (let factor = 2 ^ attempt;
          lower = Duration (as_nanos base * factor);
          upper = Duration (as_nanos base * (factor + 1));
          (ds, rng') = sample_delays 32 base (word_of_nat attempt) rng in
      list_all (\<lambda>d. lower \<le> d \<and> d < upper) ds \<and> delays_in_window base rest rng')"

definition backoff_delay_doubles_each_attempt_within_jitter_window :: "u64 \<Rightarrow> bool" where
  "backoff_delay_doubles_each_attempt_within_jitter_window rng = delays_in_window (dur_from_millis 100) [0, 1, 2, 3] rng"

definition backoff_delay_saturates_on_absurd_attempt :: "u64 \<Rightarrow> bool" where
  "backoff_delay_saturates_on_absurd_attempt rng =
     (let base = dur_from_secs 1 in base \<le> fst (backoff_delay base 100 rng))"

definition backoff_delay_zero_base_is_zero :: "u64 \<Rightarrow> bool" where
  "backoff_delay_zero_base_is_zero rng =
     (let (d0, rng1) = backoff_delay dur_zero 0 rng in
      d0 = dur_zero \<and> fst (backoff_delay dur_zero 5 rng1) = dur_zero)"

text \<open>The Cyrillic letters of the test's text, two bytes each, and its emoji, four.\<close>

definition test_word :: string where
  "test_word = map char_of [0xD1, 0x82, 0xD0, 0xB5, 0xD1, 0x81, 0xD1, 0x82 :: nat]"

definition rocket :: string where
  "rocket = map char_of [0xF0, 0x9F, 0x9A, 0x80 :: nat]"

definition truncate_chars_handles_multibyte_safely :: bool where
  "truncate_chars_handles_multibyte_safely =
     (let out = truncate_chars (test_word @ rocket @ test_word) 5 in
      last (chars_of out) = ellipsis \<and> length (chars_of out) = 6)"

definition truncate_chars_short_input_unchanged :: bool where
  "truncate_chars_short_input_unchanged =
     (truncate_chars ''abc'' 10 = ''abc'' \<and> truncate_chars '''' 10 = '''')"

definition json_rpc_response_into_result_returns_result_when_ok :: bool where
  "json_rpc_response_into_result_returns_result_when_ok =
     (into_result sample_lib \<lparr> resp_result = Some (42 :: u32), resp_error = None \<rparr> = Inr 42)"

definition json_rpc_response_into_result_propagates_error_field :: bool where
  "json_rpc_response_into_result_propagates_error_field =
     (case into_result sample_lib
             \<lparr> resp_result = (None :: u32 option),
               resp_error = Some (JObject [(''code'', JNumber (NegInt (- 32000))), (''message'', JString ''boom'')]) \<rparr> of
        Inl (RpcError _) \<Rightarrow> True
      | _ \<Rightarrow> False)"

definition json_rpc_response_into_result_errors_when_no_result_no_error :: bool where
  "json_rpc_response_into_result_errors_when_no_result_no_error =
     (into_result sample_lib \<lparr> resp_result = (None :: u32 option), resp_error = None \<rparr> = Inl RpcNoResult)"

definition rpc_config_default_has_sensible_values :: bool where
  "rpc_config_default_has_sensible_values =
     (let cfg = rpc_config_default in
      1 \<le> rpc_retries cfg \<and> dur_from_millis 50 \<le> rpc_base_retry_delay cfg \<and> rpc_max_keys_per_request cfg = 200
      \<and> rpc_request_timeout cfg \<noteq> None)"

lemma sample_delays_all:
  "(\<And>rng. P (fst (backoff_delay base attempt rng))) \<Longrightarrow> list_all P (fst (sample_delays n base attempt rng))"
proof (induction n arbitrary: rng)
  case (Suc n)
  show ?case
    using Suc.prems [of rng] Suc.IH [OF Suc.prems] by (simp add: split_def Let_def)
qed simp

lemma window:
  assumes "attempt < 4"
  shows "list_all (\<lambda>d. Duration (as_nanos (dur_from_millis 100) * 2 ^ attempt) \<le> d
            \<and> d < Duration (as_nanos (dur_from_millis 100) * (2 ^ attempt + 1)))
          (fst (sample_delays n (dur_from_millis 100) (word_of_nat attempt) rng))"
proof (rule sample_delays_all)
  fix rng
  have a: "unat (word_of_nat attempt :: u32) = attempt" using assms by (simp add: unat_of_nat)
  have "(2 :: nat) ^ attempt \<le> 2 ^ 3" using assms by (intro power_increasing) simp_all
  then show "Duration (as_nanos (dur_from_millis 100) * 2 ^ attempt) \<le> fst (backoff_delay (dur_from_millis 100) (word_of_nat attempt) rng)
      \<and> fst (backoff_delay (dur_from_millis 100) (word_of_nat attempt) rng) < Duration (as_nanos (dur_from_millis 100) * (2 ^ attempt + 1))"
    using backoff_delay_bounds [of "dur_from_millis 100" "word_of_nat attempt" rng] assms
    by (simp add: a duration_ord dur_from_millis_def duration_max_def algebra_simps)
qed

lemma window_list: "\<forall>a\<in>set attempts. a < 4 \<Longrightarrow> delays_in_window (dur_from_millis 100) attempts rng"
  by (induction attempts arbitrary: rng) (use window in \<open>simp_all add: split_def Let_def\<close>)

lemma backoff_window_test: "backoff_delay_doubles_each_attempt_within_jitter_window rng"
  unfolding backoff_delay_doubles_each_attempt_within_jitter_window_def by (rule window_list) simp

lemma backoff_edge_tests: "backoff_delay_saturates_on_absurd_attempt rng" "backoff_delay_zero_base_is_zero rng"
proof -
  have "unat (- 1 :: u32) = 4294967295" by (simp add: unsigned_minus_1_eq_mask mask_eq_exp_minus_1)
  then show "backoff_delay_saturates_on_absurd_attempt rng"
    by (simp add: backoff_delay_saturates_on_absurd_attempt_def backoff_delay_def saturating_pow2_def dur_defs
        duration_ord duration_max_def Let_def split_def)
  show "backoff_delay_zero_base_is_zero rng"
    by (simp add: backoff_delay_zero_base_is_zero_def backoff_delay_def dur_defs duration_max_def jitter_under_def
        Let_def split_def)
qed

lemma truncate_tests: truncate_chars_handles_multibyte_safely truncate_chars_short_input_unchanged
  by code_simp+

lemma into_result_tests: json_rpc_response_into_result_returns_result_when_ok
    json_rpc_response_into_result_propagates_error_field json_rpc_response_into_result_errors_when_no_result_no_error
  by (simp_all add: json_rpc_response_into_result_returns_result_when_ok_def
      json_rpc_response_into_result_propagates_error_field_def
      json_rpc_response_into_result_errors_when_no_result_no_error_def into_result_def)

lemma rpc_config_test: rpc_config_default_has_sensible_values
  by (simp add: rpc_config_default_has_sensible_values_def rpc_config_default_def dur_defs duration_ord Let_def)

section \<open>\<open>lib.rs\<close>\<close>

definition fork_config_builder_records_overrides :: "ext_lib \<Rightarrow> bool" where
  "fork_config_builder_records_overrides X =
     (case fork_config_new X ''https://example.test'' of
        None \<Rightarrow> False
      | Some c \<Rightarrow>
          let cfg = tracing True (max_protocol_version 25 (pinned_timestamp 999 (at_ledger 12345
                      (with_mode Lenient (network_id (replicate 32 7) (cache_file [''/'', ''tmp'', ''ignored.json''] c)))))) in
          cfg_rpc_url cfg = ''https://example.test''
          \<and> cfg_cache_path cfg = Some [''/'', ''tmp'', ''ignored.json'']
          \<and> cfg_network_id cfg = Some (replicate 32 7)
          \<and> cfg_fetch_mode cfg = Some Lenient
          \<and> cfg_pinned_ledger cfg = Some 12345
          \<and> cfg_pinned_timestamp cfg = Some 999
          \<and> cfg_max_protocol_version cfg = Some 25
          \<and> cfg_tracing cfg)"

definition cap_protocol_version_clamps_to_host_and_request :: bool where
  "cap_protocol_version_clamps_to_host_and_request \<longleftrightarrow>
     cap_protocol_version 26 None 25 = 25 \<and> cap_protocol_version 22 None 25 = 22
     \<and> cap_protocol_version 26 (Some 21) 25 = 21 \<and> cap_protocol_version 26 (Some 99) 25 = 25
     \<and> cap_protocol_version 25 None 25 = 25"

definition fork_config_tracing_default_is_off :: "ext_lib \<Rightarrow> bool" where
  "fork_config_tracing_default_is_off X =
     (case fork_config_new X ''https://example.test'' of None \<Rightarrow> False | Some cfg \<Rightarrow> \<not> cfg_tracing cfg)"

definition explicit_network_id_override_is_stored :: "ext_lib \<Rightarrow> bool" where
  "explicit_network_id_override_is_stored X =
     (case map_option (network_id (replicate 32 0xAB)) (fork_config_new X ''https://example.test'') of
        None \<Rightarrow> False
      | Some cfg \<Rightarrow> cfg_network_id cfg = Some (replicate 32 0xAB))"

lemma config_tests:
  assumes "usdc_mainnet_trustline_asset X = Some usdc"
  shows "fork_config_builder_records_overrides X" "fork_config_tracing_default_is_off X"
    "explicit_network_id_override_is_stored X"
  by (simp_all add: fork_config_builder_records_overrides_def fork_config_tracing_default_is_off_def
      explicit_network_id_override_is_stored_def fork_config_new_def assms tracing_def max_protocol_version_def
      pinned_timestamp_def at_ledger_def with_mode_def network_id_def cache_file_def Let_def)

lemma cap_test: cap_protocol_version_clamps_to_host_and_request
  by code_simp

section \<open>\<open>source.rs\<close>\<close>

definition dummy_client :: rpc_client where
  "dummy_client = \<lparr> rc_url = ''http://localhost:0'', rc_config = rpc_config_default \<rparr>"

text \<open>\<open>ContractMaxSizeBytes\<close> is setting 0, and its entry a discriminant and the size.\<close>

definition dummy_key :: ledger_key where
  "dummy_key = KeyConfigSetting (SettingOther 0)"

definition dummy_entry :: "u32 \<Rightarrow> snapshot_entry" where
  "dummy_entry last_modified =
     (dummy_key,
      \<lparr> le_last_modified = last_modified, le_data = DataConfigSetting (CfgOther [0, 0, 0, 0, 0, 1, 0, 0]), le_ext = ExtV0 \<rparr>,
      None)"

definition abbreviate_short_string_is_unchanged :: bool where
  "abbreviate_short_string_is_unchanged =
     (abbreviate ''abc'' = Some ''abc'' \<and> abbreviate ''12345678'' = Some ''12345678'')"

definition abbreviate_long_string_collapses_middle :: bool where
  "abbreviate_long_string_collapses_middle =
     (let full = ''GABCDEFGHIJKLMNOPQRSTUVWXYZ01234567890ABCDEFGHIJKLMNOPQR'' in
      case abbreviate full of
        None \<Rightarrow> False
      | Some short \<Rightarrow> short = ''GABC...OPQR'' \<and> length short < length full)"

definition key_display_renders_config_setting :: "ext_lib \<Rightarrow> bool" where
  "key_display_renders_config_setting X = (key_display X dummy_key = Some ''ConfigSetting'')"

definition fetch_mode_default_is_strict :: bool where
  "fetch_mode_default_is_strict = (src_fetch_mode (source_new dummy_client) = Strict)"

definition xdr_round_trip_preserves_ledger_entry :: "ext_lib \<Rightarrow> bool" where
  "xdr_round_trip_preserves_ledger_entry X =
     (let (_, entry, _) = dummy_entry 42 in
      case encode_entry X entry of
        None \<Rightarrow> False
      | Some encoded \<Rightarrow>
          (case decode_entry X encoded of
             None \<Rightarrow> False
           | Some decoded \<Rightarrow> entry = decoded \<and> encode_entry X decoded = Some encoded))"

definition preload_then_entries_round_trips :: "ext_lib \<Rightarrow> bool" where
  "preload_then_entries_round_trips X =
     (let original = [dummy_entry 7] in
      case Option.bind (preload X original (source_new dummy_client)) (entries X) of
        None \<Rightarrow> False
      | Some exported \<Rightarrow> length exported = 1 \<and> exported ! 0 = original ! 0)"

definition get_returns_preloaded_entry :: "ext_lib \<Rightarrow> rpc_world \<Rightarrow> bool" where
  "get_returns_preloaded_entry X w =
     (let (key, entry, live_until) = dummy_entry 99 in
      case preload X [(key, entry, live_until)] (source_new dummy_client) of
        None \<Rightarrow> False
      | Some src \<Rightarrow>
          (case snapshot_get X key (src, w) of
             Some (Some (got_entry, got_live_until), src', _) \<Rightarrow>
               got_entry = entry \<and> got_live_until = live_until \<and> fetch_count src' = 0
           | _ \<Rightarrow> False))"

text \<open>
  Eight threads, each with a hundred reads under the source's lock: whatever their order, the source
  sees eight hundred reads.
\<close>

fun reads_agree :: "ext_lib \<Rightarrow> nat \<Rightarrow> ledger_key \<Rightarrow> ledger_entry \<Rightarrow> source \<times> rpc_world \<Rightarrow> (source \<times> rpc_world) option" where
  "reads_agree X 0 key entry sw = Some sw"
| "reads_agree X (Suc n) key entry sw =
     (case snapshot_get X key sw of
        Some (Some (got, _), sw') \<Rightarrow> if got = entry then reads_agree X n key entry sw' else None
      | _ \<Rightarrow> None)"

definition concurrent_reads_of_preloaded_entry_are_race_free :: "ext_lib \<Rightarrow> rpc_world \<Rightarrow> bool" where
  "concurrent_reads_of_preloaded_entry_are_race_free X w =
     (let (key, entry, live_until) = dummy_entry 123 in
      case preload X [(key, entry, live_until)] (source_new dummy_client) of
        None \<Rightarrow> False
      | Some src \<Rightarrow>
          (case reads_agree X (8 * 100) key entry (src, w) of
             None \<Rightarrow> False
           | Some (src', _) \<Rightarrow> fetch_count src' = 0))"

lemma text_of_keys_tests: abbreviate_short_string_is_unchanged abbreviate_long_string_collapses_middle
  by code_simp+

lemma fetch_mode_test: fetch_mode_default_is_strict
  by (simp add: fetch_mode_default_is_strict_def source_new_def)

lemma key_display_test: "key_display_renders_config_setting X"
  by (simp add: key_display_renders_config_setting_def key_display_def dummy_key_def)

lemma reads_agree_steady:
  "snapshot_get X key sw = Some (Some (entry, lu), sw) \<Longrightarrow> reads_agree X n key entry sw = Some sw"
  by (induction n) simp_all

lemma codec_tests:
  assumes "entry_codec_ok X" "\<And>e. encode_entry X e \<noteq> None"
  shows "xdr_round_trip_preserves_ledger_entry X" "preload_then_entries_round_trips X"
    "get_returns_preloaded_entry X w" "concurrent_reads_of_preloaded_entry_are_race_free X w"
proof -
  have ex: "\<exists>bs. encode_entry X e = Some bs \<and> decode_entry X bs = Some e" for e
    using assms decode_encode by blast
  show "xdr_round_trip_preserves_ledger_entry X"
    using ex [of "fst (snd (dummy_entry 42))"]
    by (auto simp: xdr_round_trip_preserves_ledger_entry_def dummy_entry_def)
  show "preload_then_entries_round_trips X"
    using ex [of "fst (snd (dummy_entry 7))"]
    by (auto simp: preload_then_entries_round_trips_def dummy_entry_def source_new_def cache_insert_def entries_def
        List.map_filter_simps)
  have get: "\<exists>src. preload X [(k, e, lu)] (source_new dummy_client) = Some src
      \<and> snapshot_get X k (src, w) = Some (Some (e, lu), src, w) \<and> fetch_count src = 0" for k e lu
    using ex [of e] by (auto simp: source_new_def cache_insert_def snapshot_get_def fetch_count_def)
  show "get_returns_preloaded_entry X w"
  proof -
    obtain key entry live_until where d: "dummy_entry 99 = (key, entry, live_until)" by (metis prod_cases3)
    from get [of key entry live_until] obtain src
      where s: "preload X [(key, entry, live_until)] (source_new dummy_client) = Some src" "fetch_count src = 0"
        "snapshot_get X key (src, w) = Some (Some (entry, live_until), src, w)"
      by blast
    show ?thesis
      unfolding get_returns_preloaded_entry_def d Let_def prod.case s option.case by simp
  qed
  obtain key entry live_until where d: "dummy_entry 123 = (key, entry, live_until)" by (metis prod_cases3)
  from get [of key entry live_until] obtain src
    where s: "preload X [(key, entry, live_until)] (source_new dummy_client) = Some src" "fetch_count src = 0"
      "reads_agree X (8 * 100) key entry (src, w) = Some (src, w)"
    using reads_agree_steady by blast
  show "concurrent_reads_of_preloaded_entry_are_race_free X w"
    unfolding concurrent_reads_of_preloaded_entry_are_race_free_def d Let_def prod.case s option.case by (rule refl)
qed

section \<open>\<open>cache.rs\<close>\<close>

definition cached_dummy :: snapshot_entry where
  "cached_dummy = dummy_entry 42"

text \<open>\<open>temp_dir\<close> of \<open>std::env\<close> is an argument.\<close>

definition tempfile_path :: "path \<Rightarrow> snapshot_io \<Rightarrow> string \<Rightarrow> path" where
  "tempfile_path temp_dir IO name =
     path_join temp_dir [''soroban-fork-test-'' @ show_nat (io_pid IO) @ ''-'' @ name]"

definition save_then_load_preserves_entries :: "snapshot_io \<Rightarrow> path \<Rightarrow> fs \<Rightarrow> bool" where
  "save_then_load_preserves_entries IO temp_dir files =
     (let tmp = tempfile_path temp_dir IO ''roundtrip.json'';
          original = [cached_dummy];
          (saved, states) = save_snapshot IO tmp original 100 1234567 (replicate 32 0xAB) 25 files in
      saved = Inr ()
      \<and> (case load_snapshot IO tmp (last states) of
           Inl _ \<Rightarrow> False
         | Inr loaded \<Rightarrow> length loaded = length original \<and> fst (loaded ! 0) = fst (original ! 0)
             \<and> snd (snd (loaded ! 0)) = snd (snd (original ! 0))))"

definition load_missing_file_returns_cache_error :: "snapshot_io \<Rightarrow> fs \<Rightarrow> bool" where
  "load_missing_file_returns_cache_error IO files =
     cache_failed (load_snapshot IO [''/'', ''nonexistent'', ''path'', ''soroban-fork-test.json''] files)"

definition load_malformed_file_returns_cache_error :: "snapshot_io \<Rightarrow> path \<Rightarrow> fs \<Rightarrow> bool" where
  "load_malformed_file_returns_cache_error IO temp_dir files =
     (let tmp = tempfile_path temp_dir IO ''malformed.json'' in
      cache_failed (load_snapshot IO tmp (files(tmp \<mapsto> ''{not json''))))"

definition starts_with :: "string \<Rightarrow> string \<Rightarrow> bool" where
  "starts_with name prefix = (take (length prefix) name = prefix)"

definition name_starts :: "path \<Rightarrow> string \<Rightarrow> bool" where
  "name_starts p prefix =
     (case Option.bind (path_file_name p) to_str of None \<Rightarrow> False | Some name \<Rightarrow> starts_with name prefix)"

definition tmp_sibling_lives_next_to_target :: "snapshot_io \<Rightarrow> bool" where
  "tmp_sibling_lives_next_to_target IO =
     (let tmp = tmp_sibling IO [''/'', ''tmp'', ''cache.json''] in
      path_parent tmp = Some [''/'', ''tmp''] \<and> name_starts tmp ''.cache.json.tmp.'')"

definition tmp_sibling_handles_bare_filename :: "snapshot_io \<Rightarrow> bool" where
  "tmp_sibling_handles_bare_filename IO = name_starts (tmp_sibling IO [''cache.json'']) ''.cache.json.tmp.''"

text \<open>A file in the directory of the target whose name is that of a temporary sibling.\<close>

definition leftover_tmp :: "path \<Rightarrow> path \<Rightarrow> bool" where
  "leftover_tmp target p =
     (path_parent p = path_parent target
      \<and> name_starts p (''.'' @ unwrap_or [] (Option.bind (path_file_name target) to_str) @ ''.tmp.''))"

definition save_is_atomic_no_tmp_left_behind :: "snapshot_io \<Rightarrow> path \<Rightarrow> fs \<Rightarrow> bool" where
  "save_is_atomic_no_tmp_left_behind IO temp_dir files =
     (let target = tempfile_path temp_dir IO ''atomic.json'';
          (saved, states) = save_snapshot IO target [cached_dummy] 1 1 (replicate 32 0) 25 files in
      saved = Inr () \<and> (\<forall>p. last states p \<noteq> None \<longrightarrow> \<not> leftover_tmp target p))"

lemma load_tests:
  assumes "\<And>text. text = None \<or> text = Some ''{not json'' \<Longrightarrow> \<exists>e. io_read IO text = Inl e"
  shows "files [''/'', ''nonexistent'', ''path'', ''soroban-fork-test.json''] = None \<Longrightarrow>
      load_missing_file_returns_cache_error IO files"
    "load_malformed_file_returns_cache_error IO temp_dir files"
  using assms [of None] assms [of "Some ''{not json''"]
  by (auto simp: load_missing_file_returns_cache_error_def load_malformed_file_returns_cache_error_def
      load_snapshot_def cache_failed_def)

lemma to_str_tmp_name: "tmp_filename path = ''cache.json'' \<Longrightarrow> to_str (tmp_name IO path) = Some (tmp_name IO path)"
proof -
  assume "tmp_filename path = ''cache.json''"
  moreover have "list_all (\<lambda>b. b < 0x80) (bytes_of_str ''cache.json'')" by code_simp
  ultimately show ?thesis using utf8_ascii tmp_name_ascii by (metis to_str_def)
qed

lemma tmp_filename_test: "tmp_filename [''/'', ''tmp'', ''cache.json''] = ''cache.json''"
    "tmp_filename [''cache.json''] = ''cache.json''"
  by code_simp+

lemma name_starts_tmp:
  assumes "tmp_filename path = ''cache.json''"
  shows "name_starts (tmp_sibling IO path) ''.cache.json.tmp.''"
proof -
  have "path_file_name (tmp_sibling IO path) = Some (tmp_name IO path)"
    using last_tmp_sibling [of IO path] tmp_name_no_special [of IO path] by (simp add: path_file_name_def)
  with to_str_tmp_name [OF assms] show ?thesis
    by (simp add: name_starts_def starts_with_def) (simp add: tmp_name_def assms)
qed

lemma sibling_tests: "tmp_sibling_lives_next_to_target IO" "tmp_sibling_handles_bare_filename IO"
  by (simp_all add: tmp_sibling_lives_next_to_target_def tmp_sibling_handles_bare_filename_def name_starts_tmp
      tmp_filename_test Let_def)
     (simp add: tmp_sibling_def path_parent_def tmp_name_no_special)

lemma save_result:
  assumes "\<And>snapshot. snd (io_write IO snapshot) = None" "io_rename_error IO = None"
  obtains states where "save_snapshot IO path es sq ts nid pv files = (Inr (), states)"
  using assms(1) [of "make_snapshot es sq ts nid pv"] assms(2)
  by (simp add: save_snapshot_def Let_def split_def)

lemma save_load_test:
  assumes "write_ok IO" "\<And>snapshot. snd (io_write IO snapshot) = None" "io_rename_error IO = None"
  shows "save_then_load_preserves_entries IO temp_dir files"
proof -
  obtain states where s: "save_snapshot IO (tempfile_path temp_dir IO ''roundtrip.json'') [cached_dummy] 100 1234567
      (replicate 32 0xAB) 25 files = (Inr (), states)"
    using save_result [OF assms(2,3)] by blast
  show ?thesis
    unfolding save_then_load_preserves_entries_def Let_def s prod.case
    using save_then_load [OF assms(1) s] by simp
qed

lemma atomic_test:
  assumes "write_ok IO" "\<And>snapshot. snd (io_write IO snapshot) = None" "io_rename_error IO = None"
    "\<And>p. files p \<noteq> None \<Longrightarrow> \<not> leftover_tmp (tempfile_path temp_dir IO ''atomic.json'') p"
  shows "save_is_atomic_no_tmp_left_behind IO temp_dir files"
proof -
  let ?t = "tempfile_path temp_dir IO ''atomic.json''"
  obtain states where s: "save_snapshot IO ?t [cached_dummy] 1 1 (replicate 32 0) 25 files = (Inr (), states)"
    using save_result [OF assms(2,3)] by blast
  have "states \<noteq> []" using s by (auto simp: save_snapshot_def Let_def split: prod.splits option.splits)
  then have frame: "p \<noteq> ?t \<Longrightarrow> p \<noteq> tmp_sibling IO ?t \<Longrightarrow> last states p = files p" for p
    using save_snapshot_atomic [OF assms(1) s last_in_set] by blast
  have target: "\<not> leftover_tmp ?t ?t"
    by (auto simp: leftover_tmp_def name_starts_def tempfile_path_def path_file_name_def to_str_def starts_with_def
        split: option.splits)
  have "\<not> leftover_tmp ?t p" if "last states p \<noteq> None" for p
    using that target frame [of p] assms(4) [of p] save_then_load [OF assms(1) s] by metis
  then show ?thesis
    unfolding save_is_atomic_no_tmp_left_behind_def Let_def s prod.case by simp
qed

section \<open>\<open>test_accounts.rs\<close>\<close>

definition generated_accounts_are_deterministic :: "ext_lib \<Rightarrow> bool" where
  "generated_accounts_are_deterministic X =
     (let a = generate X 3; b = generate X 3 in
      length a = 3
      \<and> list_all (\<lambda>(x, y). ta_secret_seed x = ta_secret_seed y \<and> ta_public_key x = ta_public_key y) (zip a b))"

definition strkeys_have_expected_prefixes :: "ext_lib \<Rightarrow> bool" where
  "strkeys_have_expected_prefixes X =
     (let a = generate X 1 ! 0 in
      starts_with (account_strkey X a) ''G'' \<and> starts_with (secret_key_strkey X a) ''S''
      \<and> length (account_strkey X a) = 56 \<and> length (secret_key_strkey X a) = 56)"

definition account_zero_is_stable :: "ext_lib \<Rightarrow> bool" where
  "account_zero_is_stable X =
     (let a = generate X 1 ! 0; strkey = account_strkey X a in length strkey = 56 \<and> starts_with strkey ''G'')"

text \<open>The strkey format: a kind letter, and 56 characters for a key of 32 bytes.\<close>

definition strkey_ok :: "ext_lib \<Rightarrow> bool" where
  "strkey_ok X \<longleftrightarrow>
     (\<forall>b. length b = 32 \<longrightarrow> length (strkey_account X b) = 56 \<and> take 1 (strkey_account X b) = ''G''
        \<and> length (strkey_secret X b) = 56 \<and> take 1 (strkey_secret X b) = ''S'')"

lemma accounts_deterministic_test: "generated_accounts_are_deterministic X"
  by (auto simp: generated_accounts_are_deterministic_def generate_def list_all_iff set_zip Let_def)

lemma strkey_tests:
  assumes "strkey_ok X" "\<And>b. length (sha256 X b) = 32" "\<And>b. length b = 32 \<Longrightarrow> length (ed25519_public X b) = 32"
  shows "strkeys_have_expected_prefixes X" "account_zero_is_stable X"
  using assms by (simp_all add: strkeys_have_expected_prefixes_def account_zero_is_stable_def generate_nth
      generate_one_def account_strkey_def secret_key_strkey_def starts_with_def strkey_ok_def Let_def)

section \<open>\<open>server/handlers.rs\<close>\<close>

text \<open>The decoders of the result and its metadata, which only the test uses, are arguments.\<close>

definition result_xdrs_round_trip_and_carry_return_value ::
  "ext_lib \<Rightarrow> (bytes \<Rightarrow> string + tx_result) \<Rightarrow> (bytes \<Rightarrow> string + tx_meta_v3) \<Rightarrow> bool" where
  "result_xdrs_round_trip_and_carry_return_value X result_from_xdr meta_from_xdr =
     (case build_result_xdrs X (ScI32 42) True of
        Inl _ \<Rightarrow> False
      | Inr (result_b64, meta_b64) \<Rightarrow>
          (case res_bind (b64_decode X result_b64) result_from_xdr of
             Inl _ \<Rightarrow> False
           | Inr result \<Rightarrow> (case txr_result result of TxSuccess _ \<Rightarrow> True | _ \<Rightarrow> False))
          \<and> (case res_bind (b64_decode X meta_b64) meta_from_xdr of
               Inl _ \<Rightarrow> False
             | Inr v3 \<Rightarrow> meta_return_value v3 = ScI32 42))"

lemma result_xdrs_test:
  assumes "\<And>b. b64_decode X (b64_encode X b) = Inr b"
    and "\<And>r. \<exists>b. result_to_xdr X r = Inr b \<and> result_from_xdr b = Inr r"
    and "\<And>m. \<exists>b. meta_to_xdr X m = Inr b \<and> meta_from_xdr b = Inr m"
  shows "result_xdrs_round_trip_and_carry_return_value X result_from_xdr meta_from_xdr"
proof -
  let ?r = "\<lparr> txr_fee_charged = 0, txr_result = TxSuccess [InvokeSuccess (replicate 32 0)] \<rparr>"
  let ?m = "\<lparr> meta_changes_before = [], meta_operations = [], meta_changes_after = [], meta_events = [],
    meta_return_value = ScI32 42, meta_diagnostic_events = [] \<rparr>"
  obtain b c where "result_to_xdr X ?r = Inr b" "result_from_xdr b = Inr ?r"
    "meta_to_xdr X ?m = Inr c" "meta_from_xdr c = Inr ?m"
    using assms(2) [of ?r] assms(3) [of ?m] by blast
  then show ?thesis
    by (simp add: result_xdrs_round_trip_and_carry_return_value_def build_result_xdrs_def encode_b64_def assms(1) Let_def)
qed

end
