(* ===== verification/SharedSource.thy ===== *)
theory SharedSource
  imports SampleTotal Simulation
begin

text \<open>
  The ledger source shared by threads: \<open>RpcSnapshotSource\<close> of \<open>src/source.rs\<close> is \<open>Send + Sync\<close>, its
  cache behind a mutex, its counter atomic. A call holds the lock only while it looks at the cache or
  writes to it; \<open>get\<close> lets go of it to decode what it found, and to ask upstream for what it did not
  find. The step relation has one step for each such piece, so that other calls may come in between. A
  call that panics while it holds the lock poisons the mutex, and every later \<open>lock().expect\<close> panics.
\<close>

section \<open>Calls\<close>

datatype source_call =
    CallGet ledger_key
  | CallPreload "snapshot_entry list"
  | CallSet ledger_key ledger_entry "u32 option"
  | CallBump account_id
  | CallApply "ledger_entry_change list"
  | CallEntries
  | CallCount

datatype source_answer =
    AnsGet "live_entry option"
  | AnsDone
  | AnsSeq "i64 option"
  | AnsApplied u32
  | AnsEntries "snapshot_entry list"
  | AnsCount u32

text \<open>
  How far a call has come. A \<open>get\<close> decodes a value it has copied, or counts its fetch, asks, and
  stores what it was told; \<open>entries\<close> decodes the values it has copied.
\<close>

datatype call_phase =
    Calling source_call
  | Decoding ledger_key "cached_bytes option"
  | DecodingAll "(ledger_key \<times> bytes \<times> u32 option) list"
  | Fetching ledger_key
  | Asking ledger_key
  | Storing ledger_key "live_entry option" "cached_bytes option"
  | Answered source_answer
  | Panicked source_call

text \<open>The section under the lock: the phase it leads to, the source after it, and whether the
  mutex is poisoned. The cache a panicking section leaves is never seen again.\<close>

fun enter :: "ext_lib \<Rightarrow> source_call \<Rightarrow> source \<Rightarrow> call_phase \<times> source \<times> bool" where
  "enter X (CallGet k) src =
     (case bt_get (src_cache src) k of None \<Rightarrow> Fetching k | Some v \<Rightarrow> Decoding k v, src, False)"
| "enter X (CallPreload es) src =
     (case preload X es src of
        None \<Rightarrow> (Panicked (CallPreload es), src, True)
      | Some src' \<Rightarrow> (Answered AnsDone, src', False))"
| "enter X (CallSet k entry live_until) src =
     (case set_entry X k entry live_until src of
        None \<Rightarrow> (Panicked (CallSet k entry live_until), src, False)   \<comment> \<open>it encodes before it locks\<close>
      | Some src' \<Rightarrow> (Answered AnsDone, src', False))"
| "enter X (CallBump a) src =
     (let (r, src') = bump_account_seq X a src in (Answered (AnsSeq r), src', False))"
| "enter X (CallApply changes) src =
     (case apply_changes X changes src of
        None \<Rightarrow> (Panicked (CallApply changes), src, True)
      | Some (n, src') \<Rightarrow> (Answered (AnsApplied n), src', False))"
| "enter X CallEntries src = (DecodingAll (List.map_filter cached_positive (src_cache src)), src, False)"
| "enter X CallCount src = (Answered (AnsCount (fetch_count src)), src, False)"

lemma enter_get:
  "enter X (CallGet k) src = (p, src', bad) \<longleftrightarrow>
     p = (case bt_get (src_cache src) k of None \<Rightarrow> Fetching k | Some v \<Rightarrow> Decoding k v) \<and> src' = src \<and> \<not> bad"
  by auto

section \<open>Outside the lock\<close>

definition decoded_get :: "ext_lib \<Rightarrow> ledger_key \<Rightarrow> cached_bytes option \<Rightarrow> call_phase" where
  "decoded_get X k v =
     (case v of
        None \<Rightarrow> Answered (AnsGet None)
      | Some (bs, live_until) \<Rightarrow>
          (case decode_entry X bs of
             None \<Rightarrow> Panicked (CallGet k)
           | Some e \<Rightarrow> Answered (AnsGet (Some (e, live_until)))))"

definition decoded_all :: "ext_lib \<Rightarrow> (ledger_key \<times> bytes \<times> u32 option) list \<Rightarrow> call_phase" where
  "decoded_all X raw =
     (case those (map (\<lambda>(k, bs, live_until). map_option (\<lambda>e. (k, e, live_until)) (decode_entry X bs)) raw) of
        None \<Rightarrow> Panicked CallEntries
      | Some out \<Rightarrow> Answered (AnsEntries out))"

definition counted :: "ext_lib \<Rightarrow> ledger_key \<Rightarrow> source \<Rightarrow> call_phase" where
  \<comment> \<open>\<open>fetch_add(1) + 1\<close>: the counter wraps, the sum is checked\<close>
  "counted X k src = (if src_fetch_count src = - 1 \<and> overflow_checks X then Panicked (CallGet k) else Asking k)"

definition to_store :: "ext_lib \<Rightarrow> ledger_key \<Rightarrow> live_entry option \<Rightarrow> call_phase" where
  "to_store X k result =
     (case result of
        None \<Rightarrow> Storing k None None
      | Some (entry, live_until) \<Rightarrow>
          (case encode_entry X entry of
             None \<Rightarrow> Panicked (CallGet k)
           | Some bs \<Rightarrow> Storing k result (Some (bs, live_until))))"

text \<open>What \<open>fetch_entry\<close> came to; \<open>None\<close> is its panic.\<close>

type_synonym fetch_reply = "(fork_error + fetched_entry option) option"

definition found_entry :: "fetched_entry option \<Rightarrow> live_entry option" where
  "found_entry found = map_option (\<lambda>f. (fe_entry f, fe_live_until f)) found"

definition received :: "ext_lib \<Rightarrow> fetch_mode \<Rightarrow> ledger_key \<Rightarrow> fetch_reply \<Rightarrow> call_phase" where
  "received X mode k reply =
     (case reply of
        None \<Rightarrow> Panicked (CallGet k)
      | Some (Inr found) \<Rightarrow> to_store X k (found_entry found)
      | Some (Inl e) \<Rightarrow> (case mode of Strict \<Rightarrow> Panicked (CallGet k) | Lenient \<Rightarrow> Storing k None None))"

section \<open>The threads\<close>

record shared =
  sh_source :: source
  sh_poisoned :: bool
  sh_calls :: "nat \<Rightarrow> call_phase option"            \<comment> \<open>the calls made, by number\<close>
  sh_log :: "(source_call \<times> source_answer) list"   \<comment> \<open>the calls that returned, the latest first\<close>

definition shared_new :: "source \<Rightarrow> shared" where
  "shared_new src = \<lparr> sh_source = src, sh_poisoned = False, sh_calls = (\<lambda>_. None), sh_log = [] \<rparr>"

definition settle :: "nat \<Rightarrow> source_call \<Rightarrow> call_phase \<Rightarrow> shared \<Rightarrow> shared" where
  "settle n c p s =
     s\<lparr>sh_calls := (sh_calls s)(n \<mapsto> p),
       sh_log := (case p of Answered a \<Rightarrow> (c, a) # sh_log s | _ \<Rightarrow> sh_log s)\<rparr>"

text \<open>The phases that take the lock next, with their call.\<close>

fun awaits_lock :: "call_phase \<Rightarrow> source_call option" where
  "awaits_lock (Calling c) = (if c = CallCount then None else Some c)"
| "awaits_lock (Storing k _ _) = Some (CallGet k)"
| "awaits_lock _ = None"

text \<open>
  \<open>replies\<close> says what a fetch of a key may come to, whatever the upstream does while others ask it;
  \<open>allowed\<close> which calls the threads make. The event is the number of the call that goes on.
\<close>

inductive shared_step :: "ext_lib \<Rightarrow> (ledger_key \<Rightarrow> fetch_reply \<Rightarrow> bool) \<Rightarrow> (source_call \<Rightarrow> bool)
    \<Rightarrow> nat \<Rightarrow> shared \<Rightarrow> shared \<Rightarrow> bool" for X replies allowed where
  call:
    "sh_calls s n = None \<Longrightarrow> allowed c \<Longrightarrow> shared_step X replies allowed n s (settle n c (Calling c) s)"
| lock:
    "sh_calls s n = Some (Calling c) \<Longrightarrow> \<not> sh_poisoned s \<or> c = CallCount \<Longrightarrow>
     enter X c (sh_source s) = (p, src, bad) \<Longrightarrow>
     shared_step X replies allowed n s (settle n c p (s\<lparr>sh_source := src, sh_poisoned := sh_poisoned s \<or> bad\<rparr>))"
| poisoned:
    "sh_calls s n = Some p \<Longrightarrow> awaits_lock p = Some c \<Longrightarrow> sh_poisoned s \<Longrightarrow>
     shared_step X replies allowed n s (settle n c (Panicked c) s)"
| decode:
    "sh_calls s n = Some (Decoding k v) \<Longrightarrow>
     shared_step X replies allowed n s (settle n (CallGet k) (decoded_get X k v) s)"
| decode_all:
    "sh_calls s n = Some (DecodingAll raw) \<Longrightarrow>
     shared_step X replies allowed n s (settle n CallEntries (decoded_all X raw) s)"
| count:
    "sh_calls s n = Some (Fetching k) \<Longrightarrow>
     shared_step X replies allowed n s (settle n (CallGet k) (counted X k (sh_source s))
       (s\<lparr>sh_source := (sh_source s)\<lparr>src_fetch_count := src_fetch_count (sh_source s) + 1\<rparr>\<rparr>))"
| ask:
    "sh_calls s n = Some (Asking k) \<Longrightarrow> replies k reply \<Longrightarrow>
     shared_step X replies allowed n s
       (settle n (CallGet k) (received X (src_fetch_mode (sh_source s)) k reply) s)"
| store:
    "sh_calls s n = Some (Storing k result v) \<Longrightarrow> \<not> sh_poisoned s \<Longrightarrow>
     shared_step X replies allowed n s (settle n (CallGet k) (Answered (AnsGet result))
       (s\<lparr>sh_source := cache_insert X k v (sh_source s)\<rparr>))"

lemma settle_simps [simp]:
  "sh_source (settle n c p s) = sh_source s" "sh_poisoned (settle n c p s) = sh_poisoned s"
  "sh_calls (settle n c p s) = (sh_calls s)(n \<mapsto> p)"
  "sh_log (settle n c p s) = (case p of Answered a \<Rightarrow> (c, a) # sh_log s | _ \<Rightarrow> sh_log s)"
  by (simp_all add: settle_def)

lemma unpoisoned [simp]: "\<not> sh_poisoned s \<Longrightarrow> s\<lparr>sh_poisoned := False\<rparr> = s"
  by (cases s) simp

lemma shared_new_simps [simp]:
  "sh_source (shared_new src) = src" "\<not> sh_poisoned (shared_new src)" "sh_calls (shared_new src) n = None"
  "sh_log (shared_new src) = []"
  by (simp_all add: shared_new_def)

text \<open>The replies of a real upstream, one of the behaviours \<open>S\<close>; the exchanges of a fetch are those it
  makes itself, whatever the other threads' come to in between.\<close>

definition upstream_replies :: "ext_lib \<Rightarrow> (nat \<Rightarrow> http_request \<Rightarrow> http_outcome) set \<Rightarrow> rpc_client
    \<Rightarrow> ledger_key \<Rightarrow> fetch_reply \<Rightarrow> bool" where
  "upstream_replies X S client k reply \<longleftrightarrow>
     (\<exists>U\<in>S. \<exists>w. reply = map_option fst (fetch_entry (X\<lparr>upstream := U\<rparr>) client k w))"

section \<open>Runs\<close>

definition shared_run :: "ext_lib \<Rightarrow> (ledger_key \<Rightarrow> fetch_reply \<Rightarrow> bool) \<Rightarrow> (source_call \<Rightarrow> bool)
    \<Rightarrow> shared \<Rightarrow> shared \<Rightarrow> bool" where
  "shared_run X replies allowed s s' \<longleftrightarrow> (\<exists>es. events_run (shared_step X replies allowed) es s s')"

lemma shared_run_refl: "shared_run X replies allowed s s"
  by (auto simp: shared_run_def intro: run_end)

lemma events_run_append:
  "events_run step es s s1 \<Longrightarrow> events_run step es' s1 s2 \<Longrightarrow> events_run step (es @ es') s s2"
  by (induction rule: events_run.induct) (auto intro: run_step)

lemma shared_run_trans [trans]:
  "shared_run X replies allowed s s1 \<Longrightarrow> shared_run X replies allowed s1 s2 \<Longrightarrow> shared_run X replies allowed s s2"
  by (auto simp: shared_run_def intro: events_run_append)

lemma shared_run_step: "shared_step X replies allowed n s s' \<Longrightarrow> shared_run X replies allowed s s'"
  by (auto simp: shared_run_def intro: run_step run_end)

lemma shared_run_call:
  assumes "sh_calls s n = None" "allowed c" "\<not> sh_poisoned s" "enter X c (sh_source s) = (p, src, bad)"
  shows "shared_run X replies allowed s (settle n c p (s\<lparr>sh_source := src, sh_poisoned := bad\<rparr>))"
proof -
  let ?t = "settle n c (Calling c) s"
  have "shared_run X replies allowed s ?t"
    by (rule shared_run_step [OF shared_step.call [where allowed = allowed, OF assms(1,2)]])
  also have "shared_run X replies allowed ?t (settle n c p (?t\<lparr>sh_source := src, sh_poisoned := sh_poisoned ?t \<or> bad\<rparr>))"
    by (rule shared_run_step [OF shared_step.lock]) (use assms in simp_all)
  also have "settle n c p (?t\<lparr>sh_source := src, sh_poisoned := sh_poisoned ?t \<or> bad\<rparr>)
      = settle n c p (s\<lparr>sh_source := src, sh_poisoned := bad\<rparr>)"
    using assms(3) by (simp add: settle_def split: call_phase.split)
  finally show ?thesis .
qed

text \<open>A \<open>get\<close> of a cached key, and one of an unknown key, up to its question and from there on.\<close>

lemma shared_run_hit:
  assumes "sh_calls s n = None" "allowed (CallGet k)" "\<not> sh_poisoned s" "bt_get (src_cache (sh_source s)) k = Some v"
    "decoded_get X k v = Answered a"
  shows "shared_run X replies allowed s (settle n (CallGet k) (Answered a) s)"
proof -
  let ?t = "settle n (CallGet k) (Decoding k v) s"
  have "shared_run X replies allowed s ?t"
    using shared_run_call [of s n allowed "CallGet k" X "Decoding k v" "sh_source s" False replies] assms
    by (simp add: settle_def)
  also have "shared_run X replies allowed ?t (settle n (CallGet k) (decoded_get X k v) ?t)"
    by (rule shared_run_step [OF shared_step.decode]) simp
  also have "settle n (CallGet k) (decoded_get X k v) ?t = settle n (CallGet k) (Answered a) s"
    by (simp add: settle_def assms(5))
  finally show ?thesis .
qed

definition counted_source :: "source \<Rightarrow> source" where
  "counted_source src = src\<lparr>src_fetch_count := src_fetch_count src + 1\<rparr>"

lemma counted_source_simps [simp]:
  "src_cache (counted_source src) = src_cache src" "src_fetch_mode (counted_source src) = src_fetch_mode src"
  "src_client (counted_source src) = src_client src" "src_fetch_count (counted_source src) = src_fetch_count src + 1"
  by (simp_all add: counted_source_def)

lemma shared_run_miss:
  assumes "sh_calls s n = None" "allowed (CallGet k)" "\<not> sh_poisoned s" "bt_get (src_cache (sh_source s)) k = None"
    "counted X k (sh_source s) = Asking k"
  shows "shared_run X replies allowed s (settle n (CallGet k) (Asking k) (s\<lparr>sh_source := counted_source (sh_source s)\<rparr>))"
proof -
  let ?t = "settle n (CallGet k) (Fetching k) s"
  let ?u = "settle n (CallGet k) (counted X k (sh_source ?t))
     (?t\<lparr>sh_source := (sh_source ?t)\<lparr>src_fetch_count := src_fetch_count (sh_source ?t) + 1\<rparr>\<rparr>)"
  have "shared_run X replies allowed s ?t"
    using shared_run_call [of s n allowed "CallGet k" X "Fetching k" "sh_source s" False replies] assms
    by (simp add: settle_def)
  also have "shared_run X replies allowed ?t ?u"
    by (rule shared_run_step [OF shared_step.count]) simp
  also have "?u = settle n (CallGet k) (Asking k) (s\<lparr>sh_source := counted_source (sh_source s)\<rparr>)"
    using assms(5) by (simp add: settle_def counted_source_def)
  finally show ?thesis .
qed

lemma shared_run_answer:
  assumes "sh_calls s n = Some (Asking k)" "\<not> sh_poisoned s" "replies k reply"
    "received X (src_fetch_mode (sh_source s)) k reply = Storing k result v"
  shows "shared_run X replies allowed s
    (settle n (CallGet k) (Answered (AnsGet result)) (s\<lparr>sh_source := cache_insert X k v (sh_source s)\<rparr>))"
proof -
  let ?t = "settle n (CallGet k) (Storing k result v) s"
  have "shared_run X replies allowed s ?t"
    using shared_step.ask [where replies = replies, OF assms(1) assms(3)] assms(4) by (metis shared_run_step)
  also have "shared_run X replies allowed ?t
      (settle n (CallGet k) (Answered (AnsGet result)) (?t\<lparr>sh_source := cache_insert X k v (sh_source ?t)\<rparr>))"
    by (rule shared_run_step [OF shared_step.store]) (use assms in simp_all)
  also have "settle n (CallGet k) (Answered (AnsGet result)) (?t\<lparr>sh_source := cache_insert X k v (sh_source ?t)\<rparr>)
      = settle n (CallGet k) (Answered (AnsGet result)) (s\<lparr>sh_source := cache_insert X k v (sh_source s)\<rparr>)"
    by (simp add: settle_def)
  finally show ?thesis .
qed

text \<open>Without other threads, a \<open>get\<close> is \<open>snapshot_get\<close>.\<close>

lemma get_alone:
  assumes g: "snapshot_get X k (src, w) = Some (v, src', w')" and "allowed (CallGet k)"
    and r: "replies k (map_option fst (fetch_entry X (src_client src) k w))"
  shows "\<exists>s. shared_run X replies allowed (shared_new src) s \<and> sh_source s = src' \<and> sh_log s = [(CallGet k, AnsGet v)]"
proof (cases "bt_get (src_cache src) k")
  case (Some c)
  with g have "decoded_get X k c = Answered (AnsGet v)" "src' = src"
    by (auto simp: snapshot_get_def decoded_get_def split: option.splits)
  with shared_run_hit [of "shared_new src" 0 allowed k c X "AnsGet v" replies] Some assms(2) show ?thesis
    by (intro exI [of _ "settle 0 (CallGet k) (Answered (AnsGet v)) (shared_new src)"]) simp
next
  case None
  with g have f: "fetch_from_rpc X k (src, w) = Some (v, src', w')" by (simp add: snapshot_get_def)
  then have c: "counted X k src = Asking k"
    by (auto simp: fetch_from_rpc_def counted_def split: if_splits)
  obtain u where u: "received X (src_fetch_mode src) k (map_option fst (fetch_entry X (src_client src) k w)) = Storing k v u"
      "src' = cache_insert X k u (counted_source src)"
    using f by (auto simp: fetch_from_rpc_def received_def to_store_def found_entry_def memoise_def counted_source_def Let_def
        split: if_splits option.splits prod.splits sum.splits fetch_mode.splits)
  let ?t = "settle 0 (CallGet k) (Asking k) ((shared_new src)\<lparr>sh_source := counted_source src\<rparr>)"
  let ?s = "settle 0 (CallGet k) (Answered (AnsGet v)) (?t\<lparr>sh_source := cache_insert X k u (sh_source ?t)\<rparr>)"
  have "shared_run X replies allowed (shared_new src) ?t"
    using shared_run_miss [of "shared_new src" 0 allowed k X replies] None c assms(2) by simp
  also have "shared_run X replies allowed ?t ?s"
    by (rule shared_run_answer [where replies = replies, OF _ _ r]) (use u in simp_all)
  finally show ?thesis using u by (intro exI [of _ ?s]) simp
qed

section \<open>Races\<close>

text \<open>Calls that only read, and calls that keep what they write readable.\<close>

fun reading :: "source_call \<Rightarrow> bool" where
  "reading (CallGet _) = True"
| "reading CallEntries = True"
| "reading CallCount = True"
| "reading _ = False"

text \<open>The host's changes decode, as every \<open>apply_changes\<close> of the worker does.\<close>

fun call_ok :: "ext_lib \<Rightarrow> source_call \<Rightarrow> bool" where
  "call_ok X (CallApply changes) = changes_decode X changes"
| "call_ok X c = True"


lemma counted_fresh: "src_fetch_count src \<noteq> - 1 \<Longrightarrow> counted X k src = Asking k"
  by (simp add: counted_def)

text \<open>Two reads of a key that is not cached, both under way.\<close>

lemma two_misses:
  assumes "allowed (CallGet k)" "bt_get (src_cache src) k = None" "src_fetch_count src = 0"
  shows "\<exists>s. shared_run X replies allowed (shared_new src) s \<and> \<not> sh_poisoned s \<and> sh_log s = []
    \<and> sh_calls s = [0 \<mapsto> Asking k, 1 \<mapsto> Asking k] \<and> sh_source s = counted_source (counted_source src)"
proof -
  let ?a = "settle 0 (CallGet k) (Asking k) ((shared_new src)\<lparr>sh_source := counted_source src\<rparr>)"
  let ?b = "settle 1 (CallGet k) (Asking k) (?a\<lparr>sh_source := counted_source (sh_source ?a)\<rparr>)"
  have "shared_run X replies allowed (shared_new src) ?a"
    using shared_run_miss [of "shared_new src" 0 allowed k X replies] assms by (simp add: counted_fresh)
  also have "shared_run X replies allowed ?a ?b"
    by (rule shared_run_miss) (use assms in \<open>simp_all add: counted_fresh\<close>)
  finally show ?thesis by (intro exI [of _ ?b]) (simp add: shared_new_def)
qed

lemma received_found:
  assumes "encode_entry X (fe_entry f) = Some bs"
  shows "received X mode k (Some (Inr (Some f)))
    = Storing k (Some (fe_entry f, fe_live_until f)) (Some (bs, fe_live_until f))"
  using assms by (simp add: received_def found_entry_def to_store_def)

text \<open>
  C18: A fetch that fails can erase what another one found: in lenient mode, when two threads read a
  key that is not cached and the fetch of one fails after that of the other has come back with the
  entry and stored it, the key is cached as absent, and every read from then on, of the first thread
  too, says that the entry does not exist.
\<close>

theorem late_failure_erases:
  assumes "src_fetch_mode src = Lenient" "src_fetch_count src = 0" "bt_get (src_cache src) k = None"
    "replies k (Some (Inr (Some f)))" "replies k (Some (Inl err))" "encode_entry X (fe_entry f) \<noteq> None"
  shows "\<exists>s. shared_run X replies reading (shared_new src) s
    \<and> sh_log s = [(CallGet k, AnsGet None), (CallGet k, AnsGet None),
        (CallGet k, AnsGet (Some (fe_entry f, fe_live_until f)))]
    \<and> known X (sh_source s) k = Some None"
proof -
  obtain bs where bs: "encode_entry X (fe_entry f) = Some bs" using assms(6) by blast
  obtain s1 where run1: "shared_run X replies reading (shared_new src) s1" and s1: "\<not> sh_poisoned s1" "sh_log s1 = []"
    "sh_calls s1 = [0 \<mapsto> Asking k, 1 \<mapsto> Asking k]" "sh_source s1 = counted_source (counted_source src)"
    using two_misses [of reading k src X replies] assms by auto
  let ?s2 = "settle 0 (CallGet k) (Answered (AnsGet (Some (fe_entry f, fe_live_until f))))
    (s1\<lparr>sh_source := cache_insert X k (Some (bs, fe_live_until f)) (sh_source s1)\<rparr>)"
  let ?s3 = "settle 1 (CallGet k) (Answered (AnsGet None)) (?s2\<lparr>sh_source := cache_insert X k None (sh_source ?s2)\<rparr>)"
  let ?s4 = "settle 2 (CallGet k) (Answered (AnsGet None)) ?s3"
  note run1
  also have "shared_run X replies reading s1 ?s2"
    by (rule shared_run_answer [where replies = replies, OF _ s1(1) assms(4)]) (simp_all add: s1 received_found [OF bs])
  also have "shared_run X replies reading ?s2 ?s3"
    by (rule shared_run_answer [where replies = replies, OF _ _ assms(5)]) (use s1 assms in \<open>simp_all add: received_def\<close>)
  also have "shared_run X replies reading ?s3 ?s4"
    by (rule shared_run_hit [where v = None]) (use s1 in \<open>simp_all add: decoded_get_def\<close>)
  finally show ?thesis using s1 by (intro exI [of _ ?s4]) (simp add: known_def)
qed

text \<open>
  A write can be lost to a read that was under way: when a thread has set an entry while another
  one was fetching the same key, the upstream's answer is stored over it. The write has returned
  before the later read begins, which reads the upstream's entry all the same.
\<close>

lemma late_fetch_overwrites:
  assumes "src_fetch_count src = 0" "bt_get (src_cache src) k = None"
    "replies k (Some (Inr (Some f)))" "encode_entry X (fe_entry f) \<noteq> None" "encode_entry X e \<noteq> None" "entry_codec_ok X"
  shows "\<exists>s. shared_run X replies (call_ok X) (shared_new src) s
    \<and> sh_log s = [(CallGet k, AnsGet (Some (fe_entry f, fe_live_until f))),
        (CallGet k, AnsGet (Some (fe_entry f, fe_live_until f))), (CallSet k e lu, AnsDone)]"
proof -
  obtain bs where bs: "encode_entry X (fe_entry f) = Some bs" using assms(4) by blast
  obtain cs where cs: "encode_entry X e = Some cs" using assms(5) by blast
  let ?s1 = "settle 0 (CallGet k) (Asking k) ((shared_new src)\<lparr>sh_source := counted_source src\<rparr>)"
  let ?s2 = "settle 1 (CallSet k e lu) (Answered AnsDone)
    (?s1\<lparr>sh_source := cache_insert X k (Some (cs, lu)) (sh_source ?s1), sh_poisoned := False\<rparr>)"
  let ?s3 = "settle 0 (CallGet k) (Answered (AnsGet (Some (fe_entry f, fe_live_until f))))
    (?s2\<lparr>sh_source := cache_insert X k (Some (bs, fe_live_until f)) (sh_source ?s2)\<rparr>)"
  let ?s4 = "settle 2 (CallGet k) (Answered (AnsGet (Some (fe_entry f, fe_live_until f)))) ?s3"
  have "shared_run X replies (call_ok X) (shared_new src) ?s1"
    using shared_run_miss [of "shared_new src" 0 "call_ok X" k X replies] assms by (simp add: counted_fresh)
  also have "shared_run X replies (call_ok X) ?s1 ?s2"
    by (rule shared_run_call) (simp_all add: set_entry_def cs)
  also have "shared_run X replies (call_ok X) ?s2 ?s3"
    by (rule shared_run_answer [where replies = replies, OF _ _ assms(3)]) (simp_all add: received_found [OF bs])
  also have "shared_run X replies (call_ok X) ?s3 ?s4"
    by (rule shared_run_hit [where v = "Some (bs, fe_live_until f)"])
       (simp_all add: decoded_get_def decode_encode [OF assms(6) bs])
  finally show ?thesis by (intro exI [of _ ?s4]) simp
qed

section \<open>At a concrete input\<close>

text \<open>An upstream that answers with one entry, and one that refuses.\<close>

definition race_upstream :: "nat \<Rightarrow> http_request \<Rightarrow> http_outcome" where
  "race_upstream n request =
     HttpResponse 200 None (Inr (JObject [(''result'', JObject
       [(''entries'', JArray [JObject [(''key'', JString []), (''xdr'', JString [CHR 0x00, CHR 0x05]),
                                       (''lastModifiedLedgerSeq'', j_u32 0)]]),
        (''latestLedger'', j_u32 5)])]))"

definition race_entry :: fetched_entry where
  "race_entry = \<lparr> fe_entry = sample_entry (DataOther [5]), fe_live_until = None \<rparr>"

lemma race_found:
  "fetch_entry (sample_lib\<lparr>upstream := race_upstream\<rparr>) sample_client (KeyContractCode h) w
     = Some (Inr (Some race_entry), w\<lparr>w_sent := Suc (w_sent w)\<rparr>)"
proof -
  let ?X = "sample_lib\<lparr>upstream := race_upstream\<rparr>"
  have "rpc_call ?X sample_client dec_get_ledger_entries_result m p w
      = Some (Inr (Some [\<lparr> er_key = [], er_xdr = [CHR 0x00, CHR 0x05], er_last_modified = 0, er_live_until = None \<rparr>]),
          w\<lparr>w_sent := Suc (w_sent w)\<rparr>)" for m p
    by (simp add: rpc_call_def rpc_post_def total_attempts_def sample_client_def rpc_config_default_def upt_conv_Cons
        try_once_def classify_response_def race_upstream_def status_retryable_def status_success_def
        dec_rpc_response_def dec_get_ledger_entries_result_def dec_entry_result_def fld_defs into_result_def)
  moreover have "rpc_max_keys_per_request (rc_config sample_client) = 200"
    by (simp add: sample_client_def rpc_config_default_def)
  moreover have "bytes_of_str [CHR 0x00, CHR 0x05] = [0, 5]" by code_simp
  ultimately show ?thesis
    by (simp add: fetch_entry_def fetch_entries_def chunks_singleton encode_key_def rpc_decode_entry_def
        sample_lib_def race_entry_def sample_entry_def)
qed

lemma race_replies:
  "upstream_replies sample_lib UNIV sample_client (KeyContractCode h) (Some (Inr (Some race_entry)))"
  "upstream_replies sample_lib UNIV sample_client (KeyContractCode h) (Some (Inl (Transport ''refused'')))"
proof -
  show "upstream_replies sample_lib UNIV sample_client (KeyContractCode h) (Some (Inr (Some race_entry)))"
    unfolding upstream_replies_def by (intro bexI [of _ race_upstream] exI [of _ sample_world]) (simp_all add: race_found)
  obtain w' where "fetch_entry sample_lib sample_client (KeyContractCode h) sample_world
      = Some (Inl (Transport ''refused''), w')" using sample_fetch by blast
  then show "upstream_replies sample_lib UNIV sample_client (KeyContractCode h) (Some (Inl (Transport ''refused'')))"
    unfolding upstream_replies_def by (intro bexI [of _ "upstream sample_lib"] exI [of _ sample_world]) simp_all
qed

lemma race_encodes: "encode_entry sample_lib (sample_entry (DataOther b)) = Some (0 # b)"
  by (simp add: encode_entry_def sample_lib_simps sample_entry_to_xdr_def) (simp add: sample_entry_def)

theorem late_failure_erases_witness:
  "\<exists>s. shared_run sample_lib (upstream_replies sample_lib UNIV sample_client) reading (shared_new sample_source) s
     \<and> sh_log s = [(CallGet (KeyContractCode [7]), AnsGet None), (CallGet (KeyContractCode [7]), AnsGet None),
         (CallGet (KeyContractCode [7]), AnsGet (Some (sample_entry (DataOther [5]), None)))]"
proof -
  have "encode_entry sample_lib (fe_entry race_entry) \<noteq> None" "fe_entry race_entry = sample_entry (DataOther [5])"
    "fe_live_until race_entry = None"
    by (simp_all add: race_entry_def race_encodes)
  with late_failure_erases [OF sample_source_simps(4,3), of "KeyContractCode [7]"
      "upstream_replies sample_lib UNIV sample_client" race_entry "Transport ''refused''" sample_lib]
  show ?thesis by (auto simp: race_replies)
qed

end
