(* ===== verification/SharedSafe.thy ===== *)
theory SharedSafe
  imports SharedSource
begin

text \<open>
  What threads that share a source can rely on, over the steps of \<open>SharedSource\<close>: readers agree, sequence
  numbers are handed out in turn, and a panic stays where it happened. Each is an invariant of the step
  relation, restricted to the calls it allows (locale \<open>preserved\<close>).
\<close>

section \<open>Values that decode\<close>

definition values_decode :: "ext_lib \<Rightarrow> source \<Rightarrow> bool" where
  "values_decode X src \<longleftrightarrow>
     (\<forall>k bs live_until. (k, Some (bs, live_until)) \<in> set (src_cache src) \<longrightarrow> decode_entry X bs \<noteq> None)"

lemma set_cached_positive:
  "(k, bs, lu) \<in> set (List.map_filter cached_positive m) \<longleftrightarrow> (k, Some (bs, lu)) \<in> set m"
  by (force simp: List.map_filter_def image_iff elim!: cached_positive.elims)

lemma set_bt_insert: "x \<in> set (bt_insert lt k v m) \<Longrightarrow> x = (k, v) \<or> x \<in> set m"
  by (induction lt k v m rule: bt_insert.induct) (auto split: if_splits)

lemma values_decode_get: "values_decode X src \<Longrightarrow> bt_get (src_cache src) k = Some (Some (bs, lu)) \<Longrightarrow> \<exists>e. decode_entry X bs = Some e"
  unfolding values_decode_def by (metis map_of_SomeD not_None_eq)

lemma values_decode_insert:
  assumes "values_decode X src" "\<And>bs lu. v = Some (bs, lu) \<Longrightarrow> decode_entry X bs \<noteq> None"
  shows "values_decode X (cache_insert X k v src)"
  unfolding values_decode_def
proof (intro allI impI)
  fix k' bs lu
  assume "(k', Some (bs, lu)) \<in> set (src_cache (cache_insert X k v src))"
  then have "(k', Some (bs, lu)) = (k, v) \<or> (k', Some (bs, lu)) \<in> set (src_cache src)"
    by (auto simp: cache_insert_def dest!: set_bt_insert)
  with assms show "decode_entry X bs \<noteq> None" unfolding values_decode_def by blast
qed

lemma values_decode_set:
  "values_decode X src \<Longrightarrow> decode_entry X bs = Some e \<Longrightarrow> values_decode X (cache_insert X k (Some (bs, lu)) src)"
  by (rule values_decode_insert) auto

lemma values_decode_cache: "src_cache src' = src_cache src \<Longrightarrow> values_decode X src' = values_decode X src"
  by (simp add: values_decode_def)

section \<open>Readers\<close>

text \<open>What a key comes to when the upstream always gives the same answer.\<close>

definition frozen_answer :: "ext_lib \<Rightarrow> source \<Rightarrow> (ledger_key \<Rightarrow> fetched_entry option) \<Rightarrow> ledger_key \<Rightarrow> live_entry option" where
  "frozen_answer X src found k = (case known X src k of Some v \<Rightarrow> v | None \<Rightarrow> found_entry (found k))"

definition frozen_ok :: "ext_lib \<Rightarrow> source \<Rightarrow> (ledger_key \<Rightarrow> fetched_entry option) \<Rightarrow> (ledger_key \<Rightarrow> fetch_reply \<Rightarrow> bool) \<Rightarrow> bool" where
  "frozen_ok X src found replies \<longleftrightarrow>
     entry_codec_ok X \<and> \<not> overflow_checks X \<and> values_decode X src
     \<and> (\<forall>k reply. replies k reply \<longrightarrow> reply = Some (Inr (found k)))
     \<and> (\<forall>k f. found k = Some f \<longrightarrow> encode_entry X (fe_entry f) \<noteq> None)"

fun frozen_phase :: "ext_lib \<Rightarrow> source \<Rightarrow> (ledger_key \<Rightarrow> live_entry option) \<Rightarrow> call_phase \<Rightarrow> bool" where
  "frozen_phase X src F (Calling c) = reading c"
| "frozen_phase X src F (Decoding k v) = (decoded_get X k v = Answered (AnsGet (F k)))"
| "frozen_phase X src F (DecodingAll raw) = (\<forall>k bs lu. (k, bs, lu) \<in> set raw \<longrightarrow> decode_entry X bs \<noteq> None)"
| "frozen_phase X src F (Fetching k) = (bt_get (src_cache src) k = None)"
| "frozen_phase X src F (Asking k) = (bt_get (src_cache src) k = None)"
| "frozen_phase X src F (Storing k result v) = (result = F k \<and> decoded_get X k v = Answered (AnsGet (F k)))"
| "frozen_phase X src F (Answered a) = True"
| "frozen_phase X src F (Panicked c) = False"

definition frozen_inv :: "ext_lib \<Rightarrow> source \<Rightarrow> (ledger_key \<Rightarrow> live_entry option) \<Rightarrow> shared \<Rightarrow> bool" where
  "frozen_inv X src F s \<longleftrightarrow>
     \<not> sh_poisoned s \<and> values_decode X (sh_source s)
     \<and> (\<forall>k v. bt_get (src_cache (sh_source s)) k = Some v \<longrightarrow> decoded_get X k v = Answered (AnsGet (F k)))
     \<and> (\<forall>k. bt_get (src_cache src) k \<noteq> None \<longrightarrow> bt_get (src_cache (sh_source s)) k \<noteq> None)
     \<and> (\<forall>n p. sh_calls s n = Some p \<longrightarrow> frozen_phase X src F p)
     \<and> (\<forall>k v. (CallGet k, AnsGet v) \<in> set (sh_log s) \<longrightarrow> v = F k)"

lemma decoded_get_cases:
  "decoded_get X k v = Answered (AnsGet r) \<longleftrightarrow>
     (case v of None \<Rightarrow> r = None | Some (bs, lu) \<Rightarrow> \<exists>e. decode_entry X bs = Some e \<and> r = Some (e, lu))"
  by (auto simp: decoded_get_def split: option.splits)

lemma known_absent: "bt_get (src_cache src) k = None \<Longrightarrow> known X src k = None"
  by (simp add: known_def)

lemma known_decoded:
  "bt_get (src_cache src) k = Some v \<Longrightarrow> decoded_get X k v = Answered (AnsGet r) \<Longrightarrow> known X src k = Some r"
  by (cases v) (auto simp: known_def decoded_get_cases)

lemma decoded_all_ok:
  "\<forall>k bs lu. (k, bs, lu) \<in> set raw \<longrightarrow> decode_entry X bs \<noteq> None \<Longrightarrow> \<exists>out. decoded_all X raw = Answered (AnsEntries out)"
proof -
  assume "\<forall>k bs lu. (k, bs, lu) \<in> set raw \<longrightarrow> decode_entry X bs \<noteq> None"
  then have "\<exists>out. those (map (\<lambda>(k, bs, lu). map_option (\<lambda>e. (k, e, lu)) (decode_entry X bs)) raw) = Some out"
    by (induction raw) fastforce+
  then show ?thesis by (auto simp: decoded_all_def)
qed

lemma frozen_settle:
  assumes "frozen_inv X src F s" "frozen_phase X src F p" "\<And>k v. c = CallGet k \<Longrightarrow> p = Answered (AnsGet v) \<Longrightarrow> v = F k"
  shows "frozen_inv X src F (settle n c p s)"
  using assms by (auto simp: frozen_inv_def split: call_phase.splits)

lemma frozen_source:
  assumes "frozen_inv X src F s" "src_cache src' = src_cache (sh_source s)"
  shows "frozen_inv X src F (s\<lparr>sh_source := src'\<rparr>)"
  using assms values_decode_cache [OF assms(2)] by (simp add: frozen_inv_def)

lemma frozen_insert:
  assumes "frozen_inv X src F s" "decoded_get X k v = Answered (AnsGet (F k))"
  shows "frozen_inv X src F (s\<lparr>sh_source := cache_insert X k v (sh_source s)\<rparr>)"
  using assms values_decode_insert [of X "sh_source s" v k] by (auto simp: frozen_inv_def decoded_get_cases split: option.splits)

lemma frozen_phaseD: "frozen_inv X src F s \<Longrightarrow> sh_calls s n = Some p \<Longrightarrow> frozen_phase X src F p"
  by (simp add: frozen_inv_def)

lemma frozen_enter:
  assumes inv: "frozen_inv X src F s" and "reading c" "enter X c (sh_source s) = (p, src', bad)"
  shows "src' = sh_source s \<and> \<not> bad \<and> frozen_phase X src F p \<and> (\<forall>k. c = CallGet k \<longrightarrow> (\<forall>a. p \<noteq> Answered a))"
  using assms(2,3)
proof (cases c)
  case (CallGet k)
  from inv have "bt_get (src_cache src) k = None" if "bt_get (src_cache (sh_source s)) k = None"
    using that by (auto simp: frozen_inv_def)
  moreover from inv have "decoded_get X k v = Answered (AnsGet (F k))" if "bt_get (src_cache (sh_source s)) k = Some v" for v
    using that by (simp add: frozen_inv_def)
  ultimately show ?thesis using assms(3) CallGet by (auto split: option.splits)
next
  case CallEntries
  from inv have "values_decode X (sh_source s)" by (simp add: frozen_inv_def)
  then show ?thesis using assms(3) CallEntries by (auto simp: values_decode_def set_cached_positive)
qed auto

lemma frozen_answer_new:
  "bt_get (src_cache src) k = None \<Longrightarrow> frozen_answer X src found k = found_entry (found k)"
  by (simp add: frozen_answer_def known_def)

lemma frozen_received:
  assumes "frozen_ok X src found replies" "replies k reply" "bt_get (src_cache src) k = None"
  shows "frozen_phase X src (frozen_answer X src found) (received X mode k reply)"
proof -
  from assms(1,2) have r: "reply = Some (Inr (found k))" by (simp add: frozen_ok_def)
  show ?thesis
  proof (cases "found k")
    case (Some f)
    from assms(1) Some obtain bs where "encode_entry X (fe_entry f) = Some bs" "decode_entry X bs = Some (fe_entry f)"
      using decode_encode by (metis frozen_ok_def not_None_eq)
    then show ?thesis
      by (simp add: r Some received_def to_store_def found_entry_def frozen_answer_new [OF assms(3)] decoded_get_cases)
  qed (simp add: r received_def to_store_def found_entry_def frozen_answer_new [OF assms(3)] decoded_get_cases)
qed

lemma frozen_step:
  assumes ok: "frozen_ok X src found replies" and step: "shared_step X replies reading n s s'"
    and inv: "frozen_inv X src (frozen_answer X src found) s"
  shows "frozen_inv X src (frozen_answer X src found) s'"
  using step
proof cases
  case (call c)
  show ?thesis unfolding call(1) by (rule frozen_settle [OF inv]) (use call in simp_all)
next
  case (lock c p src' bad)
  have "reading c" using frozen_phaseD [OF inv lock(2)] by simp
  note e = frozen_enter [OF inv this lock(4)]
  with inv have s: "s\<lparr>sh_source := src', sh_poisoned := sh_poisoned s \<or> bad\<rparr> = s" by (simp add: frozen_inv_def)
  from e have p: "frozen_phase X src (frozen_answer X src found) p" and "c = CallGet k \<Longrightarrow> p \<noteq> Answered a" for k a
    by blast+
  then show ?thesis unfolding lock(1) s by (intro frozen_settle [OF inv p]) blast
next
  case (poisoned p c)
  with inv show ?thesis by (simp add: frozen_inv_def)
next
  case (decode k v)
  from frozen_phaseD [OF inv decode(2)] have "decoded_get X k v = Answered (AnsGet (frozen_answer X src found k))" by simp
  then show ?thesis unfolding decode(1) by (intro frozen_settle [OF inv]) simp_all
next
  case (decode_all raw)
  from frozen_phaseD [OF inv decode_all(2)] obtain out where "decoded_all X raw = Answered (AnsEntries out)"
    using decoded_all_ok [of raw X] by auto
  then show ?thesis unfolding decode_all(1) by (intro frozen_settle [OF inv]) simp_all
next
  case (count k)
  from frozen_phaseD [OF inv count(2)] have "bt_get (src_cache src) k = None" by simp
  moreover have "counted X k (sh_source s) = Asking k" using ok by (simp add: counted_def frozen_ok_def)
  ultimately show ?thesis unfolding count(1) by (intro frozen_settle frozen_source [OF inv]) simp_all
next
  case (ask k reply)
  from frozen_phaseD [OF inv ask(2)] have k: "bt_get (src_cache src) k = None" by simp
  have "received X (src_fetch_mode (sh_source s)) k reply \<noteq> Answered a" for a
    by (simp add: received_def to_store_def split: option.splits sum.splits fetch_mode.splits prod.splits)
  then show ?thesis unfolding ask(1)
    by (intro frozen_settle [OF inv] frozen_received [OF ok ask(3) k]) blast
next
  case (store k result v)
  from frozen_phaseD [OF inv store(2)] have "result = frozen_answer X src found k"
    "decoded_get X k v = Answered (AnsGet (frozen_answer X src found k))"
    by simp_all
  then show ?thesis unfolding store(1) by (intro frozen_settle frozen_insert [OF inv]) simp_all
qed

lemma frozen_start:
  assumes "frozen_ok X src found replies"
  shows "frozen_inv X src (frozen_answer X src found) (shared_new src)"
proof -
  from assms have d: "values_decode X src" by (simp add: frozen_ok_def)
  have "decoded_get X k v = Answered (AnsGet (frozen_answer X src found k))" if b: "bt_get (src_cache src) k = Some v" for k v
  proof (cases v)
    case (Some u)
    then obtain bs lu where u: "v = Some (bs, lu)" by (cases u) simp
    with b obtain e where "decode_entry X bs = Some e" using values_decode_get [OF d] by blast
    with b u show ?thesis by (simp add: frozen_answer_def known_def decoded_get_cases)
  qed (use b in \<open>simp add: frozen_answer_def known_def decoded_get_cases\<close>)
  with d show ?thesis by (simp add: frozen_inv_def)
qed

interpretation readers: preserved "shared_step X replies reading"
    "\<lambda>s. frozen_ok X src found replies \<and> frozen_inv X src (frozen_answer X src found) s"
  for X replies src found
  by unfold_locales (blast intro: frozen_step)


section \<open>Sequence numbers\<close>

fun bumping :: "source_call \<Rightarrow> bool" where
  "bumping (CallBump _) = True"
| "bumping c = reading c"

text \<open>The numbers handed out for an account, the latest first.\<close>

definition bump_answers :: "account_id \<Rightarrow> shared \<Rightarrow> i64 option list" where
  "bump_answers a s =
     List.map_filter (\<lambda>(c, answer). case answer of AnsSeq r \<Rightarrow> if c = CallBump a then Some r else None | _ \<Rightarrow> None)
       (sh_log s)"

definition with_seq :: "ledger_entry \<Rightarrow> account_entry \<Rightarrow> i64 \<Rightarrow> ledger_entry" where
  "with_seq e account n = e\<lparr>le_data := DataAccount (account\<lparr>ae_seq_num := n\<rparr>)\<rparr>"

fun leaves_key :: "ledger_key \<Rightarrow> call_phase \<Rightarrow> bool" where
  "leaves_key key (Calling c) = bumping c"
| "leaves_key key (Fetching k) = (k \<noteq> key)"
| "leaves_key key (Asking k) = (k \<noteq> key)"
| "leaves_key key (Storing k _ _) = (k \<noteq> key)"
| "leaves_key key _ = True"

definition bump_inv :: "ext_lib \<Rightarrow> account_id \<Rightarrow> ledger_entry \<Rightarrow> account_entry \<Rightarrow> u32 option \<Rightarrow> shared \<Rightarrow> bool" where
  "bump_inv X a e account lu s \<longleftrightarrow>
     bump_answers a s = map (\<lambda>i. Some (ae_seq_num account + of_nat i)) (rev [1..<Suc (length (bump_answers a s))])
     \<and> known X (sh_source s) (KeyAccount a)
         = Some (Some (with_seq e account (ae_seq_num account + of_nat (length (bump_answers a s))), lu))
     \<and> (\<forall>n p. sh_calls s n = Some p \<longrightarrow> leaves_key (KeyAccount a) p)"

lemma bump_answers_settle:
  "bump_answers a (settle n c p s)
     = (case p of Answered (AnsSeq r) \<Rightarrow> if c = CallBump a then r # bump_answers a s else bump_answers a s
        | _ \<Rightarrow> bump_answers a s)"
  by (auto simp: bump_answers_def List.map_filter_simps split: call_phase.split source_answer.split)

lemma bump_settle:
  assumes "bump_inv X a e account lu s" "leaves_key (KeyAccount a) p" "\<And>r. p = Answered (AnsSeq r) \<Longrightarrow> c \<noteq> CallBump a"
    "known X src (KeyAccount a) = known X (sh_source s) (KeyAccount a)"
  shows "bump_inv X a e account lu (settle n c p (s\<lparr>sh_source := src, sh_poisoned := b\<rparr>))"
proof -
  have "bump_answers a (settle n c p (s\<lparr>sh_source := src, sh_poisoned := b\<rparr>)) = bump_answers a s"
    unfolding bump_answers_settle using assms(3)
    by (auto simp: bump_answers_def split: call_phase.split source_answer.split)
  with assms(1,2,4) show ?thesis by (simp add: bump_inv_def)
qed

lemma bump_enter_other:
  assumes "entry_codec_ok X" "bump_account_seq X b src = (r, src')" "b \<noteq> a"
  shows "known X src' (KeyAccount a) = known X src (KeyAccount a)"
  using bump_account_seq_spec [OF assms(1,2)] assms(3)
  by (auto simp: Let_def split: option.splits prod.splits ledger_entry_data.splits)

lemma bump_enter_same:
  assumes "entry_codec_ok X" "\<And>e. encode_entry X e \<noteq> None" "bump_account_seq X a src = (r, src')"
    "known X src (KeyAccount a) = Some (Some (with_seq e account n, lu))"
  shows "r = Some (n + 1) \<and> known X src' (KeyAccount a) = Some (Some (with_seq e account (n + 1), lu))"
proof -
  obtain bs where "encode_entry X (with_seq e account (n + 1)) = Some bs" using assms(2) by blast
  then show ?thesis
    using bump_account_seq_spec [OF assms(1,3)] assms(4) by (simp add: Let_def with_seq_def)
qed

lemma bump_step:
  assumes "entry_codec_ok X" "\<And>e. encode_entry X e \<noteq> None"
    and step: "shared_step X replies bumping n s s'" and inv: "bump_inv X a e account lu s"
  shows "bump_inv X a e account lu s'"
proof -
  have phase: "sh_calls s n = Some p \<Longrightarrow> leaves_key (KeyAccount a) p" for p using inv by (simp add: bump_inv_def)
  have self: "s\<lparr>sh_source := sh_source s, sh_poisoned := sh_poisoned s\<rparr> = s" by simp
  note same = bump_settle [OF inv, where src = "sh_source s" and b = "sh_poisoned s", unfolded self]
  note moved = bump_settle [OF inv, where b = "sh_poisoned s"]
  from step show ?thesis
  proof cases
    case (call c)
    then show ?thesis using same [of "Calling c" c n] by simp
  next
    case (lock c p src bad)
    show ?thesis
    proof (cases "\<exists>r. p = Answered (AnsSeq r) \<and> c = CallBump a")
      case True
      then obtain r where r: "p = Answered (AnsSeq r)" "c = CallBump a" by blast
      with lock(4) have "bump_account_seq X a (sh_source s) = (r, src)" "\<not> bad" by (auto split: prod.splits)
      with bump_enter_same [OF assms(1,2), of a "sh_source s" r src e account
          "ae_seq_num account + of_nat (length (bump_answers a s))" lu] inv
      have "r = Some (ae_seq_num account + of_nat (Suc (length (bump_answers a s))))"
        "known X src (KeyAccount a) = Some (Some (with_seq e account
           (ae_seq_num account + of_nat (Suc (length (bump_answers a s)))), lu))"
        by (simp_all add: bump_inv_def algebra_simps)
      moreover have "bump_answers a (s\<lparr>sh_source := src, sh_poisoned := sh_poisoned s \<or> bad\<rparr>) = bump_answers a s"
        by (simp add: bump_answers_def)
      ultimately show ?thesis
        using inv unfolding lock(1) bump_inv_def bump_answers_settle r by simp
    next
      case False
      have "leaves_key (KeyAccount a) p \<and> known X src (KeyAccount a) = known X (sh_source s) (KeyAccount a)"
      proof (cases c)
        case (CallGet k)
        have "known X (sh_source s) (KeyAccount a) \<noteq> None" using inv by (simp add: bump_inv_def)
        then have b: "bt_get (src_cache (sh_source s)) (KeyAccount a) \<noteq> None"
          by (rule contrapos_nn) (rule known_absent)
        note e = lock(4) [unfolded CallGet enter_get]
        have "leaves_key (KeyAccount a) p"
        proof (cases "bt_get (src_cache (sh_source s)) k")
          case None
          with b have "k \<noteq> KeyAccount a" by metis
          with None show ?thesis by (simp only: e option.case leaves_key.simps not_False_eq_True)
        qed (simp only: e option.case leaves_key.simps)
        with e show ?thesis by (simp only: simp_thms)
      next
        case (CallBump b)
        with lock(4) obtain r where "bump_account_seq X b (sh_source s) = (r, src)" "p = Answered (AnsSeq r)"
          by (auto split: prod.splits)
        with bump_enter_other [OF assms(1)] CallBump False show ?thesis by auto
      qed (use phase [OF lock(2)] lock(4) in auto)
      then show ?thesis unfolding lock(1) by (intro bump_settle [OF inv]) (use False in auto)
    qed
  next
    case (poisoned p c)
    show ?thesis unfolding poisoned(1) by (rule same) simp_all
  next
    case (decode k v)
    show ?thesis unfolding decode(1)
      by (rule same) (auto simp: decoded_get_def split: option.splits)
  next
    case (decode_all raw)
    show ?thesis unfolding decode_all(1)
      by (rule same) (auto simp: decoded_all_def split: option.splits)
  next
    case (count k)
    show ?thesis unfolding count(1)
      using moved [of "counted X k (sh_source s)" "CallGet k" "(sh_source s)\<lparr>src_fetch_count := src_fetch_count (sh_source s) + 1\<rparr>" n]
        phase [OF count(2)] by (simp add: counted_def)
  next
    case (ask k reply)
    show ?thesis unfolding ask(1)
      by (rule same) (use phase [OF ask(2)] in
        \<open>auto simp: received_def to_store_def split: option.splits sum.splits fetch_mode.splits\<close>)
  next
    case (store k result v)
    show ?thesis unfolding store(1)
      using moved [of "Answered (AnsGet result)" "CallGet k" "cache_insert X k v (sh_source s)" n] phase [OF store(2)]
      by (simp add: known_cache_insert)
  qed
qed

interpretation bumpers: preserved "shared_step X replies bumping"
    "\<lambda>s. entry_codec_ok X \<and> (\<forall>e. encode_entry X e \<noteq> None) \<and> bump_inv X a e account lu s"
  for X replies a e account lu
  by unfold_locales (metis bump_step)

text \<open>
  C16: No sequence number is handed out twice: however the calls interleave, the bumps of an account
  that is cached get its number plus one, plus two and so on, in the order in which they return, and
  the account is left at the last of them; reads of any key, fetches and bumps of other accounts may
  come in between.
\<close>

theorem bumps_in_turn:
  assumes "entry_codec_ok X" "encodes_all X" "known X src (KeyAccount a) = Some (Some (e, lu))"
    "le_data e = DataAccount account" "shared_run X replies bumping (shared_new src) s"
  shows "bump_answers a s = map (\<lambda>i. Some (ae_seq_num account + of_nat i)) (rev [1..<Suc (length (bump_answers a s))])
    \<and> known X (sh_source s) (KeyAccount a)
        = Some (Some (with_seq e account (ae_seq_num account + of_nat (length (bump_answers a s))), lu))"
proof -
  have "with_seq e account (ae_seq_num account) = e" using assms(4) by (simp add: with_seq_def)
  then have "bump_inv X a e account lu (shared_new src)"
    using assms(3) by (simp add: bump_inv_def bump_answers_def List.map_filter_simps)
  with assms have "bump_inv X a e account lu s"
    using bumpers.inv_run by (metis shared_run_def encodes_all_def)
  then show ?thesis by (simp add: bump_inv_def)
qed

section \<open>Panics\<close>

fun sound_phase :: "ext_lib \<Rightarrow> bool \<Rightarrow> call_phase \<Rightarrow> bool" where
  "sound_phase X may (Calling c) = call_ok X c"
| "sound_phase X may (Decoding k v) = (\<exists>a. decoded_get X k v = Answered a)"
| "sound_phase X may (DecodingAll raw) = (\<forall>k bs lu. (k, bs, lu) \<in> set raw \<longrightarrow> decode_entry X bs \<noteq> None)"
| "sound_phase X may (Storing k result v) = (\<exists>a. decoded_get X k v = Answered a)"
| "sound_phase X may (Panicked c) = (may \<and> (\<exists>k. c = CallGet k))"
| "sound_phase X may p = True"

text \<open>What can make a \<open>get\<close> panic.\<close>

definition may_panic :: "ext_lib \<Rightarrow> (ledger_key \<Rightarrow> fetch_reply \<Rightarrow> bool) \<Rightarrow> fetch_mode \<Rightarrow> bool" where
  "may_panic X replies mode \<longleftrightarrow> mode = Strict \<or> overflow_checks X \<or> (\<exists>k. replies k None)"

definition sound_inv :: "ext_lib \<Rightarrow> (ledger_key \<Rightarrow> fetch_reply \<Rightarrow> bool) \<Rightarrow> fetch_mode \<Rightarrow> shared \<Rightarrow> bool" where
  "sound_inv X replies mode s \<longleftrightarrow>
     \<not> sh_poisoned s \<and> values_decode X (sh_source s) \<and> src_fetch_mode (sh_source s) = mode
     \<and> (\<forall>n p. sh_calls s n = Some p \<longrightarrow> sound_phase X (may_panic X replies mode) p)"

lemma apply_changes_values:
  "changes_decode X changes \<Longrightarrow> values_decode X s \<Longrightarrow>
     \<exists>m s'. apply_changes_from X changes n s = Some (m, s') \<and> values_decode X s' \<and> src_fetch_mode s' = src_fetch_mode s"
proof (induction X changes n s rule: apply_changes_from.induct)
  case (2 X c rest n s)
  show ?case
  proof (cases "lc_read_only c")
    case True
    with 2 show ?thesis by (simp add: changes_decode_def)
  next
    case False
    with "2.prems" obtain k where k: "key_from_xdr X (lc_encoded_key c) = Inr k"
      by (cases "key_from_xdr X (lc_encoded_key c)") (auto simp: changes_decode_def)
    let ?v = "case lc_encoded_new_value c of Some bs \<Rightarrow> Some (bs, lc_ttl_new_live_until c) | None \<Rightarrow> None"
    have "values_decode X (cache_insert X k ?v s)"
      using "2.prems" False by (intro values_decode_insert) (auto simp: changes_decode_def split: option.splits)
    with "2.IH"(2) [OF False k] "2.prems" False k show ?thesis by (simp add: changes_decode_def)
  qed
qed simp

lemma preload_values:
  assumes "entry_codec_ok X" "encodes_all X"
  shows "values_decode X s \<Longrightarrow> \<exists>s'. preload X es s = Some s' \<and> values_decode X s' \<and> src_fetch_mode s' = src_fetch_mode s"
proof (induction es arbitrary: s)
  case (Cons x es)
  obtain key entry lu where x: "x = (key, entry, lu)" by (cases x)
  obtain bs where bs: "encode_entry X entry = Some bs" using assms(2) by (auto simp: encodes_all_def)
  have "values_decode X (cache_insert X key (Some (bs, lu)) s)"
    using values_decode_set [OF Cons.prems decode_encode [OF assms(1) bs]] .
  from Cons.IH [OF this] bs show ?case by (simp add: x)
qed simp

lemma bump_values:
  assumes "entry_codec_ok X" "bump_account_seq X a s = (r, s')" "values_decode X s"
  shows "values_decode X s' \<and> src_fetch_mode s' = src_fetch_mode s"
  using assms(2)
proof (cases rule: bump_account_seq_cases)
  case (bumped e bs lu)
  with assms(1) have "decode_entry X bs = Some e" by (simp add: entry_codec_ok_def decode_entry_def)
  with bumped values_decode_set [OF assms(3)] show ?thesis by simp
qed (use assms in simp)

lemma sound_settle:
  assumes "sound_inv X replies mode s" "sound_phase X (may_panic X replies mode) p" "values_decode X src"
    "src_fetch_mode src = mode"
  shows "sound_inv X replies mode (settle n c p (s\<lparr>sh_source := src\<rparr>))"
  using assms by (auto simp: sound_inv_def)

lemma decoded_get_sound:
  "(\<exists>a. decoded_get X k v = Answered a) \<longleftrightarrow> (\<forall>bs lu. v = Some (bs, lu) \<longrightarrow> decode_entry X bs \<noteq> None)"
  by (auto simp: decoded_get_def split: option.splits)

lemma sound_enter:
  assumes "entry_codec_ok X" "encodes_all X" "values_decode X s" "call_ok X c" "enter X c s = (p, src, bad)"
  shows "\<not> bad \<and> sound_phase X may p \<and> values_decode X src \<and> src_fetch_mode src = src_fetch_mode s"
proof (cases c)
  case (CallGet k)
  with assms values_decode_get [OF assms(3)] show ?thesis
    by (force simp: decoded_get_sound split: option.splits)
next
  case (CallPreload es)
  with assms preload_values [OF assms(1-3), of es] show ?thesis by auto
next
  case (CallSet k entry lu)
  obtain bs where bs: "encode_entry X entry = Some bs" using assms(2) by (auto simp: encodes_all_def)
  with values_decode_set [OF assms(3) decode_encode [OF assms(1) bs], of k lu] CallSet assms(5)
  show ?thesis by (auto simp: set_entry_def)
next
  case (CallBump a)
  with assms bump_values [OF assms(1)] show ?thesis by (auto split: prod.splits)
next
  case (CallApply changes)
  with assms apply_changes_values [of X changes s 0] show ?thesis by (auto simp: apply_changes_def)
next
  case CallEntries
  with assms show ?thesis by (auto simp: values_decode_def set_cached_positive)
next
  case CallCount
  with assms show ?thesis by auto
qed

lemma sound_received:
  assumes "entry_codec_ok X" "encodes_all X" "replies k reply"
  shows "sound_phase X (may_panic X replies mode) (received X mode k reply)"
proof (cases reply)
  case None
  with assms(3) show ?thesis by (auto simp: received_def may_panic_def)
next
  case (Some r)
  show ?thesis
  proof (cases r)
    case (Inl e)
    with Some show ?thesis by (auto simp: received_def may_panic_def decoded_get_sound split: fetch_mode.splits)
  next
    case (Inr found)
    show ?thesis
    proof (cases found)
      case (Some f)
      obtain bs where "encode_entry X (fe_entry f) = Some bs" using assms(2) by (auto simp: encodes_all_def)
      with decode_encode [OF assms(1)] \<open>reply = Some r\<close> Inr Some show ?thesis
        by (auto simp: received_def to_store_def found_entry_def decoded_get_sound)
    qed (use Some Inr in \<open>auto simp: received_def to_store_def found_entry_def decoded_get_sound\<close>)
  qed
qed

lemma sound_step:
  assumes "entry_codec_ok X" "encodes_all X"
    and step: "shared_step X replies (call_ok X) n s s'" and inv: "sound_inv X replies mode s"
  shows "sound_inv X replies mode s'"
proof -
  have phase: "sh_calls s n = Some p \<Longrightarrow> sound_phase X (may_panic X replies mode) p" for p using inv by (simp add: sound_inv_def)
  have src: "values_decode X (sh_source s)" "src_fetch_mode (sh_source s) = mode" "\<not> sh_poisoned s"
    using inv by (simp_all add: sound_inv_def)
  note moved = sound_settle [OF inv]
  have self: "s\<lparr>sh_source := sh_source s\<rparr> = s" by simp
  note same = moved [where src = "sh_source s", OF _ src(1,2), unfolded self]
  from step show ?thesis
  proof cases
    case (call c)
    then show ?thesis using same by simp
  next
    case (lock c p src' bad)
    from sound_enter [OF assms(1,2) src(1) _ lock(4)] phase [OF lock(2)]
    have e: "\<not> bad" "sound_phase X (may_panic X replies mode) p" "values_decode X src'" "src_fetch_mode src' = mode"
      using src(2) by auto
    have "s\<lparr>sh_source := src', sh_poisoned := sh_poisoned s \<or> bad\<rparr> = s\<lparr>sh_source := src'\<rparr>"
      using e(1) by (cases s) simp
    then show ?thesis unfolding lock(1) using moved [OF e(2-4)] by simp
  next
    case (poisoned p c)
    with src show ?thesis by simp
  next
    case (decode k v)
    with phase [OF decode(2)] same show ?thesis by auto
  next
    case (decode_all raw)
    with phase [OF decode_all(2)] decoded_all_ok [of raw X] same show ?thesis by auto
  next
    case (count k)
    have "values_decode X ((sh_source s)\<lparr>src_fetch_count := m\<rparr>)" for m using src(1) by (simp add: values_decode_def)
    with count moved src(2) show ?thesis by (auto simp: counted_def may_panic_def)
  next
    case (ask k reply)
    with sound_received [where replies = replies, OF assms(1,2) ask(3)] same src(2) show ?thesis by simp
  next
    case (store k result v)
    with phase [OF store(2)] have "values_decode X (cache_insert X k v (sh_source s))"
      by (intro values_decode_insert [OF src(1)]) (auto simp: decoded_get_sound)
    with store moved src(2) show ?thesis by simp
  qed
qed

interpretation threads: preserved "shared_step X replies (call_ok X)"
    "\<lambda>s. entry_codec_ok X \<and> encodes_all X \<and> sound_inv X replies mode s"
  for X replies mode
  by unfold_locales (auto intro: sound_step)

fun finished :: "call_phase \<Rightarrow> bool" where
  "finished (Answered _) = True"
| "finished (Panicked _) = True"
| "finished _ = False"

lemma shared_progress:
  assumes "sh_calls s n = Some p" "\<not> finished p" "\<And>k. \<exists>reply. replies k reply"
  shows "\<exists>s'. shared_step X replies allowed n s s'"
proof (cases p)
  case (Calling c)
  obtain q src bad where "enter X c (sh_source s) = (q, src, bad)" by (metis prod_cases3)
  with assms(1) Calling show ?thesis
    using shared_step.lock [of s n c X q src bad replies allowed] shared_step.poisoned [of s n "Calling c" c X replies allowed]
    by (cases "\<not> sh_poisoned s \<or> c = CallCount") auto
next
  case (Storing k result v)
  with assms(1) show ?thesis
    using shared_step.store [of s n k result v X replies allowed]
      shared_step.poisoned [of s n "Storing k result v" "CallGet k" X replies allowed]
    by (cases "sh_poisoned s") auto
next
  case (Asking k)
  obtain reply where "replies k reply" using assms(3) by blast
  with assms(1) Asking show ?thesis by (auto intro: shared_step.ask)
qed (use assms in \<open>auto intro: shared_step.intros\<close>)

text \<open>
  C17: A panic stays in the thread that panics: if what is stored can be encoded and the changes applied
  decode, the mutex is never poisoned, the only calls that panic are reads, and those only where a
  fetch may (in strict mode, by overflow of the counter, or in the client); and every call that has
  not ended can go on, whatever has become of the others.
\<close>

theorem panics_contained:
  assumes "entry_codec_ok X" "encodes_all X" "values_decode X src"
    "shared_run X replies (call_ok X) (shared_new src) s"
  shows "\<not> sh_poisoned s
    \<and> (\<forall>n c. sh_calls s n = Some (Panicked c) \<longrightarrow> (\<exists>k. c = CallGet k) \<and> may_panic X replies (src_fetch_mode src))
    \<and> ((\<forall>k. \<exists>reply. replies k reply) \<longrightarrow> (\<forall>n p. sh_calls s n = Some p \<and> \<not> finished p \<longrightarrow>
         (\<exists>s'. shared_step X replies (call_ok X) n s s')))"
proof -
  have "sound_inv X replies (src_fetch_mode src) (shared_new src)" using assms(3) by (simp add: sound_inv_def)
  with assms have "sound_inv X replies (src_fetch_mode src) s"
    using threads.inv_run by (metis shared_run_def)
  then show ?thesis
    using shared_progress by (fastforce simp: sound_inv_def)
qed

section \<open>At a concrete input\<close>


text \<open>An account that is cached, in the library whose codec encodes every entry.\<close>

definition shared_account :: ledger_entry where
  "shared_account = sample_entry (DataAccount (sample_account [3] 41))"

definition account_source :: source where
  "account_source =
     cache_insert total_lib (KeyAccount [3]) (Some (count_bytes shared_account, None)) (source_new online_client)"

lemma account_source_known: "known total_lib account_source (KeyAccount [3]) = Some (Some (shared_account, None))"
  using decode_encode [OF total_entry_codec total_encode] by (simp add: account_source_def known_cache_insert)

theorem bumps_in_turn_witness:
  "\<exists>s. shared_run total_lib (\<lambda>_ _. False) bumping (shared_new account_source) s
     \<and> bump_answers [3] s = [Some 43, Some 42]"
proof -
  let ?run = "shared_run total_lib (\<lambda>_ _. False) bumping"
  have bump: "\<exists>r s'. ?run s s' \<and> sh_log s' = (CallBump [3], AnsSeq r) # sh_log s \<and> \<not> sh_poisoned s'
      \<and> sh_calls s' = (sh_calls s)(n \<mapsto> Answered (AnsSeq r))" if "sh_calls s n = None" "\<not> sh_poisoned s" for s n
  proof -
    obtain r src where b: "bump_account_seq total_lib [3] (sh_source s) = (r, src)" by force
    show ?thesis
      using shared_run_call [of s n bumping "CallBump [3]" total_lib "Answered (AnsSeq r)" src False "\<lambda>_ _. False"] that b
      by (intro exI [of _ r] exI [of _ "settle n (CallBump [3]) (Answered (AnsSeq r)) (s\<lparr>sh_source := src, sh_poisoned := False\<rparr>)"])
        simp
  qed
  obtain r s1 where s1: "?run (shared_new account_source) s1" "sh_log s1 = [(CallBump [3], AnsSeq r)]" "\<not> sh_poisoned s1"
      "sh_calls s1 1 = None"
    using bump [of "shared_new account_source" 0] by auto
  obtain q s2 where s2: "?run s1 s2" "sh_log s2 = [(CallBump [3], AnsSeq q), (CallBump [3], AnsSeq r)]"
    using bump [of s1 1] s1 by auto
  have run: "?run (shared_new account_source) s2" by (rule shared_run_trans [OF s1(1) s2(1)])
  have "le_data shared_account = DataAccount (sample_account [3] 41)" "encodes_all total_lib"
    by (simp_all add: shared_account_def sample_entry_def encodes_all_def total_encode)
  note t = bumps_in_turn [OF total_entry_codec this(2) account_source_known this(1) run]
  have "length (bump_answers [3] s2) = 2"
    by (simp add: bump_answers_def s2(2) List.map_filter_simps)
  with t have "bump_answers [3] s2 = map (\<lambda>i. Some (41 + word_of_nat i)) (rev [1..<3])"
    by (simp add: sample_account_def numeral_3_eq_3 del: upt_Suc)
  with run show ?thesis by (intro exI [of _ s2]) (simp add: upt_rec)
qed

theorem panics_contained_witness:
  "\<exists>s. shared_run total_lib (\<lambda>k reply. reply = Some (Inl RpcNoResult)) (call_ok total_lib)
       (shared_new (source_new online_client)) s
     \<and> sh_calls s 0 = Some (Panicked (CallGet (KeyContractCode [7]))) \<and> \<not> sh_poisoned s"
proof -
  let ?replies = "\<lambda>(k :: ledger_key) reply. reply = Some (Inl RpcNoResult)" and ?k = "KeyContractCode [7]"
  let ?src = "source_new online_client"
  let ?s1 = "settle 0 (CallGet ?k) (Asking ?k) ((shared_new ?src)\<lparr>sh_source := counted_source ?src\<rparr>)"
  let ?s2 = "settle 0 (CallGet ?k) (received total_lib (src_fetch_mode (sh_source ?s1)) ?k (Some (Inl RpcNoResult))) ?s1"
  have "shared_run total_lib ?replies (call_ok total_lib) (shared_new ?src) ?s1"
    using shared_run_miss [of "shared_new ?src" 0 "call_ok total_lib" ?k total_lib ?replies]
    by (simp add: counted_fresh source_new_def)
  also have "shared_run total_lib ?replies (call_ok total_lib) ?s1 ?s2"
    by (rule shared_run_step [OF shared_step.ask]) simp_all
  finally have run: "shared_run total_lib ?replies (call_ok total_lib) (shared_new ?src) ?s2" .
  have "encodes_all total_lib" "values_decode total_lib ?src"
    by (simp_all add: encodes_all_def total_encode values_decode_def source_new_def)
  note panics_contained [OF total_entry_codec this run]
  with run show ?thesis by (intro exI [of _ ?s2]) (simp add: received_def source_new_def)
qed

end
